(* ===== verification/Prelude.thy ===== *)
theory Prelude
  imports Main "HOL-Library.Word" "HOL-Library.Multiset"
begin

text \<open>
  Shared vocabulary of the development: byte strings, Go's error values, the result of a call
  that may return an error or panic, the accumulating loop \<open>for _, x := range xs { y, err := f(x); ...; acc = append(acc, y) }\<close>
  that occurs throughout the source, and the interfaces (locales) that several components share:
  an element conversion with its inverse, a keyed linear search, and a keyed lookup.
\<close>

named_theorems outcome_simps "case distinctions on results, one equation per branch"
named_theorems loop_simps "facts about the accumulating loops of the source"

section \<open>Bytes, errors and results\<close>

type_synonym byte = "8 word"
type_synonym bytes = "byte list"

text \<open>
  Go error values. \<open>Errorf m\<close> is \<open>fmt.Errorf(m)\<close> or \<open>errors.New(m)\<close>; \<open>Wrap m e\<close> is
  \<open>fmt.Errorf("m: %w", e)\<close> or \<open>errors.Wrap(e, m)\<close>; \<open>StatusError g c m\<close> is
  \<open>status.New(g, c, m, nil)\<close>; \<open>External n\<close> is an error made by code outside the repository, of which
  only the identity matters.
\<close>

datatype status_group = ClientStatus | EventServerStatus

datatype TxValidationCode = TxValidationCode_VALID | TxValidationCode_INVALID nat

datatype status_code = NoPeersFound | Timeout | ValidationCode TxValidationCode

datatype error =
    Errorf string
  | Wrap string error
  | StatusError status_group status_code string
  | External nat

text \<open>The outcome of a Go call: a value, an error, or a panic (for example a nil dereference).\<close>

datatype 'a result = Ok 'a | Err error | Panic

text \<open>\<open>x, err := m; if err != nil { return err }; f x\<close>\<close>

primrec bindR :: "'a result \<Rightarrow> ('a \<Rightarrow> 'b result) \<Rightarrow> 'b result" where
  "bindR (Ok x) f = f x"
| "bindR (Err e) f = Err e"
| "bindR Panic f = Panic"

text \<open>\<open>if err != nil { return fmt.Errorf("msg: %w", err) }\<close>\<close>

primrec wrapR :: "string \<Rightarrow> 'a result \<Rightarrow> 'a result" where
  "wrapR msg (Ok x) = Ok x"
| "wrapR msg (Err e) = Err (Wrap msg e)"
| "wrapR msg Panic = Panic"

text \<open>A pointer dereference: nil panics.\<close>

primrec deref :: "'a option \<Rightarrow> 'a result" where
  "deref None = Panic"
| "deref (Some x) = Ok x"

lemma bindR_Ok_iff [outcome_simps]:
  "bindR m f = Ok y \<longleftrightarrow> (\<exists>x. m = Ok x \<and> f x = Ok y)"
  by (cases m) auto

lemma bindR_Err_iff [outcome_simps]:
  "bindR m f = Err e \<longleftrightarrow> m = Err e \<or> (\<exists>x. m = Ok x \<and> f x = Err e)"
  by (cases m) auto

lemma bindR_Panic_iff [outcome_simps]:
  "bindR m f = Panic \<longleftrightarrow> m = Panic \<or> (\<exists>x. m = Ok x \<and> f x = Panic)"
  by (cases m) auto

lemma wrapR_Ok_iff [outcome_simps]: "wrapR msg m = Ok y \<longleftrightarrow> m = Ok y"
  by (cases m) auto

lemma wrapR_Err_iff [outcome_simps]:
  "wrapR msg m = Err e \<longleftrightarrow> (\<exists>e'. m = Err e' \<and> e = Wrap msg e')"
  by (cases m) auto

lemma wrapR_Panic_iff [outcome_simps]: "wrapR msg m = Panic \<longleftrightarrow> m = Panic"
  by (cases m) auto

lemma deref_iff [outcome_simps]:
  "deref p = Ok x \<longleftrightarrow> p = Some x"
  "deref p = Panic \<longleftrightarrow> p = None"
  "deref p = Err e \<longleftrightarrow> False"
  by (cases p; auto)+

section \<open>The accumulating loop\<close>

text \<open>
  \<open>append_loop f acc xs\<close> is the loop that converts the elements in order, returns the first error
  (or panics where a conversion panics) and otherwise appends to \<open>acc\<close>.
\<close>

fun append_loop :: "('a \<Rightarrow> 'b result) \<Rightarrow> 'b list \<Rightarrow> 'a list \<Rightarrow> 'b list result" where
  "append_loop f acc [] = Ok acc"
| "append_loop f acc (x # xs) =
     (case f x of
        Ok y \<Rightarrow> append_loop f (acc @ [y]) xs
      | Err e \<Rightarrow> Err e
      | Panic \<Rightarrow> Panic)"

lemma append_loop_acc [loop_simps]:
  "append_loop f (acc @ ys) xs = bindR (append_loop f ys xs) (\<lambda>zs. Ok (acc @ zs))"
  by (induction xs arbitrary: ys) (auto split: result.splits)

lemma append_loop_Ok_iff [loop_simps]:
  "append_loop f acc xs = Ok ys \<longleftrightarrow>
     (\<exists>zs. ys = acc @ zs \<and> list_all2 (\<lambda>x z. f x = Ok z) xs zs)"
  by (induction xs arbitrary: acc ys)
    (auto simp: list_all2_Cons1 split: result.splits)

lemma append_loop_Ok_nil:
  "append_loop f [] xs = Ok ys \<longleftrightarrow> list_all2 (\<lambda>x z. f x = Ok z) xs ys"
  by (simp add: append_loop_Ok_iff)

text \<open>The loop fails with the error of the first element whose conversion fails.\<close>

lemma append_loop_Err_iff [loop_simps]:
  "append_loop f acc xs = Err e \<longleftrightarrow>
     (\<exists>us x vs. xs = us @ x # vs \<and> (\<forall>u \<in> set us. \<exists>y. f u = Ok y) \<and> f x = Err e)"
proof (induction xs arbitrary: acc)
  case Nil
  then show ?case by simp
next
  case (Cons x xs)
  show ?case
  proof (cases "f x")
    case (Ok y)
    have "(\<exists>us z vs. x # xs = us @ z # vs \<and> (\<forall>u \<in> set us. \<exists>y. f u = Ok y) \<and> f z = Err e)
      \<longleftrightarrow> (\<exists>us z vs. xs = us @ z # vs \<and> (\<forall>u \<in> set us. \<exists>y. f u = Ok y) \<and> f z = Err e)"
      (is "?L \<longleftrightarrow> ?R")
    proof
      assume ?L
      then obtain us z vs where *: "x # xs = us @ z # vs"
        "\<forall>u \<in> set us. \<exists>y. f u = Ok y" "f z = Err e" by blast
      with Ok show ?R by (cases us) auto
    next
      assume ?R
      then obtain us z vs where "xs = us @ z # vs"
        "\<forall>u \<in> set us. \<exists>y. f u = Ok y" "f z = Err e" by blast
      with Ok have "x # xs = (x # us) @ z # vs \<and> (\<forall>u \<in> set (x # us). \<exists>y. f u = Ok y) \<and> f z = Err e"
        by simp
      then show ?L by blast
    qed
    with Ok Cons show ?thesis by simp
  next
    case (Err e')
    then show ?thesis
      by (auto simp: Cons_eq_append_conv intro!: exI [of _ "[]"])
  next
    case Panic
    then show ?thesis
      by (auto simp: Cons_eq_append_conv)
  qed
qed

lemma append_loop_length:
  "append_loop f [] xs = Ok ys \<Longrightarrow> length ys = length xs"
  by (simp add: append_loop_Ok_nil list_all2_lengthD)

lemma append_loop_total:
  "(\<And>x. x \<in> set xs \<Longrightarrow> \<exists>y. f x = Ok y) \<Longrightarrow> \<exists>ys. append_loop f acc xs = Ok ys"
proof (induction xs arbitrary: acc)
  case (Cons x xs)
  then obtain y where "f x = Ok y" by (metis list.set_intros(1))
  with Cons show ?case by simp
qed simp

lemma append_loop_no_Panic:
  "(\<And>x. x \<in> set xs \<Longrightarrow> f x \<noteq> Panic) \<Longrightarrow> append_loop f acc xs \<noteq> Panic"
  by (induction xs arbitrary: acc) (auto split: result.splits)

text \<open>A field that the conversion copies is copied elementwise by the loop.\<close>

lemma append_loop_map:
  assumes "append_loop f [] xs = Ok ys"
    and "\<And>x y. x \<in> set xs \<Longrightarrow> f x = Ok y \<Longrightarrow> h y = g x"
  shows "map h ys = map g xs"
proof -
  have "list_all2 (\<lambda>x z. f x = Ok z) xs ys"
    using assms(1) by (simp add: append_loop_Ok_nil)
  then show ?thesis using assms(2)
    by (induction rule: list_all2_induct) auto
qed

lemma append_loop_all:
  assumes "append_loop f [] xs = Ok ys" and "\<And>x y. f x = Ok y \<Longrightarrow> P y"
  shows "list_all P ys"
proof -
  have "list_all2 (\<lambda>x z. f x = Ok z) xs ys"
    using assms(1) by (simp add: append_loop_Ok_nil)
  then show ?thesis using assms(2)
    by (induction rule: list_all2_induct) auto
qed

section \<open>First occurrences\<close>

text \<open>
  The reference for the duplicate-eliminating loops of the source: keep the first element of every
  key, in order.
\<close>

fun uniq_by :: "('a \<Rightarrow> 'k) \<Rightarrow> 'a list \<Rightarrow> 'a list" where
  "uniq_by f [] = []"
| "uniq_by f (x # xs) = x # filter (\<lambda>y. f y \<noteq> f x) (uniq_by f xs)"

lemma set_uniq_by: "set (uniq_by f xs) \<subseteq> set xs"
  by (induction xs) auto

lemma keys_uniq_by [simp]: "f ` set (uniq_by f xs) = f ` set xs"
proof (induction xs)
  case (Cons x xs)
  have "f ` set (uniq_by f (x # xs)) = insert (f x) (f ` set (uniq_by f xs) - {f x})"
    by auto
  with Cons show ?case by auto
qed simp

lemma distinct_uniq_by [simp]: "distinct (map f (uniq_by f xs))"
  by (induction xs) (auto simp: distinct_map inj_on_def distinct_filter)

lemma set_uniq_id [simp]: "set (uniq_by (\<lambda>x. x) xs) = set xs"
  using keys_uniq_by [of "\<lambda>x. x" xs] by simp

lemma distinct_uniq_id [simp]: "distinct (uniq_by (\<lambda>x. x) xs)"
  using distinct_uniq_by [of "\<lambda>x. x" xs] by simp

lemma filter_uniq_by: "filter (\<lambda>x. P (f x)) (uniq_by f xs) = uniq_by f (filter (\<lambda>x. P (f x)) xs)"
proof (induction xs)
  case (Cons x xs)
  show ?case
  proof (cases "P (f x)")
    case True
    have "filter (\<lambda>y. P (f y)) (filter (\<lambda>y. f y \<noteq> f x) (uniq_by f xs)) =
        filter (\<lambda>y. f y \<noteq> f x) (filter (\<lambda>y. P (f y)) (uniq_by f xs))"
      by (simp add: filter_filter conj_commute)
    with True Cons show ?thesis by simp
  next
    case False
    then have "filter (\<lambda>y. P (f y)) (filter (\<lambda>y. f y \<noteq> f x) (uniq_by f xs)) =
        filter (\<lambda>y. P (f y)) (uniq_by f xs)"
      by (auto simp: filter_filter intro: filter_cong)
    with False Cons show ?thesis by simp
  qed
qed simp

lemma uniq_by_distinct: "distinct (map f xs) \<Longrightarrow> uniq_by f xs = xs"
  by (induction xs) (auto simp: filter_id_conv image_iff)

lemma uniq_by_idem: "uniq_by f (uniq_by f xs) = uniq_by f xs"
  by (simp add: uniq_by_distinct)

lemma find_map: "find P (map f xs) = map_option f (find (\<lambda>x. P (f x)) xs)"
  by (induction xs) auto

section \<open>Interfaces shared by the components\<close>

text \<open>
  \<open>codec_at mar unm m\<close>: the serialiser's documented promise at the message \<open>m\<close>, that unmarshalling
  what \<open>mar\<close> produced for \<open>m\<close> gives \<open>m\<close> back.
\<close>

definition codec_at :: "('m \<Rightarrow> bytes result) \<Rightarrow> (bytes \<Rightarrow> 'm result) \<Rightarrow> 'm \<Rightarrow> bool" where
  "codec_at mar unm m = (case mar m of Ok b \<Rightarrow> unm b = Ok m | _ \<Rightarrow> True)"

lemma codec_atD [dest]: "codec_at mar unm m \<Longrightarrow> mar m = Ok b \<Longrightarrow> unm b = Ok m"
  by (simp add: codec_at_def)

text \<open>
  A conversion between a Go value and its wire form, with the values on which the way back is
  promised. The client is the loop above: the list of converted elements converts back.
\<close>

locale element_codec =
  fixes enc :: "'a \<Rightarrow> 'b result"
    and dec :: "'b \<Rightarrow> 'a result"
    and ok :: "'a \<Rightarrow> bool"
  assumes dec_enc: "ok x \<Longrightarrow> enc x = Ok y \<Longrightarrow> dec y = Ok x"
begin

lemma loop_roundtrip:
  assumes "list_all ok xs" and "append_loop enc [] xs = Ok ys"
  shows "append_loop dec [] ys = Ok xs"
proof -
  have "list_all2 (\<lambda>x z. enc x = Ok z) xs ys"
    using assms(2) by (simp add: append_loop_Ok_nil)
  then have "list_all2 (\<lambda>y x. dec y = Ok x) ys xs" using assms(1)
    by (induction rule: list_all2_induct) (auto simp: dec_enc)
  then show ?thesis by (simp add: append_loop_Ok_nil)
qed

lemma enc_inj_on: "ok x \<Longrightarrow> ok x' \<Longrightarrow> enc x = Ok y \<Longrightarrow> enc x' = Ok y \<Longrightarrow> x = x'"
  by (metis dec_enc result.inject(1))

end

text \<open>
  A linear search for a probe in a list of elements, and what a client may conclude from it:
  the answer depends on the set of keys only, and filtering by its negation gives disjoint keys.
\<close>

locale key_search =
  fixes search :: "'a list \<Rightarrow> 'q \<Rightarrow> bool"
    and key :: "'a \<Rightarrow> 'k"
    and probe :: "'q \<Rightarrow> 'k"
  assumes search_iff: "search xs q \<longleftrightarrow> probe q \<in> key ` set xs"
begin

lemma search_append: "search (xs @ ys) q \<longleftrightarrow> search xs q \<or> search ys q"
  by (auto simp: search_iff)

lemma search_mono: "set xs \<subseteq> set ys \<Longrightarrow> search xs q \<Longrightarrow> search ys q"
  by (auto simp: search_iff)

lemma filter_fresh_disjoint:
  assumes "\<And>y. probe (p y) = key y"
  shows "key ` set (filter (\<lambda>y. \<not> search xs (p y)) ys) \<inter> key ` set xs = {}"
  using assms by (auto simp: search_iff)

lemma filter_fresh_covers:
  assumes "\<And>y. probe (p y) = key y"
  shows "key ` set xs \<union> key ` set (filter (\<lambda>y. \<not> search xs (p y)) ys) = key ` set xs \<union> key ` set ys"
  using assms by (auto simp: search_iff image_iff)

end

text \<open>A keyed lookup finds the first element with the key; it gives a keyed search.\<close>

locale key_lookup =
  fixes look :: "'a list \<Rightarrow> 'k \<Rightarrow> 'a option"
    and key :: "'a \<Rightarrow> 'k"
  assumes look_first: "look xs k = find (\<lambda>x. key x = k) xs"
begin

lemma look_Some: "look xs k = Some x \<Longrightarrow> x \<in> set xs \<and> key x = k"
  by (auto simp: look_first find_Some_iff)

lemma look_None: "look xs k = None \<longleftrightarrow> k \<notin> key ` set xs"
  by (auto simp: look_first find_None_iff)

lemma look_distinct:
  assumes "distinct (map key xs)" and "x \<in> set xs"
  shows "look xs (key x) = Some x"
proof -
  obtain y where y: "look xs (key x) = Some y"
    using assms(2) look_None by (metis imageI option.exhaust)
  then have "y \<in> set xs" "key y = key x" by (auto dest: look_Some)
  then have "y = x" using assms by (auto simp: distinct_map dest: inj_onD)
  with y show ?thesis by simp
qed

end

sublocale key_lookup \<subseteq> found: key_search "\<lambda>xs k. look xs k \<noteq> None" key "\<lambda>k. k"
  by unfold_locales (simp add: look_None)

end
