(* ===== verification/Rwset_Util.thy ===== *)
theory Rwset_Util
  imports Prelude
begin

text \<open>
  The package \<open>pkg/client/channel/invoke/rwsetutil\<close>: Go structs for public and private
  read-write sets, and their conversion to and from the protobuf messages of the ledger.
  Pointers are \<open>option\<close> values (nil is \<open>None\<close>). The protobuf library is not part of the
  repository: \<open>proto.Marshal\<close> and \<open>proto.Unmarshal\<close> are the fields of the record
  \<open>rwset_proto\<close>, over which every definition is parameterised, and the messages
  \<open>kvrwset.KVRWSet\<close> and \<open>kvrwset.HashedRWSet\<close>, which the source never looks into, are opaque
  values. Go's nil slice and empty slice are both the empty list.
\<close>

section \<open>The protobuf messages (generated code, by the fields the source uses)\<close>

datatype KVRWSet = KVRWSet_message nat
datatype HashedRWSet = HashedRWSet_message nat

datatype data_model = TxReadWriteSet_KV | TxReadWriteSet_OTHER nat

record CollectionHashedReadWriteSet =
  chm_CollectionName :: string
  chm_HashedRwset :: bytes
  chm_PvtRwsetHash :: bytes

record NsReadWriteSet =
  nsm_Namespace :: string
  nsm_Rwset :: bytes
  nsm_CollectionHashedRwset :: "CollectionHashedReadWriteSet option list"

record TxReadWriteSet =
  txm_DataModel :: data_model
  txm_NsRwset :: "NsReadWriteSet option list"

record CollectionPvtReadWriteSet =
  cpm_CollectionName :: string
  cpm_Rwset :: bytes

record NsPvtReadWriteSet =
  npm_Namespace :: string
  npm_CollectionPvtRwset :: "CollectionPvtReadWriteSet option list"

record TxPvtReadWriteSet =
  tpm_DataModel :: data_model
  tpm_NsPvtRwset :: "NsPvtReadWriteSet option list"

record rwset_proto =
  Marshal_KVRWSet :: "KVRWSet option \<Rightarrow> bytes result"
  Unmarshal_KVRWSet :: "bytes \<Rightarrow> KVRWSet result"
  Marshal_HashedRWSet :: "HashedRWSet option \<Rightarrow> bytes result"
  Unmarshal_HashedRWSet :: "bytes \<Rightarrow> HashedRWSet result"
  Marshal_TxReadWriteSet :: "TxReadWriteSet \<Rightarrow> bytes result"
  Unmarshal_TxReadWriteSet :: "bytes \<Rightarrow> TxReadWriteSet result"
  Marshal_TxPvtReadWriteSet :: "TxPvtReadWriteSet \<Rightarrow> bytes result"
  Unmarshal_TxPvtReadWriteSet :: "bytes \<Rightarrow> TxPvtReadWriteSet result"

text \<open>Two more messages, of which the endorsement logic reads one field each.\<close>

record ProposalResponsePayload =
  prp_Extension :: bytes

record ChaincodeAction =
  ca_Results :: bytes

record chain_proto = rwset_proto +
  Unmarshal_ProposalResponsePayload :: "bytes \<Rightarrow> ProposalResponsePayload result"
  Unmarshal_ChaincodeAction :: "bytes \<Rightarrow> ChaincodeAction result"

section \<open>The Go structs\<close>

record CollHashedRwSet =
  CollectionName :: string
  HashedRwSet :: "HashedRWSet option"
  PvtRwSetHash :: bytes

record NsRwSet =
  NameSpace :: string
  KvRwSet :: "KVRWSet option"
  CollHashedRwSets :: "CollHashedRwSet option list"

record TxRwSet =
  NsRwSets :: "NsRwSet option list"

record CollPvtRwSet =
  pvt_CollectionName :: string
  pvt_KvRwSet :: "KVRWSet option"

record NsPvtRwSet =
  pvt_NameSpace :: string
  CollPvtRwSets :: "CollPvtRwSet option list"

record TxPvtRwSet =
  NsPvtRwSets :: "NsPvtRwSet option list"

section \<open>Public read-write sets\<close>

definition CollHashedRwSet_toProtoMsg ::
  "'z rwset_proto_scheme \<Rightarrow> CollHashedRwSet option \<Rightarrow> CollectionHashedReadWriteSet option result"
where
  "CollHashedRwSet_toProtoMsg W p = bindR (deref p) (\<lambda>c.
     bindR (Marshal_HashedRWSet W (HashedRwSet c)) (\<lambda>b.
     Ok (Some \<lparr>chm_CollectionName = CollectionName c, chm_HashedRwset = b,
               chm_PvtRwsetHash = PvtRwSetHash c\<rparr>)))"

definition collHashedRwSetFromProtoMsg ::
  "'z rwset_proto_scheme \<Rightarrow> CollectionHashedReadWriteSet option \<Rightarrow> CollHashedRwSet option result"
where
  "collHashedRwSetFromProtoMsg W p = bindR (deref p) (\<lambda>m.
     bindR (Unmarshal_HashedRWSet W (chm_HashedRwset m)) (\<lambda>h.
     Ok (Some \<lparr>CollectionName = chm_CollectionName m, HashedRwSet = Some h,
               PvtRwSetHash = chm_PvtRwsetHash m\<rparr>)))"

definition NsRwSet_toProtoMsg ::
  "'z rwset_proto_scheme \<Rightarrow> NsRwSet option \<Rightarrow> NsReadWriteSet option result"
where
  "NsRwSet_toProtoMsg W p = bindR (deref p) (\<lambda>ns.
     bindR (Marshal_KVRWSet W (KvRwSet ns)) (\<lambda>b.
     bindR (append_loop (CollHashedRwSet_toProtoMsg W) [] (CollHashedRwSets ns)) (\<lambda>cs.
     Ok (Some \<lparr>nsm_Namespace = NameSpace ns, nsm_Rwset = b, nsm_CollectionHashedRwset = cs\<rparr>))))"

definition nsRwSetFromProtoMsg ::
  "'z rwset_proto_scheme \<Rightarrow> NsReadWriteSet option \<Rightarrow> NsRwSet option result"
where
  "nsRwSetFromProtoMsg W p = bindR (deref p) (\<lambda>m.
     bindR (Unmarshal_KVRWSet W (nsm_Rwset m)) (\<lambda>kv.
     bindR (append_loop (collHashedRwSetFromProtoMsg W) [] (nsm_CollectionHashedRwset m)) (\<lambda>cs.
     Ok (Some \<lparr>NameSpace = nsm_Namespace m, KvRwSet = Some kv, CollHashedRwSets = cs\<rparr>))))"

definition TxRwSet_toProtoMsg :: "'z rwset_proto_scheme \<Rightarrow> TxRwSet \<Rightarrow> TxReadWriteSet result" where
  "TxRwSet_toProtoMsg W tx =
     bindR (append_loop (NsRwSet_toProtoMsg W) [] (NsRwSets tx)) (\<lambda>ns.
     Ok \<lparr>txm_DataModel = TxReadWriteSet_KV, txm_NsRwset = ns\<rparr>)"

definition TxRwSetFromProtoMsg :: "'z rwset_proto_scheme \<Rightarrow> TxReadWriteSet \<Rightarrow> TxRwSet result" where
  "TxRwSetFromProtoMsg W m =
     bindR (append_loop (nsRwSetFromProtoMsg W) [] (txm_NsRwset m)) (\<lambda>ns. Ok \<lparr>NsRwSets = ns\<rparr>)"

definition TxRwSet_ToProtoBytes :: "'z rwset_proto_scheme \<Rightarrow> TxRwSet \<Rightarrow> bytes result" where
  "TxRwSet_ToProtoBytes W tx = bindR (TxRwSet_toProtoMsg W tx) (Marshal_TxReadWriteSet W)"

text \<open>\<open>FromProtoBytes\<close> is a method that overwrites its receiver: the receiver is passed and returned.\<close>

definition TxRwSet_FromProtoBytes ::
  "'z rwset_proto_scheme \<Rightarrow> TxRwSet \<Rightarrow> bytes \<Rightarrow> unit result \<times> TxRwSet"
where
  "TxRwSet_FromProtoBytes W tx bs =
     (case bindR (Unmarshal_TxReadWriteSet W bs) (TxRwSetFromProtoMsg W) of
        Ok tmp \<Rightarrow> (Ok (), tx\<lparr>NsRwSets := NsRwSets tmp\<rparr>)
      | Err e \<Rightarrow> (Err e, tx)
      | Panic \<Rightarrow> (Panic, tx))"

section \<open>Private read-write sets\<close>

definition CollPvtRwSet_toProtoMsg ::
  "'z rwset_proto_scheme \<Rightarrow> CollPvtRwSet option \<Rightarrow> CollectionPvtReadWriteSet option result"
where
  "CollPvtRwSet_toProtoMsg W p = bindR (deref p) (\<lambda>c.
     bindR (Marshal_KVRWSet W (pvt_KvRwSet c)) (\<lambda>b.
     Ok (Some \<lparr>cpm_CollectionName = pvt_CollectionName c, cpm_Rwset = b\<rparr>)))"

definition collPvtRwSetFromProtoMsg ::
  "'z rwset_proto_scheme \<Rightarrow> CollectionPvtReadWriteSet option \<Rightarrow> CollPvtRwSet option result"
where
  "collPvtRwSetFromProtoMsg W p = bindR (deref p) (\<lambda>m.
     bindR (Unmarshal_KVRWSet W (cpm_Rwset m)) (\<lambda>kv.
     Ok (Some \<lparr>pvt_CollectionName = cpm_CollectionName m, pvt_KvRwSet = Some kv\<rparr>)))"

definition NsPvtRwSet_toProtoMsg ::
  "'z rwset_proto_scheme \<Rightarrow> NsPvtRwSet option \<Rightarrow> NsPvtReadWriteSet option result"
where
  "NsPvtRwSet_toProtoMsg W p = bindR (deref p) (\<lambda>ns.
     bindR (append_loop (CollPvtRwSet_toProtoMsg W) [] (CollPvtRwSets ns)) (\<lambda>cs.
     Ok (Some \<lparr>npm_Namespace = pvt_NameSpace ns, npm_CollectionPvtRwset = cs\<rparr>)))"

definition nsPvtRwSetFromProtoMsg ::
  "'z rwset_proto_scheme \<Rightarrow> NsPvtReadWriteSet option \<Rightarrow> NsPvtRwSet option result"
where
  "nsPvtRwSetFromProtoMsg W p = bindR (deref p) (\<lambda>m.
     bindR (append_loop (collPvtRwSetFromProtoMsg W) [] (npm_CollectionPvtRwset m)) (\<lambda>cs.
     Ok (Some \<lparr>pvt_NameSpace = npm_Namespace m, CollPvtRwSets = cs\<rparr>)))"

definition TxPvtRwSet_toProtoMsg :: "'z rwset_proto_scheme \<Rightarrow> TxPvtRwSet \<Rightarrow> TxPvtReadWriteSet result"
where
  "TxPvtRwSet_toProtoMsg W tx =
     bindR (append_loop (NsPvtRwSet_toProtoMsg W) [] (NsPvtRwSets tx)) (\<lambda>ns.
     Ok \<lparr>tpm_DataModel = TxReadWriteSet_KV, tpm_NsPvtRwset = ns\<rparr>)"

definition TxPvtRwSetFromProtoMsg :: "'z rwset_proto_scheme \<Rightarrow> TxPvtReadWriteSet \<Rightarrow> TxPvtRwSet result"
where
  "TxPvtRwSetFromProtoMsg W m =
     bindR (append_loop (nsPvtRwSetFromProtoMsg W) [] (tpm_NsPvtRwset m)) (\<lambda>ns.
     Ok \<lparr>NsPvtRwSets = ns\<rparr>)"

definition TxPvtRwSet_ToProtoBytes :: "'z rwset_proto_scheme \<Rightarrow> TxPvtRwSet \<Rightarrow> bytes result" where
  "TxPvtRwSet_ToProtoBytes W tx = bindR (TxPvtRwSet_toProtoMsg W tx) (Marshal_TxPvtReadWriteSet W)"

definition TxPvtRwSet_FromProtoBytes ::
  "'z rwset_proto_scheme \<Rightarrow> TxPvtRwSet \<Rightarrow> bytes \<Rightarrow> unit result \<times> TxPvtRwSet"
where
  "TxPvtRwSet_FromProtoBytes W tx bs =
     (case bindR (Unmarshal_TxPvtReadWriteSet W bs) (TxPvtRwSetFromProtoMsg W) of
        Ok tmp \<Rightarrow> (Ok (), tx\<lparr>NsPvtRwSets := NsPvtRwSets tmp\<rparr>)
      | Err e \<Rightarrow> (Err e, tx)
      | Panic \<Rightarrow> (Panic, tx))"

lemmas public_defs = CollHashedRwSet_toProtoMsg_def collHashedRwSetFromProtoMsg_def
  NsRwSet_toProtoMsg_def nsRwSetFromProtoMsg_def TxRwSet_toProtoMsg_def TxRwSetFromProtoMsg_def
lemmas private_defs = CollPvtRwSet_toProtoMsg_def collPvtRwSetFromProtoMsg_def
  NsPvtRwSet_toProtoMsg_def nsPvtRwSetFromProtoMsg_def TxPvtRwSet_toProtoMsg_def
  TxPvtRwSetFromProtoMsg_def

section \<open>Well-formed sets\<close>

text \<open>
  A set converts back when no pointer in it is nil and the serialiser keeps its promise at the
  messages that occur in it. Both are decided by evaluation.
\<close>

definition coll_hashed_ok :: "'z rwset_proto_scheme \<Rightarrow> CollHashedRwSet option \<Rightarrow> bool" where
  "coll_hashed_ok W p = (case p of None \<Rightarrow> False | Some c \<Rightarrow>
     (case HashedRwSet c of None \<Rightarrow> False | Some h \<Rightarrow>
        codec_at (\<lambda>x. Marshal_HashedRWSet W (Some x)) (Unmarshal_HashedRWSet W) h))"

definition kv_ok :: "'z rwset_proto_scheme \<Rightarrow> KVRWSet option \<Rightarrow> bool" where
  "kv_ok W p = (case p of None \<Rightarrow> False | Some kv \<Rightarrow>
     codec_at (\<lambda>x. Marshal_KVRWSet W (Some x)) (Unmarshal_KVRWSet W) kv)"

definition ns_ok :: "'z rwset_proto_scheme \<Rightarrow> NsRwSet option \<Rightarrow> bool" where
  "ns_ok W p = (case p of None \<Rightarrow> False | Some ns \<Rightarrow>
     kv_ok W (KvRwSet ns) \<and> list_all (coll_hashed_ok W) (CollHashedRwSets ns))"

definition tx_ok :: "'z rwset_proto_scheme \<Rightarrow> TxRwSet \<Rightarrow> bool" where
  "tx_ok W tx \<longleftrightarrow> list_all (ns_ok W) (NsRwSets tx) \<and>
     (case TxRwSet_toProtoMsg W tx of
        Ok m \<Rightarrow> codec_at (Marshal_TxReadWriteSet W) (Unmarshal_TxReadWriteSet W) m
      | _ \<Rightarrow> True)"

definition coll_pvt_ok :: "'z rwset_proto_scheme \<Rightarrow> CollPvtRwSet option \<Rightarrow> bool" where
  "coll_pvt_ok W p = (case p of None \<Rightarrow> False | Some c \<Rightarrow> kv_ok W (pvt_KvRwSet c))"

definition ns_pvt_ok :: "'z rwset_proto_scheme \<Rightarrow> NsPvtRwSet option \<Rightarrow> bool" where
  "ns_pvt_ok W p = (case p of None \<Rightarrow> False | Some ns \<Rightarrow> list_all (coll_pvt_ok W) (CollPvtRwSets ns))"

definition tx_pvt_ok :: "'z rwset_proto_scheme \<Rightarrow> TxPvtRwSet \<Rightarrow> bool" where
  "tx_pvt_ok W tx \<longleftrightarrow> list_all (ns_pvt_ok W) (NsPvtRwSets tx) \<and>
     (case TxPvtRwSet_toProtoMsg W tx of
        Ok m \<Rightarrow> codec_at (Marshal_TxPvtReadWriteSet W) (Unmarshal_TxPvtReadWriteSet W) m
      | _ \<Rightarrow> True)"

lemmas ok_defs = coll_hashed_ok_def kv_ok_def ns_ok_def coll_pvt_ok_def ns_pvt_ok_def

section \<open>Every level is an element codec\<close>

interpretation coll_hashed: element_codec
  "CollHashedRwSet_toProtoMsg W" "collHashedRwSetFromProtoMsg W" "coll_hashed_ok W" for W
  by unfold_locales
    (auto simp: public_defs ok_defs outcome_simps split: option.splits)

interpretation ns: element_codec "NsRwSet_toProtoMsg W" "nsRwSetFromProtoMsg W" "ns_ok W" for W
  by unfold_locales
    (auto simp: NsRwSet_toProtoMsg_def nsRwSetFromProtoMsg_def ns_ok_def kv_ok_def outcome_simps
      dest!: codec_atD coll_hashed.loop_roundtrip split: option.splits)

interpretation tx: element_codec "TxRwSet_toProtoMsg W" "TxRwSetFromProtoMsg W" "tx_ok W" for W
  by unfold_locales
    (auto simp: TxRwSet_toProtoMsg_def TxRwSetFromProtoMsg_def tx_ok_def outcome_simps
      dest: ns.loop_roundtrip)

interpretation coll_pvt: element_codec
  "CollPvtRwSet_toProtoMsg W" "collPvtRwSetFromProtoMsg W" "coll_pvt_ok W" for W
  by unfold_locales
    (auto simp: private_defs ok_defs outcome_simps split: option.splits)

interpretation ns_pvt: element_codec
  "NsPvtRwSet_toProtoMsg W" "nsPvtRwSetFromProtoMsg W" "ns_pvt_ok W" for W
  by unfold_locales
    (auto simp: NsPvtRwSet_toProtoMsg_def nsPvtRwSetFromProtoMsg_def ns_pvt_ok_def outcome_simps
      dest!: codec_atD coll_pvt.loop_roundtrip split: option.splits)

interpretation tx_pvt: element_codec
  "TxPvtRwSet_toProtoMsg W" "TxPvtRwSetFromProtoMsg W" "tx_pvt_ok W" for W
  by unfold_locales
    (auto simp: TxPvtRwSet_toProtoMsg_def TxPvtRwSetFromProtoMsg_def tx_pvt_ok_def outcome_simps
      dest: ns_pvt.loop_roundtrip)

section \<open>Names\<close>

text \<open>
  The part of a read-write set the endorsement logic reads: each namespace with its collection
  names, in order.
\<close>

definition ns_names :: "NsRwSet \<Rightarrow> string \<times> string list" where
  "ns_names ns = (NameSpace ns,
     map (\<lambda>p. case p of None \<Rightarrow> [] | Some c \<Rightarrow> CollectionName c) (CollHashedRwSets ns))"

definition tx_names :: "TxRwSet \<Rightarrow> (string \<times> string list) option list" where
  "tx_names tx = map (map_option ns_names) (NsRwSets tx)"

definition ns_msg_names :: "NsReadWriteSet \<Rightarrow> string \<times> string list" where
  "ns_msg_names m = (nsm_Namespace m,
     map (\<lambda>p. case p of None \<Rightarrow> [] | Some c \<Rightarrow> chm_CollectionName c) (nsm_CollectionHashedRwset m))"

definition tx_msg_names :: "TxReadWriteSet \<Rightarrow> (string \<times> string list) option list" where
  "tx_msg_names m = map (map_option ns_msg_names) (txm_NsRwset m)"

lemma nsRwSetFromProtoMsg_names:
  assumes "nsRwSetFromProtoMsg W p = Ok q"
  shows "map_option ns_names q = map_option ns_msg_names p"
proof -
  obtain m kv cs where m: "p = Some m"
    and cs: "append_loop (collHashedRwSetFromProtoMsg W) [] (nsm_CollectionHashedRwset m) = Ok cs"
    and q: "q = Some \<lparr>NameSpace = nsm_Namespace m, KvRwSet = Some kv, CollHashedRwSets = cs\<rparr>"
    using assms by (auto simp: nsRwSetFromProtoMsg_def outcome_simps)
  have "map (\<lambda>p. case p of None \<Rightarrow> [] | Some c \<Rightarrow> CollectionName c) cs =
      map (\<lambda>p. case p of None \<Rightarrow> [] | Some c \<Rightarrow> chm_CollectionName c) (nsm_CollectionHashedRwset m)"
    by (rule append_loop_map [OF cs]) (auto simp: collHashedRwSetFromProtoMsg_def outcome_simps)
  with m q show ?thesis by (simp add: ns_names_def ns_msg_names_def)
qed

lemma NsRwSet_toProtoMsg_names:
  assumes "NsRwSet_toProtoMsg W p = Ok q"
  shows "map_option ns_msg_names q = map_option ns_names p"
proof -
  obtain ns b cs where ns: "p = Some ns"
    and cs: "append_loop (CollHashedRwSet_toProtoMsg W) [] (CollHashedRwSets ns) = Ok cs"
    and q: "q = Some \<lparr>nsm_Namespace = NameSpace ns, nsm_Rwset = b, nsm_CollectionHashedRwset = cs\<rparr>"
    using assms by (auto simp: NsRwSet_toProtoMsg_def outcome_simps)
  have "map (\<lambda>p. case p of None \<Rightarrow> [] | Some c \<Rightarrow> chm_CollectionName c) cs =
      map (\<lambda>p. case p of None \<Rightarrow> [] | Some c \<Rightarrow> CollectionName c) (CollHashedRwSets ns)"
    by (rule append_loop_map [OF cs]) (auto simp: CollHashedRwSet_toProtoMsg_def outcome_simps)
  with ns q show ?thesis by (simp add: ns_names_def ns_msg_names_def)
qed

lemma TxRwSetFromProtoMsg_names:
  "TxRwSetFromProtoMsg W m = Ok tx \<Longrightarrow> tx_names tx = tx_msg_names m"
  unfolding tx_names_def tx_msg_names_def
  by (rule append_loop_map [where f = "nsRwSetFromProtoMsg W"])
    (auto simp: TxRwSetFromProtoMsg_def outcome_simps nsRwSetFromProtoMsg_names)

lemma TxRwSet_toProtoMsg_names:
  "TxRwSet_toProtoMsg W tx = Ok m \<Longrightarrow> tx_msg_names m = tx_names tx"
  unfolding tx_names_def tx_msg_names_def
  by (rule append_loop_map [where f = "NsRwSet_toProtoMsg W"])
    (auto simp: TxRwSet_toProtoMsg_def outcome_simps NsRwSet_toProtoMsg_names)

section \<open>No nil pointer comes out of a decoder\<close>

definition coll_hashed_complete :: "CollHashedRwSet option \<Rightarrow> bool" where
  "coll_hashed_complete p = (case p of None \<Rightarrow> False | Some c \<Rightarrow> HashedRwSet c \<noteq> None)"

definition ns_complete :: "NsRwSet option \<Rightarrow> bool" where
  "ns_complete p = (case p of None \<Rightarrow> False | Some ns \<Rightarrow>
     KvRwSet ns \<noteq> None \<and> list_all coll_hashed_complete (CollHashedRwSets ns))"

definition coll_pvt_complete :: "CollPvtRwSet option \<Rightarrow> bool" where
  "coll_pvt_complete p = (case p of None \<Rightarrow> False | Some c \<Rightarrow> pvt_KvRwSet c \<noteq> None)"

definition ns_pvt_complete :: "NsPvtRwSet option \<Rightarrow> bool" where
  "ns_pvt_complete p = (case p of None \<Rightarrow> False | Some ns \<Rightarrow>
     list_all coll_pvt_complete (CollPvtRwSets ns))"

lemma collHashedRwSetFromProtoMsg_complete:
  "collHashedRwSetFromProtoMsg W p = Ok q \<Longrightarrow> coll_hashed_complete q"
  by (auto simp: collHashedRwSetFromProtoMsg_def coll_hashed_complete_def outcome_simps)

lemma nsRwSetFromProtoMsg_complete: "nsRwSetFromProtoMsg W p = Ok q \<Longrightarrow> ns_complete q"
  by (auto simp: nsRwSetFromProtoMsg_def ns_complete_def outcome_simps
    dest: append_loop_all [OF _ collHashedRwSetFromProtoMsg_complete])

lemma TxRwSetFromProtoMsg_complete:
  "TxRwSetFromProtoMsg W m = Ok tx \<Longrightarrow> list_all ns_complete (NsRwSets tx)"
  by (auto simp: TxRwSetFromProtoMsg_def outcome_simps
    dest: append_loop_all [OF _ nsRwSetFromProtoMsg_complete])

lemma collPvtRwSetFromProtoMsg_complete:
  "collPvtRwSetFromProtoMsg W p = Ok q \<Longrightarrow> coll_pvt_complete q"
  by (auto simp: collPvtRwSetFromProtoMsg_def coll_pvt_complete_def outcome_simps)

lemma nsPvtRwSetFromProtoMsg_complete: "nsPvtRwSetFromProtoMsg W p = Ok q \<Longrightarrow> ns_pvt_complete q"
  by (auto simp: nsPvtRwSetFromProtoMsg_def ns_pvt_complete_def outcome_simps
    dest: append_loop_all [OF _ collPvtRwSetFromProtoMsg_complete])

section \<open>Properties\<close>

text \<open>
  C14: Encoding a public transaction read-write set and decoding the bytes into any receiver
  succeeds and leaves exactly the encoded set in the receiver, whatever the receiver held before.
\<close>

theorem TxRwSet_bytes_roundtrip:
  assumes "tx_ok W tx" and "TxRwSet_ToProtoBytes W tx = Ok b"
  shows "TxRwSet_FromProtoBytes W tx0 b = (Ok (), tx)"
proof -
  obtain m where m: "TxRwSet_toProtoMsg W tx = Ok m" and b: "Marshal_TxReadWriteSet W m = Ok b"
    using assms(2) by (auto simp: TxRwSet_ToProtoBytes_def outcome_simps)
  have "Unmarshal_TxReadWriteSet W b = Ok m"
    using assms(1) m b by (auto simp: tx_ok_def)
  moreover have "TxRwSetFromProtoMsg W m = Ok tx"
    using assms(1) m by (rule tx.dec_enc)
  ultimately show ?thesis by (cases tx; cases tx0) (simp add: TxRwSet_FromProtoBytes_def)
qed

text \<open>
  A serialiser for the witnesses: it writes the number of the message, or one byte for the one
  transaction message of the example.
\<close>

definition example_tx_msg :: TxReadWriteSet where
  "example_tx_msg = \<lparr>txm_DataModel = TxReadWriteSet_KV, txm_NsRwset =
     [Some \<lparr>nsm_Namespace = ''ping'', nsm_Rwset = [7], nsm_CollectionHashedRwset =
       [Some \<lparr>chm_CollectionName = ''c'', chm_HashedRwset = [8], chm_PvtRwsetHash = [1, 2]\<rparr>]\<rparr>]\<rparr>"

definition example_pvt_msg :: TxPvtReadWriteSet where
  "example_pvt_msg = \<lparr>tpm_DataModel = TxReadWriteSet_KV, tpm_NsPvtRwset =
     [Some \<lparr>npm_Namespace = ''ping'', npm_CollectionPvtRwset =
       [Some \<lparr>cpm_CollectionName = ''c'', cpm_Rwset = [7]\<rparr>]\<rparr>]\<rparr>"

definition example_proto :: rwset_proto where
  "example_proto = \<lparr>
     Marshal_KVRWSet = (\<lambda>p. case p of None \<Rightarrow> Err (External 0) | Some (KVRWSet_message n) \<Rightarrow> Ok [of_nat n]),
     Unmarshal_KVRWSet = (\<lambda>b. case b of [x] \<Rightarrow> Ok (KVRWSet_message (unat x)) | _ \<Rightarrow> Err (External 1)),
     Marshal_HashedRWSet = (\<lambda>p. case p of None \<Rightarrow> Err (External 0) | Some (HashedRWSet_message n) \<Rightarrow> Ok [of_nat n]),
     Unmarshal_HashedRWSet = (\<lambda>b. case b of [x] \<Rightarrow> Ok (HashedRWSet_message (unat x)) | _ \<Rightarrow> Err (External 1)),
     Marshal_TxReadWriteSet = (\<lambda>m. Ok [9]),
     Unmarshal_TxReadWriteSet = (\<lambda>b. if b = [9] then Ok example_tx_msg else Err (External 1)),
     Marshal_TxPvtReadWriteSet = (\<lambda>m. Ok [9]),
     Unmarshal_TxPvtReadWriteSet = (\<lambda>b. if b = [9] then Ok example_pvt_msg else Err (External 1))\<rparr>"

definition example_tx :: TxRwSet where
  "example_tx = \<lparr>NsRwSets = [Some \<lparr>NameSpace = ''ping'', KvRwSet = Some (KVRWSet_message 7),
     CollHashedRwSets = [Some \<lparr>CollectionName = ''c'', HashedRwSet = Some (HashedRWSet_message 8),
       PvtRwSetHash = [1, 2]\<rparr>]\<rparr>]\<rparr>"

definition example_pvt :: TxPvtRwSet where
  "example_pvt = \<lparr>NsPvtRwSets = [Some \<lparr>pvt_NameSpace = ''ping'',
     CollPvtRwSets = [Some \<lparr>pvt_CollectionName = ''c'', pvt_KvRwSet = Some (KVRWSet_message 7)\<rparr>]\<rparr>]\<rparr>"

lemmas example_defs = example_tx_msg_def example_pvt_msg_def example_proto_def example_tx_def
  example_pvt_def

lemma TxRwSet_bytes_roundtrip_witness:
  "tx_ok example_proto example_tx \<and> TxRwSet_ToProtoBytes example_proto example_tx = Ok [9] \<and>
   TxRwSet_FromProtoBytes example_proto \<lparr>NsRwSets = []\<rparr> [9] = (Ok (), example_tx)"
proof -
  have ok: "tx_ok example_proto example_tx"
    by (simp add: tx_ok_def ok_defs public_defs codec_at_def example_defs)
  have enc: "TxRwSet_ToProtoBytes example_proto example_tx = Ok [9]"
    by (simp add: TxRwSet_ToProtoBytes_def public_defs example_defs)
  show ?thesis using ok enc TxRwSet_bytes_roundtrip [OF ok enc] by simp
qed

text \<open>
  C15: The same for private read-write sets.
\<close>

theorem TxPvtRwSet_bytes_roundtrip:
  assumes "tx_pvt_ok W tx" and "TxPvtRwSet_ToProtoBytes W tx = Ok b"
  shows "TxPvtRwSet_FromProtoBytes W tx0 b = (Ok (), tx)"
proof -
  obtain m where m: "TxPvtRwSet_toProtoMsg W tx = Ok m"
    and b: "Marshal_TxPvtReadWriteSet W m = Ok b"
    using assms(2) by (auto simp: TxPvtRwSet_ToProtoBytes_def outcome_simps)
  have "Unmarshal_TxPvtReadWriteSet W b = Ok m"
    using assms(1) m b by (auto simp: tx_pvt_ok_def)
  moreover have "TxPvtRwSetFromProtoMsg W m = Ok tx"
    using assms(1) m by (rule tx_pvt.dec_enc)
  ultimately show ?thesis by (cases tx; cases tx0) (simp add: TxPvtRwSet_FromProtoBytes_def)
qed

lemma TxPvtRwSet_bytes_roundtrip_witness:
  "tx_pvt_ok example_proto example_pvt \<and> TxPvtRwSet_ToProtoBytes example_proto example_pvt = Ok [9] \<and>
   TxPvtRwSet_FromProtoBytes example_proto \<lparr>NsPvtRwSets = []\<rparr> [9] = (Ok (), example_pvt)"
proof -
  have ok: "tx_pvt_ok example_proto example_pvt"
    by (simp add: tx_pvt_ok_def ok_defs private_defs codec_at_def example_defs)
  have enc: "TxPvtRwSet_ToProtoBytes example_proto example_pvt = Ok [9]"
    by (simp add: TxPvtRwSet_ToProtoBytes_def private_defs example_defs)
  show ?thesis using ok enc TxPvtRwSet_bytes_roundtrip [OF ok enc] by simp
qed

text \<open>
  C35: Decoding is all or nothing. When it succeeds, the receiver holds one set per namespace of
  the message, with the message's namespace and collection names in the message's order, and no nil
  pointer anywhere; when it fails or panics, the receiver is what it was.
\<close>

theorem TxRwSet_FromProtoBytes_atomic:
  assumes "TxRwSet_FromProtoBytes W tx0 b = (r, tx)"
  shows "if r = Ok () then list_all ns_complete (NsRwSets tx) \<and>
           (\<exists>m. Unmarshal_TxReadWriteSet W b = Ok m \<and> tx_names tx = tx_msg_names m)
         else tx = tx0"
proof (cases "bindR (Unmarshal_TxReadWriteSet W b) (TxRwSetFromProtoMsg W)")
  case (Ok tmp)
  then obtain m where m: "Unmarshal_TxReadWriteSet W b = Ok m" "TxRwSetFromProtoMsg W m = Ok tmp"
    by (auto simp: outcome_simps)
  have "r = Ok ()" and "NsRwSets tx = NsRwSets tmp"
    using assms Ok by (auto simp: TxRwSet_FromProtoBytes_def)
  then show ?thesis
    using m TxRwSetFromProtoMsg_names [OF m(2)] TxRwSetFromProtoMsg_complete [OF m(2)]
    by (simp add: tx_names_def)
qed (use assms in \<open>auto simp: TxRwSet_FromProtoBytes_def\<close>)

lemma TxRwSet_FromProtoBytes_atomic_witness:
  "TxRwSet_FromProtoBytes example_proto \<lparr>NsRwSets = []\<rparr> [9] = (Ok (), example_tx) \<and>
   TxRwSet_FromProtoBytes example_proto example_tx [3] = (Err (External 1), example_tx) \<and>
   list_all ns_complete (NsRwSets example_tx)"
proof -
  have d: "TxRwSet_FromProtoBytes example_proto \<lparr>NsRwSets = []\<rparr> [9] = (Ok (), example_tx)"
    by (simp add: TxRwSet_FromProtoBytes_def public_defs example_defs)
  have "TxRwSet_FromProtoBytes example_proto example_tx [3] = (Err (External 1), example_tx)"
    by (simp add: TxRwSet_FromProtoBytes_def example_defs)
  then show ?thesis using d TxRwSet_FromProtoBytes_atomic [OF d] by simp
qed

end
