(* ===== verification/Fabric_Types.thy ===== *)
theory Fabric_Types
  imports Prelude Rwset_Util
begin

text \<open>
  The values the repository receives from and hands to the Fabric SDK, by the fields and methods the
  source uses of them, and the record of observable effects. A Go interface value is modelled by the
  answers of the methods the source calls on it together with an identity; its dynamic type, where the
  source asks for it with a type assertion, is the constructor of a datatype. Nil is \<open>None\<close>.

  Every call that leaves the repository and changes something outside it is recorded in a trace (oldest
  first). What such a call answers is a function of the trace so far, so that the outside may behave
  differently at every call; the records \<open>txn_env\<close> and \<open>invoke_env\<close> hold these functions. No
  definition here models code outside the repository: everything is a carrier or a parameter.
\<close>

section \<open>Peers, orderers, proposals and responses\<close>

record peer =
  peer_id :: nat
  URL :: string
  MSPID :: string

text \<open>A \<open>fab.ProposalProcessor\<close> is either a \<open>fab.Peer\<close> or some other implementation.\<close>

datatype processor = PeerProcessor peer | OtherProcessor nat

record orderer =
  orderer_id :: nat
  orderer_URL :: string

record SignedProposal =
  ProposalBytes :: bytes
  sp_Signature :: bytes

record SignedEnvelope =
  se_Payload :: bytes
  se_Signature :: bytes

record pb_Response =
  rsp_Status :: "32 word"
  rsp_Payload :: bytes

record ProposalResponse =
  pr_Payload :: bytes
  pr_Response :: "pb_Response option"

record TransactionProposalResponse =
  tpr_Endorser :: string
  tpr_ChaincodeStatus :: "32 word"
  tpr_ProposalResponse :: "ProposalResponse option"

record TransactionResponse =
  tr_Orderer :: string

record ChaincodeCall =
  ID :: string
  Collections :: "string list"

text \<open>
  Messages a client assembles: \<open>pb.Proposal\<close>, the SDK's transaction request, and what comes out of it.
\<close>

record Proposal =
  prop_Header :: bytes
  prop_Payload :: bytes
  prop_Extension :: bytes

record TransactionProposal =
  tp_TxnID :: string
  tp_Proposal :: "Proposal option"

record TransactionRequest =
  treq_Proposal :: TransactionProposal
  treq_ProposalResponses :: "TransactionProposalResponse list"

datatype TransactionMessage = TransactionMessage nat

record Transaction =
  tx_Transaction :: TransactionMessage

record TransactionHeader =
  th_TransactionID :: string
  th_Creator :: bytes
  th_rest :: nat

text \<open>
  Answers of endorsers: one that carries a \<open>Response\<close> message at all; one whose message reports success,
  from 200 (inclusive) to 400 (exclusive); and answers that can be assembled into a transaction, because
  all of them are successful and all carry the same payload for the ledger.
\<close>

definition wellformed_response :: "TransactionProposalResponse \<Rightarrow> bool" where
  "wellformed_response r = (\<exists>pr rsp. tpr_ProposalResponse r = Some pr \<and> pr_Response pr = Some rsp)"

definition successful_response :: "TransactionProposalResponse \<Rightarrow> bool" where
  "successful_response r = (case Option.bind (tpr_ProposalResponse r) pr_Response of
     None \<Rightarrow> False | Some rsp \<Rightarrow> 200 \<le> rsp_Status rsp \<and> rsp_Status rsp < 400)"

definition ledger_payload :: "TransactionProposalResponse \<Rightarrow> bytes option" where
  "ledger_payload r = map_option pr_Payload (tpr_ProposalResponse r)"

definition endorsements_agree :: "TransactionProposalResponse list \<Rightarrow> bool" where
  "endorsements_agree rs \<longleftrightarrow>
     (\<forall>r \<in> set rs. successful_response r \<and> (\<forall>r' \<in> set rs. ledger_payload r = ledger_payload r'))"

lemma endorsements_agree_mset: "mset rs = mset rs' \<Longrightarrow> endorsements_agree rs = endorsements_agree rs'"
  unfolding endorsements_agree_def by (metis mset_eq_setD)

section \<open>Configuration and contexts\<close>

text \<open>
  \<open>oc_rest\<close> stands for the gRPC options and certificates of an orderer configuration, \<open>0\<close> being their
  zero value.
\<close>

record OrdererConfig =
  oc_URL :: string
  oc_rest :: nat

record PeerConfig =
  pc_URL :: string
  pc_rest :: nat

record ChannelCfg =
  cfg_ID :: string
  cfg_Orderers :: "string list"

datatype TimeoutType = Execute | Query | PeerResponse | OrdererResponse | DiscoveryGreylistExpiry
  | OtherTimeout nat

type_synonym duration = "64 word"

text \<open>
  A client context: its endpoint configuration (\<open>ChannelConfig\<close> gives the orderer names of a channel, or
  nil; \<open>OrdererConfig\<close> gives the triple of configuration, found and ignore), its infrastructure
  provider, and what header creation asks of it (the serialized identity and the hash function).
\<close>

record headerCtx =
  ctx_Serialize :: "error + bytes"
  ctx_GetHash :: "bytes \<Rightarrow> bytes"

record clientCtx = headerCtx +
  ctx_Timeout :: "TimeoutType \<Rightarrow> duration"
  ctx_ChannelConfig :: "string \<Rightarrow> string list option"
  ctx_OrdererConfig :: "string \<Rightarrow> OrdererConfig option \<times> bool \<times> bool"
  ctx_OrderersConfig :: "OrdererConfig list"
  ctx_NetworkPeerConfig :: "string \<Rightarrow> error + PeerConfig"
  ctx_CreateOrdererFromConfig :: "OrdererConfig option \<Rightarrow> error + orderer"
  ctx_CreatePeerFromConfig :: "PeerConfig \<Rightarrow> error + peer option"

text \<open>
  A request context: the client context stored in it (which \<open>RequestClientContext\<close> finds, or not), how
  long it lives, its parent, and the timeout overrides attached to it.
\<close>

datatype lifetime = ForDuration duration | ForTimeoutType TimeoutType

datatype reqctx = RequestContextValue
  (ctx_client: "clientCtx option")
  (ctx_lifetime: lifetime)
  (ctx_parent: "reqctx option")
  (ctx_overrides: "(TimeoutType \<rightharpoonup> duration) option")

text \<open>\<open>contextImpl.RequestClientContext(reqCtx)\<close>\<close>

definition RequestClientContext :: "reqctx \<Rightarrow> clientCtx option" where
  "RequestClientContext ctx = ctx_client ctx"

section \<open>Requests, responses and options of the channel client\<close>

record Request =
  ChaincodeID :: string
  Fcn :: string
  Args :: "bytes list"
  TransientMap :: "(string \<times> bytes) list"
  InvocationChain :: "ChaincodeCall option list"

record Response =
  Responses :: "TransactionProposalResponse list"
  resp_Payload :: bytes
  resp_ChaincodeStatus :: "32 word"
  resp_TxValidationCode :: TxValidationCode

text \<open>The zero value \<open>Response{}\<close>.\<close>

definition emptyResponse :: Response where
  "emptyResponse = \<lparr>Responses = [], resp_Payload = [], resp_ChaincodeStatus = 0,
     resp_TxValidationCode = TxValidationCode_VALID\<rparr>"

datatype retryOpts = RetryZero | RetryOpts nat

section \<open>The trace of effects\<close>

datatype call =
    NewRequest lifetime
  | CancelRequest lifetime
  | ProcessTransactionProposal processor SignedProposal
  | SendBroadcast orderer SignedEnvelope
  | GetEndorsersForChaincode "ChaincodeCall list"
  | GreylistAdd error
  | CallBeforeRetry nat error
  | RegisterTxStatusEvent string
  | UnregisterTxStatusEvent nat
  | SignWithKey bytes
  | NewTransactionHeader string
  | SdkSendProposal TransactionProposal "processor option list"
  | SdkSendTransaction Transaction

type_synonym trace = "call list"

text \<open>
  What a piece of code may do, as a list of the only calls it makes. Sending a signed proposal:
  this proposal, to these targets, and request contexts. Broadcasting an envelope: this envelope, and
  request contexts. Handling a request: this proposal, request contexts, questions to the selection
  service, and what happens before a retry. Everything not listed is excluded, in particular an
  envelope, a transaction or a proposal sent through the SDK, a signature, a header or an event
  registration.
\<close>

fun send_call :: "SignedProposal option \<Rightarrow> processor option list \<Rightarrow> call \<Rightarrow> bool" where
  "send_call p ts (ProcessTransactionProposal q s) \<longleftrightarrow> p = Some s \<and> Some q \<in> set ts"
| "send_call p ts (NewRequest life) \<longleftrightarrow> True"
| "send_call p ts (CancelRequest life) \<longleftrightarrow> True"
| "send_call p ts _ \<longleftrightarrow> False"

fun broadcast_call :: "SignedEnvelope \<Rightarrow> call \<Rightarrow> bool" where
  "broadcast_call env (SendBroadcast ord e) \<longleftrightarrow> e = env"
| "broadcast_call env (NewRequest life) \<longleftrightarrow> True"
| "broadcast_call env (CancelRequest life) \<longleftrightarrow> True"
| "broadcast_call env _ \<longleftrightarrow> False"

fun handler_call :: "SignedProposal option \<Rightarrow> call \<Rightarrow> bool" where
  "handler_call p (ProcessTransactionProposal q s) \<longleftrightarrow> p = Some s"
| "handler_call p (NewRequest life) \<longleftrightarrow> True"
| "handler_call p (CancelRequest life) \<longleftrightarrow> True"
| "handler_call p (GetEndorsersForChaincode chain) \<longleftrightarrow> True"
| "handler_call p (GreylistAdd e) \<longleftrightarrow> True"
| "handler_call p (CallBeforeRetry n e) \<longleftrightarrow> True"
| "handler_call p _ \<longleftrightarrow> False"

lemma send_call_handler: "send_call p ts c \<Longrightarrow> handler_call p c"
  by (cases c) auto

text \<open>Every request context that was created has been cancelled.\<close>

definition balanced :: "trace \<Rightarrow> bool" where
  "balanced cs \<longleftrightarrow> (\<forall>life. count_list cs (NewRequest life) = count_list cs (CancelRequest life))"

lemma balanced_append: "balanced xs \<Longrightarrow> balanced ys \<Longrightarrow> balanced (xs @ ys)"
  by (simp add: balanced_def)

lemma balanced_Nil [simp]: "balanced []"
  by (simp add: balanced_def)

lemma balanced_bracket: "balanced xs \<Longrightarrow> balanced (NewRequest life # xs @ [CancelRequest life])"
  by (simp add: balanced_def)

lemma balanced_other:
  "(\<And>c. c \<in> set cs \<Longrightarrow> (\<forall>l. c \<noteq> NewRequest l \<and> c \<noteq> CancelRequest l)) \<Longrightarrow> balanced cs"
  by (induction cs) (auto simp: balanced_def)

text \<open>
  Options of a selection query (\<open>selectopts\<close>). A peer filter may look at mutable state (the greylist),
  hence at the trace.
\<close>

datatype selectionOpt =
    WithPeerFilter "trace \<Rightarrow> peer \<Rightarrow> bool"
  | WithPeerSorter "peer list \<Rightarrow> peer list"
  | WithRetryOpts retryOpts
  | WithPrioritySelector "peer \<Rightarrow> peer \<Rightarrow> int"

record Opts =
  Targets :: "peer list"
  TargetFilter :: "(peer \<Rightarrow> bool) option"
  TargetSorter :: "(peer list \<Rightarrow> peer list) option"
  Retry :: retryOpts
  BeforeRetry :: "nat option"
  Timeouts :: "(TimeoutType \<rightharpoonup> duration) option"
  ParentContext :: "reqctx option"
  CCFilter :: "(string \<Rightarrow> bool) option"

definition emptyOpts :: Opts where
  "emptyOpts = \<lparr>Targets = [], TargetFilter = None, TargetSorter = None, Retry = RetryZero,
     BeforeRetry = None, Timeouts = None, ParentContext = None, CCFilter = None\<rparr>"

record RequestContext =
  rc_Request :: Request
  rc_Opts :: Opts
  rc_Response :: Response
  rc_Error :: "error option"
  rc_RetryHandler :: retryOpts
  rc_Ctx :: reqctx
  SelectionFilter :: "(trace \<Rightarrow> peer \<Rightarrow> bool) option"
  PeerSorter :: "(peer list \<Rightarrow> peer list) option"

section \<open>Parameters: code outside the repository\<close>

text \<open>
  \<open>env_Process t c i p sp\<close>: what processor \<open>p\<close>, called under context \<open>c\<close> in the \<open>i\<close>-th goroutine of a
  batch started at trace \<open>t\<close>, answers; \<open>env_schedule t n\<close>: the order in which the Go scheduler lets the \<open>n\<close> goroutines of
  that batch append their result; \<open>env_Perm t n\<close>: \<open>rand.Perm(n)\<close>; \<open>env_ToError\<close>:
  \<open>multi.Errors.ToError\<close>.
\<close>

record txn_env =
  env_Process :: "trace \<Rightarrow> reqctx \<Rightarrow> nat \<Rightarrow> processor \<Rightarrow> SignedProposal \<Rightarrow> error + TransactionProposalResponse"
  env_schedule :: "trace \<Rightarrow> nat \<Rightarrow> nat list"
  env_ToError :: "error list \<Rightarrow> error option"
  env_SendBroadcast :: "trace \<Rightarrow> reqctx \<Rightarrow> orderer \<Rightarrow> SignedEnvelope \<Rightarrow> error option"
  env_Perm :: "trace \<Rightarrow> nat \<Rightarrow> nat list"

text \<open>Documented behaviour of the parameters, used as named hypotheses where a property needs it.\<close>

definition is_perm :: "nat list \<Rightarrow> nat \<Rightarrow> bool" where
  "is_perm ps n \<longleftrightarrow> distinct ps \<and> set ps = {0..<n}"

definition schedule_complete :: "'z txn_env_scheme \<Rightarrow> bool" where
  "schedule_complete E \<longleftrightarrow> (\<forall>t n. is_perm (env_schedule E t n) n)"

definition ToError_documented :: "'z txn_env_scheme \<Rightarrow> bool" where
  "ToError_documented E \<longleftrightarrow> (\<forall>es. env_ToError E es = None \<longleftrightarrow> es = [])"

definition Perm_documented :: "'z txn_env_scheme \<Rightarrow> bool" where
  "Perm_documented E \<longleftrightarrow> (\<forall>t n. is_perm (env_Perm E t n) n)"

lemma is_perm_upt [simp, intro]: "is_perm [0..<n] n"
  by (simp add: is_perm_def)

lemma is_perm_length: "is_perm ps n \<Longrightarrow> length ps = n"
  by (metis card_atLeastLessThan diff_zero distinct_card is_perm_def)

lemma is_perm_mset: "is_perm ps n \<longleftrightarrow> mset ps = mset [0..<n]"
proof
  assume "is_perm ps n"
  then show "mset ps = mset [0..<n]"
    by (metis distinct_upt is_perm_def set_eq_iff_mset_eq_distinct set_upt)
next
  assume *: "mset ps = mset [0..<n]"
  then have "set ps = set [0..<n]" by (rule mset_eq_setD)
  moreover have "distinct ps" using * by (metis distinct_upt mset_eq_imp_distinct_iff)
  ultimately show "is_perm ps n" by (simp add: is_perm_def)
qed

text \<open>
  What a transactor uses beside it: \<open>endpoint.ToAddress\<close>, \<open>txn.NewHeader\<close> (which draws a fresh nonce
  at every call, hence its dependence on the trace), \<open>txn.New\<close>, \<open>txn.SendProposal\<close> and \<open>txn.Send\<close> of the
  SDK; \<open>env_ToLowerUnicode\<close> is what \<open>strings.ToLower\<close> does, by the Unicode tables, with a string that is
  not ASCII. And the invocation handlers: the serialiser, the list of \<open>fab.ProposalProcessor\<close>s made of peers
  (\<open>peer.PeersToTxnProcessors\<close>), the chained chaincode filter, the selection service.
\<close>

record transactor_env = txn_env +
  env_ToAddress :: "string \<Rightarrow> string"
  env_ToLowerUnicode :: "string \<Rightarrow> string"
  env_NewHeader :: "trace \<Rightarrow> headerCtx \<Rightarrow> string \<Rightarrow> nat list \<Rightarrow> error + TransactionHeader"
  env_NewTransaction :: "TransactionRequest \<Rightarrow> error + Transaction"
  env_SendProposal :: "trace \<Rightarrow> reqctx \<Rightarrow> TransactionProposal \<Rightarrow> processor option list \<Rightarrow>
    TransactionProposalResponse list \<times> error option"
  env_SendTransaction :: "trace \<Rightarrow> reqctx \<Rightarrow> Transaction \<Rightarrow> orderer list \<Rightarrow> error + TransactionResponse"

text \<open>
  Documented behaviour of \<open>txn.New\<close> for a proposal that it can read: given answers that carry their
  \<open>Response\<close> messages, it makes a transaction exactly when these report success and agree.
\<close>

definition NewTransaction_documented :: "'z transactor_env_scheme \<Rightarrow> Proposal \<Rightarrow> bool" where
  "NewTransaction_documented E proposal \<longleftrightarrow>
     (\<forall>txid rs. rs \<noteq> [] \<longrightarrow> (\<forall>r \<in> set rs. wellformed_response r) \<longrightarrow>
        ((\<exists>tx. env_NewTransaction E \<lparr>treq_Proposal = \<lparr>tp_TxnID = txid, tp_Proposal = Some proposal\<rparr>,
                                    treq_ProposalResponses = rs\<rparr> = Inr tx)
         \<longleftrightarrow> endorsements_agree rs))"

record invoke_env = transactor_env +
  env_proto :: chain_proto
  env_PeersToTxnProcessors :: "peer list \<Rightarrow> processor option list"
  env_NewChainedCCFilter :: "(string \<Rightarrow> bool) list \<Rightarrow> string \<Rightarrow> bool"
  env_GetEndorsersForChaincode ::
    "trace \<Rightarrow> ChaincodeCall list \<Rightarrow> selectionOpt list \<Rightarrow> peer list \<times> error option"

definition PeersToTxnProcessors_documented :: "'z invoke_env_scheme \<Rightarrow> bool" where
  "PeersToTxnProcessors_documented E \<longleftrightarrow>
     (\<forall>ps. env_PeersToTxnProcessors E ps = map (\<lambda>p. Some (PeerProcessor p)) ps)"

definition ChainedCCFilter_documented :: "'z invoke_env_scheme \<Rightarrow> bool" where
  "ChainedCCFilter_documented E \<longleftrightarrow>
     (\<forall>fs cc. env_NewChainedCCFilter E fs cc \<longleftrightarrow> (\<forall>f \<in> set fs. f cc))"

end
