(* ===== verification/Invocation_Chain.thy ===== *)
theory Invocation_Chain
  imports Prelude Rwset_Util Fabric_Types
begin

text \<open>
  Chaincode invocation chains: \<open>newInvocationChain\<close> of
  \<open>pkg/client/channel/invoke/txnhandler.go\<close> and the chain and peer functions of
  \<open>pkg/client/channel/invoke/selectendorsehandler.go\<close>. They decide, from the read-write sets of the
  first endorsement, whether more endorsers are needed and which. Slices are lists; the model is by
  value, so the spare capacity that Go's \<open>append\<close> in \<open>merge\<close> may share between two calls with the
  same backing array is not visible in it.
\<close>

section \<open>Definitions\<close>

fun newInvocationChain_loop :: "ChaincodeCall list \<Rightarrow> ChaincodeCall option list \<Rightarrow> ChaincodeCall list result"
where
  "newInvocationChain_loop chain [] = Ok chain"
| "newInvocationChain_loop chain (None # ccs) = Panic"
| "newInvocationChain_loop chain (Some ccCall # ccs) =
     (if ID ccCall = ID (chain ! 0)
      then newInvocationChain_loop (chain[0 := (chain ! 0)\<lparr>Collections := Collections ccCall\<rparr>]) ccs
      else newInvocationChain_loop (chain @ [ccCall]) ccs)"

definition newInvocationChain :: "Request \<Rightarrow> ChaincodeCall list result" where
  "newInvocationChain req =
     newInvocationChain_loop [\<lparr>ID = ChaincodeID req, Collections = []\<rparr>] (InvocationChain req)"

fun contains :: "string list \<Rightarrow> string \<Rightarrow> bool" where
  "contains [] value = False"
| "contains (val # values) value = (if val = value then True else contains values value)"

fun getCCCall :: "ChaincodeCall list \<Rightarrow> string \<Rightarrow> ChaincodeCall option" where
  "getCCCall [] ccID = None"
| "getCCCall (ccCall # ccs) ccID = (if ID ccCall = ccID then Some ccCall else getCCCall ccs ccID)"

fun merge_loop :: "ChaincodeCall \<Rightarrow> bool \<Rightarrow> string list \<Rightarrow> ChaincodeCall \<times> bool" where
  "merge_loop c merged [] = (c, merged)"
| "merge_loop c merged (coll # colls) =
     (if \<not> contains (Collections c) coll
      then merge_loop (c\<lparr>Collections := Collections c @ [coll]\<rparr>) True colls
      else merge_loop c merged colls)"

definition merge :: "ChaincodeCall \<Rightarrow> ChaincodeCall \<Rightarrow> ChaincodeCall \<times> bool" where
  "merge c1 c2 = merge_loop \<lparr>ID = ID c1, Collections = Collections c1\<rparr> False (Collections c2)"

definition mergeCCCall :: "ChaincodeCall list \<Rightarrow> ChaincodeCall \<Rightarrow> ChaincodeCall \<times> bool" where
  "mergeCCCall invocChain respCCCall =
     (case getCCCall invocChain (ID respCCCall) of
        Some ccCall \<Rightarrow> merge ccCall respCCCall
      | None \<Rightarrow> (respCCCall, True))"

fun mergeInvocationChains_loop ::
  "ChaincodeCall list \<Rightarrow> (string \<Rightarrow> bool) \<Rightarrow> ChaincodeCall list \<Rightarrow> bool \<Rightarrow> ChaincodeCall list \<Rightarrow>
   ChaincodeCall list \<times> bool"
where
  "mergeInvocationChains_loop invocChain filt mergedChain changed [] = (mergedChain, changed)"
| "mergeInvocationChains_loop invocChain filt mergedChain changed (resp # resps) =
     (if \<not> filt (ID resp)
      then mergeInvocationChains_loop invocChain filt mergedChain changed resps
      else (case mergeCCCall invocChain resp of (c, merged) \<Rightarrow>
        mergeInvocationChains_loop invocChain filt (mergedChain @ [c])
          (if merged then True else changed) resps))"

definition mergeInvocationChains ::
  "ChaincodeCall list \<Rightarrow> ChaincodeCall list \<Rightarrow> (string \<Rightarrow> bool) \<Rightarrow> ChaincodeCall list \<times> bool"
where
  "mergeInvocationChains invocChain respChain filt =
     mergeInvocationChains_loop invocChain filt [] False respChain"

definition lsccFilter :: "string \<Rightarrow> bool" where
  "lsccFilter ccID \<longleftrightarrow> ccID \<noteq> ''lscc'' \<and> ccID \<noteq> ''_lifecycle''"

definition getCCFilter :: "'z invoke_env_scheme \<Rightarrow> Opts \<Rightarrow> string \<Rightarrow> bool" where
  "getCCFilter E opts =
     (case CCFilter opts of
        Some f \<Rightarrow> env_NewChainedCCFilter E [lsccFilter, f]
      | None \<Rightarrow> lsccFilter)"

fun containsMSP :: "peer list \<Rightarrow> string \<Rightarrow> bool" where
  "containsMSP [] mspID = False"
| "containsMSP (p # ps) mspID = (if MSPID p = mspID then True else containsMSP ps mspID)"

fun containsPeer :: "peer list \<Rightarrow> peer \<Rightarrow> bool" where
  "containsPeer [] q = False"
| "containsPeer (p # ps) q = (if URL p = URL q then True else containsPeer ps q)"

definition prioritizePeers :: "peer list \<Rightarrow> peer \<Rightarrow> peer \<Rightarrow> int" where
  "prioritizePeers peers peer1 peer2 =
     (let hasPeer1 = containsPeer peers peer1; hasPeer2 = containsPeer peers peer2 in
      if hasPeer1 \<and> hasPeer2 then 0
      else if hasPeer1 then 1
      else if hasPeer2 then -1
      else 0)"

definition getRWSetsFromProposalResponse ::
  "'z chain_proto_scheme \<Rightarrow> ProposalResponse option \<Rightarrow> NsRwSet option list result"
where
  "getRWSetsFromProposalResponse W response =
     (case response of
        None \<Rightarrow> Ok []
      | Some r \<Rightarrow>
          bindR (Unmarshal_ProposalResponsePayload W (pr_Payload r)) (\<lambda>prp.
          bindR (Unmarshal_ChaincodeAction W (prp_Extension prp)) (\<lambda>action.
          if ca_Results action = [] then Ok []
          else (case TxRwSet_FromProtoBytes W \<lparr>NsRwSets = []\<rparr> (ca_Results action) of
                  (Ok _, txRWSet) \<Rightarrow> Ok (NsRwSets txRWSet)
                | (Err e, _) \<Rightarrow> Err e
                | (Panic, _) \<Rightarrow> Panic))))"

definition callFromRWSet :: "NsRwSet option \<Rightarrow> ChaincodeCall result" where
  "callFromRWSet p = bindR (deref p) (\<lambda>rwSet.
     bindR (append_loop (\<lambda>q. bindR (deref q) (\<lambda>coll. Ok (CollectionName coll))) [] (CollHashedRwSets rwSet))
       (\<lambda>colls. Ok \<lparr>ID = NameSpace rwSet, Collections = colls\<rparr>))"

definition getInvocationChainFromResponse ::
  "'z chain_proto_scheme \<Rightarrow> TransactionProposalResponse \<Rightarrow> ChaincodeCall list result"
where
  "getInvocationChainFromResponse W response =
     bindR (getRWSetsFromProposalResponse W (tpr_ProposalResponse response))
       (append_loop callFromRWSet [])"

section \<open>Searches and lookups\<close>

interpretation strings: key_search contains "\<lambda>x. x" "\<lambda>x. x"
proof unfold_locales
  show "contains xs q \<longleftrightarrow> q \<in> (\<lambda>x. x) ` set xs" for xs q by (induction xs) auto
qed

interpretation msps: key_search containsMSP MSPID "\<lambda>x. x"
proof unfold_locales
  show "containsMSP ps q \<longleftrightarrow> q \<in> MSPID ` set ps" for ps q by (induction ps) auto
qed

interpretation urls: key_search containsPeer URL URL
proof unfold_locales
  show "containsPeer ps q \<longleftrightarrow> URL q \<in> URL ` set ps" for ps q by (induction ps) auto
qed

interpretation calls: key_lookup getCCCall ID
proof unfold_locales
  show "getCCCall xs k = find (\<lambda>x. ID x = k) xs" for xs k by (induction xs) auto
qed

lemma contains_iff [simp]: "contains xs x \<longleftrightarrow> x \<in> set xs"
  by (simp add: strings.search_iff)

section \<open>Lemmas\<close>

lemma newInvocationChain_loop_eq:
  "newInvocationChain_loop (h # t) ccs =
     (if None \<in> set ccs then Panic
      else Ok (h\<lparr>Collections := last (Collections h # map Collections (filter (\<lambda>c. ID c = ID h) (map the ccs)))\<rparr>
               # t @ filter (\<lambda>c. ID c \<noteq> ID h) (map the ccs)))"
  by (induction "h # t" ccs arbitrary: h t rule: newInvocationChain_loop.induct) auto

lemma merge_loop_eq:
  "merge_loop c merged colls =
     (c\<lparr>Collections := Collections c @ uniq_by (\<lambda>x. x) (filter (\<lambda>x. x \<notin> set (Collections c)) colls)\<rparr>,
      merged \<or> \<not> set colls \<subseteq> set (Collections c))"
proof (induction c merged colls rule: merge_loop.induct)
  case (2 c merged coll colls)
  show ?case
  proof (cases "coll \<in> set (Collections c)")
    case True
    then show ?thesis using 2 by simp
  next
    case False
    have "filter (\<lambda>y. y \<noteq> coll) (uniq_by (\<lambda>x. x) (filter (\<lambda>x. x \<notin> set (Collections c)) colls)) =
        uniq_by (\<lambda>x. x) (filter (\<lambda>x. x \<noteq> coll \<and> x \<notin> set (Collections c)) colls)"
      by (subst filter_uniq_by [where f = "\<lambda>x. x"]) (simp add: conj_commute)
    with False 2 show ?thesis by simp
  qed
qed simp

lemma merge_eq:
  "merge c1 c2 =
     (\<lparr>ID = ID c1, Collections =
        Collections c1 @ uniq_by (\<lambda>x. x) (filter (\<lambda>x. x \<notin> set (Collections c1)) (Collections c2))\<rparr>,
      \<not> set (Collections c2) \<subseteq> set (Collections c1))"
  by (simp add: merge_def merge_loop_eq)

lemma merge_absorb:
  "set (Collections c2) \<subseteq> set (Collections c1) \<Longrightarrow> merge c1 c2 = (c1, False)"
  by (auto simp: merge_eq filter_empty_conv subset_iff)

lemma mergeCCCall_ID: "ID (fst (mergeCCCall chain r)) = ID r"
  by (auto simp: mergeCCCall_def merge_eq dest: calls.look_Some split: option.splits)

lemma mergeCCCall_Collections:
  "set (Collections (fst (mergeCCCall chain r))) = set (Collections r) \<union>
     (case getCCCall chain (ID r) of None \<Rightarrow> {} | Some d \<Rightarrow> set (Collections d))"
  by (auto simp: mergeCCCall_def merge_eq split: option.splits)

lemma mergeCCCall_changed:
  "snd (mergeCCCall chain r) \<longleftrightarrow>
     (case getCCCall chain (ID r) of None \<Rightarrow> True | Some d \<Rightarrow> \<not> set (Collections r) \<subseteq> set (Collections d))"
  by (auto simp: mergeCCCall_def merge_eq split: option.splits)

lemma mergeInvocationChains_loop_eq:
  "mergeInvocationChains_loop chain filt acc changed resps =
     (acc @ map (\<lambda>r. fst (mergeCCCall chain r)) (filter (\<lambda>r. filt (ID r)) resps),
      changed \<or> (\<exists>r \<in> set resps. filt (ID r) \<and> snd (mergeCCCall chain r)))"
  by (induction chain filt acc changed resps rule: mergeInvocationChains_loop.induct)
    (auto split: prod.splits)

lemma mergeInvocationChains_eq:
  "mergeInvocationChains chain resps filt =
     (map (\<lambda>r. fst (mergeCCCall chain r)) (filter (\<lambda>r. filt (ID r)) resps),
      \<exists>r \<in> set resps. filt (ID r) \<and> snd (mergeCCCall chain r))"
  by (simp add: mergeInvocationChains_def mergeInvocationChains_loop_eq)

lemma callFromRWSet_names:
  assumes "callFromRWSet p = Ok c"
  shows "Some (ID c, Collections c) = map_option ns_names p"
proof -
  obtain ns colls where ns: "p = Some ns" and c: "c = \<lparr>ID = NameSpace ns, Collections = colls\<rparr>"
    and colls: "append_loop (\<lambda>q. bindR (deref q) (\<lambda>coll. Ok (CollectionName coll))) []
      (CollHashedRwSets ns) = Ok colls"
    using assms by (auto simp: callFromRWSet_def outcome_simps)
  have "map (\<lambda>x. x) colls = map (\<lambda>p. case p of None \<Rightarrow> [] | Some c \<Rightarrow> CollectionName c) (CollHashedRwSets ns)"
    by (rule append_loop_map [OF colls]) (auto simp: outcome_simps)
  with ns c show ?thesis by (simp add: ns_names_def)
qed

lemma callFromRWSet_complete: "ns_complete p \<Longrightarrow> \<exists>c. callFromRWSet p = Ok c"
proof -
  assume "ns_complete p"
  then obtain ns where ns: "p = Some ns" and all: "list_all coll_hashed_complete (CollHashedRwSets ns)"
    by (auto simp: ns_complete_def split: option.splits)
  have "\<exists>colls. append_loop (\<lambda>q. bindR (deref q) (\<lambda>coll. Ok (CollectionName coll))) []
      (CollHashedRwSets ns) = Ok colls"
    by (rule append_loop_total)
      (use all in \<open>auto simp: list_all_iff coll_hashed_complete_def split: option.splits\<close>)
  then show ?thesis using ns by (auto simp: callFromRWSet_def)
qed

section \<open>Properties\<close>

text \<open>
  C34: The chain a request stands for starts with the requested chaincode, which occurs nowhere
  else in it and carries the collections the request listed last for it; the other entries follow
  unchanged and in order. A nil entry panics.
\<close>

theorem newInvocationChain_result:
  "newInvocationChain req =
     (if None \<in> set (InvocationChain req) then Panic
      else Ok (\<lparr>ID = ChaincodeID req,
                Collections = last ([] # map Collections
                  (filter (\<lambda>c. ID c = ChaincodeID req) (map the (InvocationChain req))))\<rparr>
               # filter (\<lambda>c. ID c \<noteq> ChaincodeID req) (map the (InvocationChain req))))"
  by (simp add: newInvocationChain_def newInvocationChain_loop_eq)

definition covered :: "ChaincodeCall list \<Rightarrow> ChaincodeCall \<Rightarrow> bool" where
  "covered chain r = (case find (\<lambda>d. ID d = ID r) chain of
     None \<Rightarrow> False | Some d \<Rightarrow> set (Collections r) \<subseteq> set (Collections d))"

definition known_collections :: "ChaincodeCall list \<Rightarrow> string \<Rightarrow> string set" where
  "known_collections chain i = (case find (\<lambda>d. ID d = i) chain of
     None \<Rightarrow> {} | Some d \<Rightarrow> set (Collections d))"

text \<open>
  C21: Merging the chain of a response into the current chain keeps exactly the accepted calls of
  the response, in order; each gets the union of its collections with those the current chain already
  had for that chaincode; and a change is reported exactly when some accepted call is not covered by
  the current chain (unknown chaincode, or a collection the chain did not have).
\<close>

theorem mergeInvocationChains_result:
  "let (merged, changed) = mergeInvocationChains chain resps filt;
       accepted = filter (\<lambda>r. filt (ID r)) resps
   in map ID merged = map ID accepted
      \<and> map (\<lambda>c. set (Collections c)) merged =
          map (\<lambda>r. set (Collections r) \<union> known_collections chain (ID r)) accepted
      \<and> (changed \<longleftrightarrow> (\<exists>r \<in> set accepted. \<not> covered chain r))"
proof -
  have "map (\<lambda>r. set (Collections (fst (mergeCCCall chain r)))) (filter (\<lambda>r. filt (ID r)) resps) =
      map (\<lambda>r. set (Collections r) \<union> known_collections chain (ID r)) (filter (\<lambda>r. filt (ID r)) resps)"
    by (simp add: mergeCCCall_Collections known_collections_def calls.look_first)
  moreover have "snd (mergeCCCall chain r) \<longleftrightarrow> \<not> covered chain r" for r
    by (auto simp: mergeCCCall_changed covered_def calls.look_first split: option.splits)
  ultimately show ?thesis
    by (auto simp: mergeInvocationChains_eq mergeCCCall_ID comp_def)
qed

text \<open>
  What a second round of merging finds for an accepted call: the first accepted call of the same
  chaincode, as the first round merged it.
\<close>

lemma getCCCall_merged:
  "getCCCall (map (\<lambda>r. fst (mergeCCCall chain r)) rs) i =
     map_option (\<lambda>r. fst (mergeCCCall chain r)) (find (\<lambda>s. ID s = i) rs)"
  by (simp add: calls.look_first find_map mergeCCCall_ID)

lemma merge_again_changed:
  assumes "r \<in> set rs"
  shows "snd (mergeCCCall (map (\<lambda>r. fst (mergeCCCall chain r)) rs) r) \<longleftrightarrow>
    (\<exists>s. find (\<lambda>s. ID s = ID r) rs = Some s \<and>
       \<not> set (Collections r) \<subseteq> set (Collections s) \<union> known_collections chain (ID r))"
proof -
  obtain s where s: "find (\<lambda>s. ID s = ID r) rs = Some s"
    using assms by (cases "find (\<lambda>s. ID s = ID r) rs") (auto simp: find_None_iff)
  then have "ID s = ID r" by (auto simp: find_Some_iff)
  with s show ?thesis
    by (simp add: mergeCCCall_changed getCCCall_merged mergeCCCall_Collections known_collections_def
      calls.look_first [of chain])
qed

text \<open>
  C22: Merging the same response again into the chain it produced. A change is reported a second time
  exactly when the response names a chaincode more than once and a later entry has a collection that
  neither the first entry nor the old chain has for it. In particular, when the accepted calls name each
  chaincode once, the second round reports no change and leaves the chain as it is.
\<close>

theorem mergeInvocationChains_stable:
  "let accepted = filter (\<lambda>r. filt (ID r)) resps;
       once = fst (mergeInvocationChains chain resps filt)
   in (snd (mergeInvocationChains once resps filt) \<longleftrightarrow>
        (\<exists>r \<in> set accepted. \<exists>s. find (\<lambda>s. ID s = ID r) accepted = Some s \<and>
           \<not> set (Collections r) \<subseteq> set (Collections s) \<union> known_collections chain (ID r)))
    \<and> (distinct (map ID accepted) \<longrightarrow> mergeInvocationChains once resps filt = (once, False))"
proof -
  let ?acc = "filter (\<lambda>r. filt (ID r)) resps"
  let ?m = "\<lambda>r. fst (mergeCCCall chain r)"
  have again: "mergeCCCall (map ?m ?acc) r = (?m r, False)" if "distinct (map ID ?acc)" "r \<in> set ?acc" for r
  proof -
    have "distinct (map ID (map ?m ?acc))" using that(1) by (simp add: comp_def mergeCCCall_ID)
    then have "getCCCall (map ?m ?acc) (ID (?m r)) = Some (?m r)"
      by (rule calls.look_distinct) (use that(2) in auto)
    then show ?thesis
      by (simp add: mergeCCCall_def [of "map ?m ?acc"] mergeCCCall_ID mergeCCCall_Collections merge_absorb)
  qed
  then have "distinct (map ID ?acc) \<Longrightarrow>
      mergeInvocationChains (map ?m ?acc) resps filt = (map ?m ?acc, False)"
    by (auto simp: mergeInvocationChains_eq intro!: map_cong)
  moreover have "snd (mergeInvocationChains (map ?m ?acc) resps filt) \<longleftrightarrow>
      (\<exists>r \<in> set ?acc. snd (mergeCCCall (map ?m ?acc) r))"
    by (auto simp: mergeInvocationChains_eq)
  ultimately show ?thesis
    by (simp add: mergeInvocationChains_eq [of chain] merge_again_changed Let_def del: set_filter)
qed

lemma mergeInvocationChains_stable_witness:
  "mergeInvocationChains
     (fst (mergeInvocationChains [\<lparr>ID = ''a'', Collections = [''x'']\<rparr>]
        [\<lparr>ID = ''a'', Collections = [''y'']\<rparr>, \<lparr>ID = ''b'', Collections = []\<rparr>] lsccFilter))
     [\<lparr>ID = ''a'', Collections = [''y'']\<rparr>, \<lparr>ID = ''b'', Collections = []\<rparr>] lsccFilter
   = ([\<lparr>ID = ''a'', Collections = [''x'', ''y'']\<rparr>, \<lparr>ID = ''b'', Collections = []\<rparr>], False)
   \<and> snd (mergeInvocationChains
     (fst (mergeInvocationChains [] [\<lparr>ID = ''a'', Collections = [''x'']\<rparr>, \<lparr>ID = ''a'', Collections = [''y'']\<rparr>] lsccFilter))
     [\<lparr>ID = ''a'', Collections = [''x'']\<rparr>, \<lparr>ID = ''a'', Collections = [''y'']\<rparr>] lsccFilter)"
proof -
  have "fst (mergeInvocationChains [\<lparr>ID = ''a'', Collections = [''x'']\<rparr>]
      [\<lparr>ID = ''a'', Collections = [''y'']\<rparr>, \<lparr>ID = ''b'', Collections = []\<rparr>] lsccFilter) =
      [\<lparr>ID = ''a'', Collections = [''x'', ''y'']\<rparr>, \<lparr>ID = ''b'', Collections = []\<rparr>]"
    by (simp add: mergeInvocationChains_def mergeCCCall_def merge_def lsccFilter_def)
  then show ?thesis
    using mergeInvocationChains_stable [of lsccFilter "[\<lparr>ID = ''a'', Collections = [''y'']\<rparr>, \<lparr>ID = ''b'', Collections = []\<rparr>]"
        "[\<lparr>ID = ''a'', Collections = [''x'']\<rparr>]"]
      mergeInvocationChains_stable [of lsccFilter "[\<lparr>ID = ''a'', Collections = [''x'']\<rparr>, \<lparr>ID = ''a'', Collections = [''y'']\<rparr>]" "[]"]
    by (simp add: Let_def lsccFilter_def known_collections_def)
qed

text \<open>
  Whatever filter the caller configured, the two system chaincodes are never accepted, and any
  other chaincode is accepted exactly when the caller's filter, if any, accepts it.
\<close>

lemma getCCFilter_accepts:
  assumes "ChainedCCFilter_documented E"
  shows "getCCFilter E opts cc \<longleftrightarrow>
     cc \<notin> {''lscc'', ''_lifecycle''} \<and> (case CCFilter opts of None \<Rightarrow> True | Some f \<Rightarrow> f cc)"
  using assms
  by (auto simp: getCCFilter_def ChainedCCFilter_documented_def lsccFilter_def split: option.splits)

definition example_chain_proto :: chain_proto where
  "example_chain_proto = rwset_proto.extend example_proto
     \<lparr>Unmarshal_ProposalResponsePayload = (\<lambda>b. Ok \<lparr>prp_Extension = b\<rparr>),
      Unmarshal_ChaincodeAction = (\<lambda>b. Ok \<lparr>ca_Results = b\<rparr>)\<rparr>"

definition example_env :: invoke_env where
  "example_env = \<lparr>env_Process = (\<lambda>t c i p sp. Inl (External 0)), env_schedule = (\<lambda>t n. [0..<n]),
     env_ToError = (\<lambda>es. case es of [] \<Rightarrow> None | e # _ \<Rightarrow> Some e),
     env_SendBroadcast = (\<lambda>t c ord env. None), env_Perm = (\<lambda>t n. [0..<n]),
     env_ToAddress = (\<lambda>u. u),
     env_ToLowerUnicode = (\<lambda>s. s),
     env_NewHeader = (\<lambda>t c ch opts. Inr \<lparr>th_TransactionID = ''tx1'', th_Creator = [], th_rest = 0\<rparr>),
     env_NewTransaction = (\<lambda>r. if endorsements_agree (treq_ProposalResponses r)
       then Inr \<lparr>tx_Transaction = TransactionMessage 3\<rparr> else Inl (External 6)),
     env_SendProposal = (\<lambda>t c p ts. ([], None)),
     env_SendTransaction = (\<lambda>t c tx os. Inl (External 0)),
     env_proto = example_chain_proto,
     env_PeersToTxnProcessors = map (\<lambda>p. Some (PeerProcessor p)),
     env_NewChainedCCFilter = (\<lambda>fs cc. list_all (\<lambda>f. f cc) fs),
     env_GetEndorsersForChaincode = (\<lambda>t chain opts. ([], None))\<rparr>"

lemma example_env_documented:
  "ChainedCCFilter_documented example_env" "PeersToTxnProcessors_documented example_env"
  "schedule_complete example_env" "ToError_documented example_env" "Perm_documented example_env"
  by (auto simp: example_env_def ChainedCCFilter_documented_def PeersToTxnProcessors_documented_def
    schedule_complete_def ToError_documented_def Perm_documented_def list_all_iff split: list.splits)

lemma getCCFilter_accepts_witness:
  "ChainedCCFilter_documented example_env
   \<and> \<not> getCCFilter example_env (emptyOpts\<lparr>CCFilter := Some (\<lambda>_. True)\<rparr>) ''lscc''
   \<and> getCCFilter example_env (emptyOpts\<lparr>CCFilter := Some (\<lambda>cc. cc = ''ping'')\<rparr>) ''ping''"
  using example_env_documented(1)
    getCCFilter_accepts [OF example_env_documented(1), of "emptyOpts\<lparr>CCFilter := Some (\<lambda>_. True)\<rparr>" "''lscc''"]
    getCCFilter_accepts [OF example_env_documented(1), of "emptyOpts\<lparr>CCFilter := Some (\<lambda>cc. cc = ''ping'')\<rparr>" "''ping''"]
  by simp

text \<open>
  The priority selector compares two peers by whether their URL is among those already asked:
  it is the difference of two ranks, hence antisymmetric and transitive, and a peer that already
  endorsed always comes before one that did not.
\<close>

lemma prioritizePeers_rank:
  "prioritizePeers peers p q =
     of_bool (URL p \<in> URL ` set peers) - of_bool (URL q \<in> URL ` set peers)"
  by (simp add: prioritizePeers_def urls.search_iff)

text \<open>
  C23: The chain read off a response lists, for a response that carries results, exactly the
  namespaces and collection names of the ledger message in it, in the message's order.
\<close>

theorem getInvocationChainFromResponse_names:
  assumes "tpr_ProposalResponse resp = Some pr"
    and "Unmarshal_ProposalResponsePayload W (pr_Payload pr) = Ok prp"
    and "Unmarshal_ChaincodeAction W (prp_Extension prp) = Ok action"
    and "ca_Results action \<noteq> []"
    and "Unmarshal_TxReadWriteSet W (ca_Results action) = Ok msg"
    and "getInvocationChainFromResponse W resp = Ok chain"
  shows "map (\<lambda>c. Some (ID c, Collections c)) chain = tx_msg_names msg"
proof -
  obtain tx where tx: "TxRwSetFromProtoMsg W msg = Ok tx"
    and chain: "append_loop callFromRWSet [] (NsRwSets tx) = Ok chain"
    using assms by (auto simp: getInvocationChainFromResponse_def getRWSetsFromProposalResponse_def
      TxRwSet_FromProtoBytes_def outcome_simps split: result.splits)
  have "map (\<lambda>c. Some (ID c, Collections c)) chain = map (map_option ns_names) (NsRwSets tx)"
    by (rule append_loop_map [OF chain]) (rule callFromRWSet_names)
  with TxRwSetFromProtoMsg_names [OF tx] show ?thesis by (simp add: tx_names_def)
qed

definition example_response :: TransactionProposalResponse where
  "example_response = \<lparr>tpr_Endorser = ''peer0'', tpr_ChaincodeStatus = 200,
     tpr_ProposalResponse = Some \<lparr>pr_Payload = [9], pr_Response = Some \<lparr>rsp_Status = 200, rsp_Payload = [1]\<rparr>\<rparr>\<rparr>"

lemma example_response_chain:
  "getInvocationChainFromResponse example_chain_proto example_response =
     Ok [\<lparr>ID = ''ping'', Collections = [''c'']\<rparr>]"
  by (simp add: getInvocationChainFromResponse_def getRWSetsFromProposalResponse_def
    callFromRWSet_def TxRwSet_FromProtoBytes_def public_defs example_chain_proto_def
    rwset_proto.defs example_defs example_response_def)

lemma getInvocationChainFromResponse_names_witness:
  "map (\<lambda>c. Some (ID c, Collections c)) [\<lparr>ID = ''ping'', Collections = [''c'']\<rparr>] = tx_msg_names example_tx_msg"
  by (rule getInvocationChainFromResponse_names [OF _ _ _ _ _ example_response_chain,
        where pr = "\<lparr>pr_Payload = [9], pr_Response = Some \<lparr>rsp_Status = 200, rsp_Payload = [1]\<rparr>\<rparr>"
          and prp = "\<lparr>prp_Extension = [9]\<rparr>" and action = "\<lparr>ca_Results = [9]\<rparr>"])
    (simp_all add: example_response_def example_chain_proto_def example_proto_def rwset_proto.defs)

definition decoder_safe :: "'z chain_proto_scheme \<Rightarrow> bool" where
  "decoder_safe W \<longleftrightarrow>
     (\<forall>b. Unmarshal_ProposalResponsePayload W b \<noteq> Panic) \<and>
     (\<forall>b. Unmarshal_ChaincodeAction W b \<noteq> Panic) \<and>
     (\<forall>b. Unmarshal_KVRWSet W b \<noteq> Panic) \<and>
     (\<forall>b. Unmarshal_HashedRWSet W b \<noteq> Panic) \<and>
     (\<forall>b. Unmarshal_TxReadWriteSet W b \<noteq> Panic) \<and>
     (\<forall>b m. Unmarshal_TxReadWriteSet W b = Ok m \<longrightarrow>
        list_all (\<lambda>p. \<exists>ns. p = Some ns \<and> None \<notin> set (nsm_CollectionHashedRwset ns)) (txm_NsRwset m))"

lemma nsRwSetFromProtoMsg_no_Panic:
  assumes "decoder_safe W" and "p = Some ns" and "None \<notin> set (nsm_CollectionHashedRwset ns)"
  shows "nsRwSetFromProtoMsg W p \<noteq> Panic"
proof -
  have "append_loop (collHashedRwSetFromProtoMsg W) [] (nsm_CollectionHashedRwset ns) \<noteq> Panic"
  proof (rule append_loop_no_Panic)
    fix x assume "x \<in> set (nsm_CollectionHashedRwset ns)"
    with assms(3) obtain c where "x = Some c" by (cases x) auto
    with assms(1) show "collHashedRwSetFromProtoMsg W x \<noteq> Panic"
      by (auto simp: collHashedRwSetFromProtoMsg_def decoder_safe_def outcome_simps)
  qed
  then show ?thesis using assms
    by (auto simp: nsRwSetFromProtoMsg_def decoder_safe_def outcome_simps)
qed

lemma FromProtoBytes_no_Panic:
  assumes "decoder_safe W"
  shows "fst (TxRwSet_FromProtoBytes W tx0 b) \<noteq> Panic"
proof -
  have "TxRwSetFromProtoMsg W m \<noteq> Panic" if m: "Unmarshal_TxReadWriteSet W b = Ok m" for m
  proof -
    have "append_loop (nsRwSetFromProtoMsg W) [] (txm_NsRwset m) \<noteq> Panic"
    proof (rule append_loop_no_Panic)
      fix x assume "x \<in> set (txm_NsRwset m)"
      then obtain ns where "x = Some ns" "None \<notin> set (nsm_CollectionHashedRwset ns)"
        using assms m unfolding decoder_safe_def list_all_iff by blast
      then show "nsRwSetFromProtoMsg W x \<noteq> Panic"
        by (rule nsRwSetFromProtoMsg_no_Panic [OF assms])
    qed
    then show ?thesis by (auto simp: TxRwSetFromProtoMsg_def outcome_simps)
  qed
  then show ?thesis using assms
    by (auto simp: TxRwSet_FromProtoBytes_def decoder_safe_def outcome_simps split: result.splits)
qed

text \<open>
  C24: No response a peer can send makes the chain extraction panic: if the protobuf library
  itself never panics and never produces a nil list element, it returns a chain or an error.
\<close>

theorem getInvocationChainFromResponse_no_panic:
  assumes "decoder_safe W"
  shows "getInvocationChainFromResponse W resp \<noteq> Panic"
proof -
  have rw: "getRWSetsFromProposalResponse W p \<noteq> Panic" for p
    using assms FromProtoBytes_no_Panic [OF assms]
    by (auto simp: getRWSetsFromProposalResponse_def decoder_safe_def outcome_simps
      split: option.splits result.splits if_splits prod.splits) (metis fst_conv)+
  have "append_loop callFromRWSet [] rws \<noteq> Panic" if "getRWSetsFromProposalResponse W p = Ok rws" for p rws
  proof (rule append_loop_no_Panic)
    fix x assume "x \<in> set rws"
    moreover have "list_all ns_complete rws"
      using that by (auto simp: getRWSetsFromProposalResponse_def TxRwSet_FromProtoBytes_def
        outcome_simps TxRwSetFromProtoMsg_complete split: option.splits if_splits result.splits)
    ultimately have "\<exists>c. callFromRWSet x = Ok c"
      by (auto simp: list_all_iff intro: callFromRWSet_complete)
    then show "callFromRWSet x \<noteq> Panic" by auto
  qed
  with rw show ?thesis by (auto simp: getInvocationChainFromResponse_def outcome_simps)
qed

lemma getInvocationChainFromResponse_no_panic_witness:
  "decoder_safe example_chain_proto \<and>
   getInvocationChainFromResponse example_chain_proto (example_response\<lparr>tpr_ProposalResponse := None\<rparr>) \<noteq> Panic"
proof -
  have s: "decoder_safe example_chain_proto"
    by (auto simp: decoder_safe_def example_chain_proto_def example_proto_def rwset_proto.defs
      example_tx_msg_def split: list.splits if_splits)
  show ?thesis using s getInvocationChainFromResponse_no_panic [OF s] by blast
qed

end
