(* ===== verification/Txn.thy ===== *)
theory Txn
  imports Prelude Fabric_Types
begin

text \<open>
  The package \<open>pkg/fab/txn\<close>: sending a signed proposal to many endorsers at once
  (\<open>proposal.go\<close>) and broadcasting an envelope to the orderers one by one (\<open>txn.go\<close>). The
  goroutines of \<open>SendSignedProposal\<close>, its mutex and its wait group are a step relation; the
  sequential function \<open>SendSignedProposal\<close> is its result for one order of completion.
  Logging is not modelled.
\<close>

section \<open>Targets without duplicates\<close>

fun getTargetsWithoutDuplicates_loop ::
  "processor option list \<Rightarrow> (string \<rightharpoonup> processor option) \<Rightarrow> processor option list \<Rightarrow>
   processor option list \<Rightarrow> processor option list"
where
  "getTargetsWithoutDuplicates_loop targets peerUrls uniqueTargets [] = uniqueTargets"
| "getTargetsWithoutDuplicates_loop targets peerUrls uniqueTargets (t # ts) =
     (case t of
        Some (PeerProcessor peer) \<Rightarrow>
          (if peerUrls (URL peer) = None
           then getTargetsWithoutDuplicates_loop targets (peerUrls(URL peer \<mapsto> t)) (uniqueTargets @ [t]) ts
           else getTargetsWithoutDuplicates_loop targets peerUrls uniqueTargets ts)
      | _ \<Rightarrow> targets)"

definition getTargetsWithoutDuplicates :: "processor option list \<Rightarrow> processor option list" where
  "getTargetsWithoutDuplicates targets =
     getTargetsWithoutDuplicates_loop targets Map.empty [] targets"

lemma getTargets_loop_peers:
  "getTargetsWithoutDuplicates_loop targets urls us (map (\<lambda>p. Some (PeerProcessor p)) ps) =
     us @ map (\<lambda>p. Some (PeerProcessor p)) (filter (\<lambda>p. URL p \<notin> dom urls) (uniq_by URL ps))"
proof (induction ps arbitrary: urls us)
  case (Cons p ps)
  have "filter (\<lambda>q. URL q \<notin> dom (urls(URL p \<mapsto> Some (PeerProcessor p)))) (uniq_by URL ps) =
      filter (\<lambda>q. URL q \<notin> dom urls) (filter (\<lambda>q. URL q \<noteq> URL p) (uniq_by URL ps))"
    by (auto simp: filter_filter intro!: filter_cong)
  moreover have "filter (\<lambda>q. URL q \<notin> dom urls) (filter (\<lambda>q. URL q \<noteq> URL p) (uniq_by URL ps)) =
      filter (\<lambda>q. URL q \<notin> dom urls) (uniq_by URL ps)" if "URL p \<in> dom urls"
    using that by (auto simp: filter_filter intro!: filter_cong)
  ultimately show ?case using Cons by (auto simp: domIff cong: conj_cong)
qed simp

lemma getTargets_loop_other:
  "\<exists>t \<in> set ts. \<forall>p. t \<noteq> Some (PeerProcessor p) \<Longrightarrow>
     getTargetsWithoutDuplicates_loop targets urls us ts = targets"
proof (induction ts arbitrary: urls us)
  case (Cons t ts)
  show ?case
  proof (cases "\<exists>p. t = Some (PeerProcessor p)")
    case True
    with Cons.prems have "\<exists>t \<in> set ts. \<forall>p. t \<noteq> Some (PeerProcessor p)" by auto
    note Cons.IH [OF this]
    with True show ?thesis by auto
  next
    case False
    then show ?thesis by (auto split: option.splits processor.splits)
  qed
qed simp

lemma getTargetsWithoutDuplicates_peers:
  "getTargetsWithoutDuplicates (map (\<lambda>p. Some (PeerProcessor p)) ps) =
     map (\<lambda>p. Some (PeerProcessor p)) (uniq_by URL ps)"
  by (simp add: getTargetsWithoutDuplicates_def getTargets_loop_peers)

lemma getTargetsWithoutDuplicates_other:
  "\<exists>t \<in> set targets. \<forall>p. t \<noteq> Some (PeerProcessor p) \<Longrightarrow> getTargetsWithoutDuplicates targets = targets"
  by (simp add: getTargetsWithoutDuplicates_def getTargets_loop_other)

lemma all_peers_map:
  "\<not> (\<exists>t \<in> set targets. \<forall>p. t \<noteq> Some (PeerProcessor p)) \<Longrightarrow>
     \<exists>ps. targets = map (\<lambda>p. Some (PeerProcessor p)) ps"
proof (induction targets)
  case (Cons t ts)
  then obtain p ps where "t = Some (PeerProcessor p)" "ts = map (\<lambda>p. Some (PeerProcessor p)) ps"
    by auto
  then show ?case by (intro exI [of _ "p # ps"]) simp
qed simp

lemma set_getTargets: "set (getTargetsWithoutDuplicates targets) \<subseteq> set targets"
proof (cases "\<exists>t \<in> set targets. \<forall>p. t \<noteq> Some (PeerProcessor p)")
  case False
  then obtain ps where "targets = map (\<lambda>p. Some (PeerProcessor p)) ps" using all_peers_map by blast
  then show ?thesis using set_uniq_by [of URL ps] by (auto simp: getTargetsWithoutDuplicates_peers)
qed (simp add: getTargetsWithoutDuplicates_other)

section \<open>The goroutines of SendSignedProposal\<close>

text \<open>
  One goroutine per target: it calls the processor, takes the mutex, reads the slice it will
  append to, stores the longer slice, releases the mutex and reports to the wait group. Reading and
  storing are separate steps, so that without the mutex an update could be lost. \<open>appended\<close> is a
  ghost: the order in which goroutines stored their result.
\<close>

type_synonym answer = "error + TransactionProposalResponse"

datatype goroutine =
    NotStarted
  | Calling
  | Returned answer
  | Locked answer
  | LoadedResponses TransactionProposalResponse "TransactionProposalResponse list"
  | LoadedErrors error "error list"
  | Stored
  | Released
  | Finished

datatype main_pc = Spawning nat | MainReturned

record send_state =
  gos :: "goroutine list"
  mtx :: "nat option"
  wg :: nat
  responses :: "TransactionProposalResponse list"
  errs :: "error list"
  main :: main_pc
  appended :: "nat list"

definition send_init :: "nat \<Rightarrow> send_state" where
  "send_init n = \<lparr>gos = replicate n NotStarted, mtx = None, wg = 0, responses = [], errs = [],
     main = Spawning 0, appended = []\<rparr>"

inductive send_step :: "(nat \<Rightarrow> answer) \<Rightarrow> send_state \<Rightarrow> send_state \<Rightarrow> bool" for ans where
  spawn: "main s = Spawning i \<Longrightarrow> i < length (gos s) \<Longrightarrow>
     send_step ans s (s\<lparr>main := Spawning (Suc i), wg := wg s + 1, gos := (gos s)[i := Calling]\<rparr>)"
| wait: "main s = Spawning (length (gos s)) \<Longrightarrow> wg s = 0 \<Longrightarrow>
     send_step ans s (s\<lparr>main := MainReturned\<rparr>)"
| reply: "i < length (gos s) \<Longrightarrow> gos s ! i = Calling \<Longrightarrow>
     send_step ans s (s\<lparr>gos := (gos s)[i := Returned (ans i)]\<rparr>)"
| lock: "i < length (gos s) \<Longrightarrow> gos s ! i = Returned a \<Longrightarrow> mtx s = None \<Longrightarrow>
     send_step ans s (s\<lparr>gos := (gos s)[i := Locked a], mtx := Some i\<rparr>)"
| load_response: "i < length (gos s) \<Longrightarrow> gos s ! i = Locked (Inr r) \<Longrightarrow>
     send_step ans s (s\<lparr>gos := (gos s)[i := LoadedResponses r (responses s)]\<rparr>)"
| load_error: "i < length (gos s) \<Longrightarrow> gos s ! i = Locked (Inl e) \<Longrightarrow>
     send_step ans s (s\<lparr>gos := (gos s)[i := LoadedErrors e (errs s)]\<rparr>)"
| store_response: "i < length (gos s) \<Longrightarrow> gos s ! i = LoadedResponses r rs \<Longrightarrow>
     send_step ans s (s\<lparr>gos := (gos s)[i := Stored], responses := rs @ [r], appended := appended s @ [i]\<rparr>)"
| store_error: "i < length (gos s) \<Longrightarrow> gos s ! i = LoadedErrors e es \<Longrightarrow>
     send_step ans s (s\<lparr>gos := (gos s)[i := Stored], errs := es @ [e], appended := appended s @ [i]\<rparr>)"
| unlock: "i < length (gos s) \<Longrightarrow> gos s ! i = Stored \<Longrightarrow>
     send_step ans s (s\<lparr>gos := (gos s)[i := Released], mtx := None\<rparr>)"
| finish: "i < length (gos s) \<Longrightarrow> gos s ! i = Released \<Longrightarrow>
     send_step ans s (s\<lparr>gos := (gos s)[i := Finished], wg := wg s - 1\<rparr>)"

inductive send_reach :: "(nat \<Rightarrow> answer) \<Rightarrow> nat \<Rightarrow> send_state \<Rightarrow> bool" for ans n where
  init: "send_reach ans n (send_init n)"
| step: "send_reach ans n s \<Longrightarrow> send_step ans s s' \<Longrightarrow> send_reach ans n s'"

text \<open>What has been collected when the goroutines stored their results in the order \<open>ord\<close>.\<close>

fun successes :: "(nat \<Rightarrow> answer) \<Rightarrow> nat list \<Rightarrow> TransactionProposalResponse list" where
  "successes ans [] = []"
| "successes ans (i # is) = (case ans i of Inr r \<Rightarrow> r # successes ans is | Inl e \<Rightarrow> successes ans is)"

fun failures :: "(nat \<Rightarrow> answer) \<Rightarrow> nat list \<Rightarrow> error list" where
  "failures ans [] = []"
| "failures ans (i # is) = (case ans i of Inr r \<Rightarrow> failures ans is | Inl e \<Rightarrow> e # failures ans is)"

lemma successes_append [simp]: "successes ans (xs @ ys) = successes ans xs @ successes ans ys"
  by (induction xs) (auto split: sum.splits)

lemma failures_append [simp]: "failures ans (xs @ ys) = failures ans xs @ failures ans ys"
  by (induction xs) (auto split: sum.splits)

lemma successes_failures_length: "length (successes ans xs) + length (failures ans xs) = length xs"
  by (induction xs) (auto split: sum.splits)

lemma failures_nil: "failures ans xs = [] \<longleftrightarrow> (\<forall>i \<in> set xs. \<exists>r. ans i = Inr r)"
  by (induction xs) (auto split: sum.splits)

lemma mset_successes: "mset xs = mset ys \<Longrightarrow> mset (successes ans xs) = mset (successes ans ys)"
proof -
  have "mset (successes ans zs) =
      image_mset (\<lambda>i. projr (ans i)) (filter_mset (\<lambda>i. \<not> isl (ans i)) (mset zs))" for zs
    by (induction zs) (auto split: sum.splits)
  then show "mset xs = mset ys \<Longrightarrow> ?thesis" by simp
qed

lemma set_successes: "set (successes ans xs) = {r. \<exists>i \<in> set xs. ans i = Inr r}"
  by (induction xs) (auto split: sum.splits)

section \<open>Invariant, progress and termination of the goroutines\<close>

fun critical :: "goroutine \<Rightarrow> bool" where
  "critical (Locked a) = True"
| "critical (LoadedResponses r rs) = True"
| "critical (LoadedErrors e es) = True"
| "critical Stored = True"
| "critical _ = False"

fun active :: "goroutine \<Rightarrow> bool" where
  "active NotStarted = False"
| "active Finished = False"
| "active _ = True"

fun has_stored :: "goroutine \<Rightarrow> bool" where
  "has_stored Stored = True"
| "has_stored Released = True"
| "has_stored Finished = True"
| "has_stored _ = False"

text \<open>What a goroutine carries agrees with its processor's answer and the shared slices.\<close>

fun consistent :: "answer \<Rightarrow> send_state \<Rightarrow> goroutine \<Rightarrow> bool" where
  "consistent a s (Returned b) \<longleftrightarrow> b = a"
| "consistent a s (Locked b) \<longleftrightarrow> b = a"
| "consistent a s (LoadedResponses r rs) \<longleftrightarrow> a = Inr r \<and> rs = responses s"
| "consistent a s (LoadedErrors e es) \<longleftrightarrow> a = Inl e \<and> es = errs s"
| "consistent a s _ \<longleftrightarrow> True"

fun started :: "main_pc \<Rightarrow> nat \<Rightarrow> nat" where
  "started (Spawning k) n = k"
| "started MainReturned n = n"

definition send_inv :: "(nat \<Rightarrow> answer) \<Rightarrow> nat \<Rightarrow> send_state \<Rightarrow> bool" where
  "send_inv ans n s \<longleftrightarrow>
     length (gos s) = n \<and> started (main s) n \<le> n \<and>
     (\<forall>i<n. gos s ! i = NotStarted \<longleftrightarrow> started (main s) n \<le> i) \<and>
     wg s = length (filter active (gos s)) \<and>
     (main s = MainReturned \<longrightarrow> wg s = 0) \<and>
     (\<forall>i. mtx s = Some i \<longleftrightarrow> i < n \<and> critical (gos s ! i)) \<and>
     (\<forall>i<n. consistent (ans i) s (gos s ! i)) \<and>
     distinct (appended s) \<and> set (appended s) = {i. i < n \<and> has_stored (gos s ! i)} \<and>
     responses s = successes ans (appended s) \<and> errs s = failures ans (appended s)"

lemma send_inv_init: "send_inv ans n (send_init n)"
  by (auto simp: send_inv_def send_init_def)

lemma length_filter_update:
  assumes "i < length xs"
  shows "length (filter P (xs[i := y])) + of_bool (P (xs ! i)) = length (filter P xs) + of_bool (P y)"
  using assms
proof (induction xs arbitrary: i)
  case (Cons x xs)
  then show ?case by (cases i) auto
qed simp

lemma active_update:
  assumes "i < length gs"
  shows "active (gs ! i) \<Longrightarrow> active g \<Longrightarrow> length (filter active (gs[i := g])) = length (filter active gs)"
    and "\<not> active (gs ! i) \<Longrightarrow> active g \<Longrightarrow> length (filter active (gs[i := g])) = Suc (length (filter active gs))"
    and "active (gs ! i) \<Longrightarrow> \<not> active g \<Longrightarrow> Suc (length (filter active (gs[i := g]))) = length (filter active gs)"
  using length_filter_update [OF assms, of active g] by auto

text \<open>
  The shared slices only matter to a goroutine inside its critical section, and there is at most
  one such goroutine.
\<close>

lemma consistent_outside:
  "\<not> critical g \<Longrightarrow> consistent a s' g = consistent a s g"
  by (cases g) auto

lemma consistent_frame [simp]:
  "consistent a (s\<lparr>gos := gs\<rparr>) g = consistent a s g"
  "consistent a (s\<lparr>mtx := m\<rparr>) g = consistent a s g"
  "consistent a (s\<lparr>wg := w\<rparr>) g = consistent a s g"
  "consistent a (s\<lparr>main := pc\<rparr>) g = consistent a s g"
  "consistent a (s\<lparr>appended := ord\<rparr>) g = consistent a s g"
  by (cases g; simp)+

lemma send_inv_only_critical:
  assumes "send_inv ans n s" and "i < n" "critical (gos s ! i)" and "j < n" "j \<noteq> i"
  shows "\<not> critical (gos s ! j)"
  using assms unfolding send_inv_def by (metis option.inject)

text \<open>A goroutine that stores its result does not disturb what the others carry.\<close>

lemma store_consistent:
  assumes "send_inv ans n s" and "i < n" and "critical (gos s ! i)"
    and "gos s' = (gos s)[i := Stored]" and "j < n"
  shows "consistent (ans j) s' (gos s' ! j)"
proof (cases "j = i")
  case True
  with assms show ?thesis by (simp add: send_inv_def)
next
  case False
  then have "\<not> critical (gos s ! j)"
    using send_inv_only_critical assms by metis
  moreover have "consistent (ans j) s (gos s ! j)"
    using assms by (simp add: send_inv_def)
  ultimately show ?thesis using False assms(4) consistent_outside [of "gos s ! j" "ans j" s' s] by simp
qed

lemma send_step_inv:
  assumes "send_step ans s s'" and "send_inv ans n s"
  shows "send_inv ans n s'"
  using assms(1)
proof cases
  case (spawn i)
  then show ?thesis using assms(2)
    by (auto simp: send_inv_def nth_list_update active_update)
next
  case wait
  then show ?thesis using assms(2)
    by (auto simp: send_inv_def)
next
  case (reply i)
  then show ?thesis using assms(2)
    by (auto simp: send_inv_def nth_list_update active_update)
next
  case (lock i a)
  then show ?thesis using assms(2)
    by (auto simp: send_inv_def nth_list_update active_update)
next
  case (load_response i r)
  then show ?thesis using assms(2)
    by (auto simp: send_inv_def nth_list_update active_update)
next
  case (load_error i e)
  then show ?thesis using assms(2)
    by (auto simp: send_inv_def nth_list_update active_update)
next
  case (store_response i r rs)
  have "\<forall>j<n. consistent (ans j) s' (gos s' ! j)"
    by (intro allI impI store_consistent [OF assms(2), of i])
      (use store_response assms(2) in \<open>simp_all add: send_inv_def\<close>)
  then show ?thesis using assms(2) store_response
    by (auto simp: send_inv_def nth_list_update active_update)
next
  case (store_error i e es)
  have "\<forall>j<n. consistent (ans j) s' (gos s' ! j)"
    by (intro allI impI store_consistent [OF assms(2), of i])
      (use store_error assms(2) in \<open>simp_all add: send_inv_def\<close>)
  then show ?thesis using assms(2) store_error
    by (auto simp: send_inv_def nth_list_update active_update)
next
  case (unlock i)
  then show ?thesis using assms(2) send_inv_only_critical [OF assms(2), of i]
    by (auto simp: send_inv_def nth_list_update active_update)
next
  case (finish i)
  then have "Suc (length (filter active ((gos s)[i := Finished]))) = length (filter active (gos s))"
    by (intro active_update(3)) auto
  then have "length (filter active (gos s)) - 1 = length (filter active ((gos s)[i := Finished]))"
    and "filter active (gos s) \<noteq> []"
    by auto
  with finish show ?thesis using assms(2)
    by (auto simp: send_inv_def nth_list_update)
qed

lemma send_reach_inv: "send_reach ans n s \<Longrightarrow> send_inv ans n s"
  by (induction rule: send_reach.induct) (auto intro: send_inv_init send_step_inv)

text \<open>Progress: until the function has returned, some step is possible.\<close>

lemma critical_progress:
  assumes "i < length (gos s)" and "critical (gos s ! i)"
  shows "\<exists>s'. send_step ans s s'"
proof (cases "gos s ! i")
  case (Locked a)
  then show ?thesis using assms(1)
    by (cases a) (auto intro: send_step.load_response send_step.load_error)
qed (use assms in \<open>auto intro: send_step.store_response send_step.store_error send_step.unlock\<close>)

lemma active_progress:
  assumes "send_inv ans n s" and "i < n" and "active (gos s ! i)"
  shows "\<exists>s'. send_step ans s s'"
proof (cases "mtx s")
  case (Some j)
  with assms show ?thesis by (auto simp: send_inv_def intro: critical_progress)
next
  case None
  then have "\<not> critical (gos s ! i)" and "i < length (gos s)"
    using assms by (auto simp: send_inv_def)
  with assms(3) None show ?thesis
    by (cases "gos s ! i") (auto intro: send_step.reply send_step.lock send_step.finish)
qed

lemma send_progress:
  assumes "send_inv ans n s" and "main s \<noteq> MainReturned"
  shows "\<exists>s'. send_step ans s s'"
proof -
  obtain k where k: "main s = Spawning k" using assms(2) by (cases "main s") auto
  then have "k \<le> n" and len: "length (gos s) = n"
    using assms(1) by (auto simp: send_inv_def)
  show ?thesis
  proof (cases "k < n")
    case True
    with k len show ?thesis by (blast intro: send_step.spawn)
  next
    case notLess: False
    show ?thesis
    proof (cases "wg s = 0")
      case True
      moreover have "main s = Spawning (length (gos s))" using k len \<open>k \<le> n\<close> notLess by simp
      ultimately show ?thesis by (blast intro: send_step.wait)
    next
      case False
      then have "filter active (gos s) \<noteq> []" using assms(1) by (auto simp: send_inv_def)
      then obtain i where "i < n" "active (gos s ! i)"
        using len by (auto simp: filter_empty_conv in_set_conv_nth)
      then show ?thesis by (rule active_progress [OF assms(1)])
    qed
  qed
qed

text \<open>Termination: every step brings its goroutine, or the main thread, closer to the end.\<close>

fun remaining :: "goroutine \<Rightarrow> nat" where
  "remaining NotStarted = 7"
| "remaining Calling = 6"
| "remaining (Returned a) = 5"
| "remaining (Locked a) = 4"
| "remaining (LoadedResponses r rs) = 3"
| "remaining (LoadedErrors e es) = 3"
| "remaining Stored = 2"
| "remaining Released = 1"
| "remaining Finished = 0"

definition send_measure :: "send_state \<Rightarrow> nat" where
  "send_measure s = sum_list (map remaining (gos s)) + (if main s = MainReturned then 0 else 1)"

lemma remaining_update:
  assumes "i < length gs" and "remaining g < remaining (gs ! i)"
  shows "sum_list (map remaining (gs[i := g])) < sum_list (map remaining gs)"
  using assms
proof (induction gs arbitrary: i)
  case (Cons x xs)
  then show ?case by (cases i) auto
qed simp

lemma send_step_measure:
  assumes "send_step ans s s'" and "send_inv ans n s"
  shows "send_measure s' < send_measure s"
  using assms(1)
proof cases
  case (spawn i)
  then have "gos s ! i = NotStarted" using assms(2) by (auto simp: send_inv_def)
  with spawn show ?thesis by (simp add: send_measure_def remaining_update)
qed (auto simp: send_measure_def remaining_update)

text \<open>
  The state after the return is final: the wait group keeps every goroutine from running on, so
  that nothing touches the returned slices.
\<close>

inductive_cases send_stepE: "send_step ans s s'"

lemma send_step_active:
  assumes "send_step ans s s'" and "main s = MainReturned"
  shows "\<exists>i < length (gos s). active (gos s ! i)"
  using assms by (elim send_stepE) (metis active.simps main_pc.distinct(1))+

lemma send_returned_final:
  assumes "send_inv ans n s" and "main s = MainReturned"
  shows "\<not> send_step ans s s'"
proof
  assume "send_step ans s s'"
  then obtain i where "i < length (gos s)" "active (gos s ! i)"
    using send_step_active assms(2) by blast
  moreover have "length (filter active (gos s)) = 0"
    using assms by (metis send_inv_def)
  ultimately show False by (auto simp: filter_empty_conv)
qed

text \<open>
  Completeness: for every order of the goroutines there is an execution that stores the results in
  that order.
\<close>

lemma run_one:
  assumes reach: "send_reach ans n \<lparr>gos = gs, mtx = None, wg = w, responses = rs, errs = es,
      main = pc, appended = ord\<rparr>"
    and i: "i < length gs" "gs ! i = Calling"
  shows "send_reach ans n \<lparr>gos = gs[i := Finished], mtx = None, wg = w - 1,
      responses = rs @ successes ans [i], errs = es @ failures ans [i], main = pc,
      appended = ord @ [i]\<rparr>"
proof -
  let ?S = "\<lambda>g m. \<lparr>gos = gs[i := g], mtx = m, wg = w, responses = rs, errs = es, main = pc,
      appended = ord\<rparr>"
  let ?T = "\<lambda>g m. \<lparr>gos = gs[i := g], mtx = m, wg = w, responses = rs @ successes ans [i],
      errs = es @ failures ans [i], main = pc, appended = ord @ [i]\<rparr>"
  have 1: "send_reach ans n (?S (Returned (ans i)) None)"
    using send_reach.step [OF reach send_step.reply [of i]] i by simp
  have 2: "send_reach ans n (?S (Locked (ans i)) (Some i))"
    using send_reach.step [OF 1 send_step.lock [of i _ "ans i"]] i by simp
  have 3: "send_reach ans n (?T Stored (Some i))"
  proof (cases "ans i")
    case (Inr r)
    then have "send_reach ans n (?S (LoadedResponses r rs) (Some i))"
      using send_reach.step [OF 2 send_step.load_response [of i _ r]] i by simp
    from send_reach.step [OF this send_step.store_response [of i _ r rs]]
    show ?thesis using i Inr by simp
  next
    case (Inl e)
    then have "send_reach ans n (?S (LoadedErrors e es) (Some i))"
      using send_reach.step [OF 2 send_step.load_error [of i _ e]] i by simp
    from send_reach.step [OF this send_step.store_error [of i _ e es]]
    show ?thesis using i Inl by simp
  qed
  have 4: "send_reach ans n (?T Released None)"
    using send_reach.step [OF 3 send_step.unlock [of i]] i by simp
  show ?thesis
    using send_reach.step [OF 4 send_step.finish [of i]] i by simp
qed

definition mid_state :: "(nat \<Rightarrow> answer) \<Rightarrow> nat \<Rightarrow> nat list \<Rightarrow> send_state" where
  "mid_state ans n ord = \<lparr>gos = map (\<lambda>i. if i \<in> set ord then Finished else Calling) [0..<n],
     mtx = None, wg = n - length ord, responses = successes ans ord, errs = failures ans ord,
     main = Spawning n, appended = ord\<rparr>"

lemma spawn_all: "k \<le> n \<Longrightarrow> send_reach ans n
  \<lparr>gos = replicate k Calling @ replicate (n - k) NotStarted, mtx = None, wg = k, responses = [],
   errs = [], main = Spawning k, appended = []\<rparr>"
proof (induction k)
  case 0
  show ?case using send_reach.init by (simp add: send_init_def)
next
  case (Suc k)
  let ?s = "\<lparr>gos = replicate k Calling @ replicate (n - k) NotStarted, mtx = None, wg = k,
    responses = [], errs = [], main = Spawning k, appended = []\<rparr>"
  have "(replicate k Calling @ replicate (n - k) NotStarted)[k := Calling] =
      replicate (Suc k) Calling @ replicate (n - Suc k) NotStarted"
    using Suc.prems by (simp add: list_update_append Suc_diff_Suc [symmetric] replicate_append_same)
  then show ?case
    using send_reach.step [OF Suc.IH send_step.spawn [of ?s k]] Suc.prems by simp
qed

lemma run_all:
  assumes "distinct ord" and "set ord \<subseteq> {0..<n}"
  shows "send_reach ans n (mid_state ans n ord)"
  using assms
proof (induction ord rule: rev_induct)
  case Nil
  show ?case using spawn_all [of n n ans] by (simp add: mid_state_def map_replicate_const)
next
  case (snoc i ord)
  let ?gs = "\<lambda>ord. map (\<lambda>j. if j \<in> set ord then Finished else Calling) [0..<n]"
  have i: "i < n" "i \<notin> set ord" using snoc.prems by auto
  have gs: "(?gs ord)[i := Finished] = ?gs (ord @ [i])"
    using i by (auto intro!: nth_equalityI simp: nth_list_update)
  have "send_reach ans n (mid_state ans n ord)" using snoc by simp
  then have "send_reach ans n \<lparr>gos = (?gs ord)[i := Finished], mtx = None, wg = n - length ord - 1,
      responses = successes ans ord @ successes ans [i], errs = failures ans ord @ failures ans [i],
      main = Spawning n, appended = ord @ [i]\<rparr>"
    unfolding mid_state_def by (rule run_one) (use i in auto)
  then show ?case unfolding gs by (simp add: mid_state_def)
qed

lemma run_complete:
  assumes "is_perm ord n"
  shows "\<exists>s. send_reach ans n s \<and> main s = MainReturned \<and> responses s = successes ans ord \<and> errs s = failures ans ord"
proof -
  have "send_reach ans n (mid_state ans n ord)"
    using assms by (intro run_all) (auto simp: is_perm_def)
  from send_reach.step [OF this send_step.wait] is_perm_length [OF assms]
  have "send_reach ans n ((mid_state ans n ord)\<lparr>main := MainReturned\<rparr>)"
    by (simp add: mid_state_def)
  then show ?thesis by (intro exI conjI) (auto simp: mid_state_def)
qed

lemma run_sound:
  assumes "send_reach ans n s" and "main s = MainReturned"
  shows "\<exists>ord. is_perm ord n \<and> responses s = successes ans ord \<and> errs s = failures ans ord"
proof -
  have inv: "send_inv ans n s" using assms(1) by (rule send_reach_inv)
  then have "filter active (gos s) = []" using assms(2) by (auto simp: send_inv_def)
  then have idle: "\<not> active (gos s ! i)" if "i < n" for i
    using that inv by (auto simp: send_inv_def filter_empty_conv)
  have "has_stored (gos s ! i)" if "i < n" for i
  proof -
    have "gos s ! i \<noteq> NotStarted" using that inv assms(2) by (auto simp: send_inv_def)
    with idle [OF that] show ?thesis by (cases "gos s ! i") auto
  qed
  then have "is_perm (appended s) n" using inv by (auto simp: send_inv_def is_perm_def)
  with inv show ?thesis by (auto simp: send_inv_def)
qed

section \<open>SendSignedProposal\<close>

text \<open>
  The whole function: the guards, the duplicate elimination, one goroutine per target, and the two
  collected slices for the completion order \<open>env_schedule\<close> chooses. The result is Go's pair of
  responses and error. The calls of a batch are recorded in target order.
\<close>

definition batch_answer ::
  "'z txn_env_scheme \<Rightarrow> reqctx \<Rightarrow> SignedProposal \<Rightarrow> processor list \<Rightarrow> trace \<Rightarrow> nat \<Rightarrow> answer"
where
  "batch_answer E reqCtx sp processors t i = env_Process E t reqCtx i (processors ! i) sp"

definition SendSignedProposal ::
  "'z txn_env_scheme \<Rightarrow> reqctx \<Rightarrow> SignedProposal option \<Rightarrow> processor option list \<Rightarrow> trace \<Rightarrow>
   (TransactionProposalResponse list \<times> error option) \<times> trace"
where
  "SendSignedProposal E reqCtx proposal targets t =
     (case proposal of
        None \<Rightarrow> (([], Some (Errorf ''proposal is required'')), t)
      | Some sp \<Rightarrow>
          if length targets < 1 then (([], Some (Errorf ''targets is required'')), t)
          else if list_ex (\<lambda>p. p = None) targets then (([], Some (Errorf ''target is nil'')), t)
          else
            (let processors = map the (getTargetsWithoutDuplicates targets);
                 ans = batch_answer E reqCtx sp processors t;
                 ord = env_schedule E t (length processors)
             in ((successes ans ord, env_ToError E (failures ans ord)),
                 t @ map (\<lambda>p. ProcessTransactionProposal p sp) processors)))"

section \<open>BroadcastEnvelope\<close>

definition sendBroadcast ::
  "'z txn_env_scheme \<Rightarrow> reqctx \<Rightarrow> clientCtx \<Rightarrow> SignedEnvelope \<Rightarrow> orderer \<Rightarrow> trace \<Rightarrow>
   (error + TransactionResponse) \<times> trace"
where
  "sendBroadcast E reqCtx client envelope ord t =
     (let life = ForTimeoutType OrdererResponse;
          childCtx = RequestContextValue (Some client) life (Some reqCtx) None;
          t1 = t @ [NewRequest life];
          t2 = t1 @ [SendBroadcast ord envelope, CancelRequest life]
      in case env_SendBroadcast E t1 childCtx ord envelope of
           Some err \<Rightarrow>
             (Inl (Wrap (''calling orderer '' @ [CHR 0x27] @ orderer_URL ord @ [CHR 0x27] @ '' failed'') err), t2)
         | None \<Rightarrow> (Inr \<lparr>tr_Orderer = orderer_URL ord\<rparr>, t2))"

fun broadcast_loop ::
  "'z txn_env_scheme \<Rightarrow> reqctx \<Rightarrow> clientCtx \<Rightarrow> SignedEnvelope \<Rightarrow> orderer list \<Rightarrow> nat list \<Rightarrow> error option \<Rightarrow>
   trace \<Rightarrow> (TransactionResponse option \<times> error option) \<times> trace"
where
  "broadcast_loop E reqCtx client envelope ords [] errResp t = ((None, errResp), t)"
| "broadcast_loop E reqCtx client envelope ords (i # is) errResp t =
     (case sendBroadcast E reqCtx client envelope (ords ! i) t of
        (Inl err, t') \<Rightarrow> broadcast_loop E reqCtx client envelope ords is (Some err) t'
      | (Inr resp, t') \<Rightarrow> ((Some resp, None), t'))"

definition BroadcastEnvelope ::
  "'z txn_env_scheme \<Rightarrow> reqctx \<Rightarrow> SignedEnvelope \<Rightarrow> orderer list \<Rightarrow> trace \<Rightarrow>
   (TransactionResponse option \<times> error option) \<times> trace"
where
  "BroadcastEnvelope E reqCtx envelope ords t =
     (if length ords = 0 then ((None, Some (Errorf ''orderers not set'')), t)
      else (case RequestClientContext reqCtx of
        None \<Rightarrow> ((None, Some (Errorf ''failed get client context from reqContext for SendTransaction'')), t)
      | Some client \<Rightarrow>
          broadcast_loop E reqCtx client envelope ords (env_Perm E t (length ords)) None t))"

text \<open>
  The reference: the orderers in the order of the permutation, the trace before the \<open>j\<close>-th attempt
  when all earlier ones failed, and the answer of the \<open>j\<close>-th attempt there.
\<close>

definition attempt_calls :: "SignedEnvelope \<Rightarrow> orderer \<Rightarrow> call list" where
  "attempt_calls envelope ord =
     [NewRequest (ForTimeoutType OrdererResponse), SendBroadcast ord envelope,
      CancelRequest (ForTimeoutType OrdererResponse)]"

definition trace_before :: "SignedEnvelope \<Rightarrow> orderer list \<Rightarrow> trace \<Rightarrow> nat \<Rightarrow> trace" where
  "trace_before envelope seq t j = t @ concat (map (attempt_calls envelope) (take j seq))"

definition attempt_answer ::
  "'z txn_env_scheme \<Rightarrow> reqctx \<Rightarrow> clientCtx \<Rightarrow> SignedEnvelope \<Rightarrow> orderer list \<Rightarrow> trace \<Rightarrow> nat \<Rightarrow> error option"
where
  "attempt_answer E reqCtx client envelope seq t j =
     env_SendBroadcast E (trace_before envelope seq t j @ [NewRequest (ForTimeoutType OrdererResponse)])
       (RequestContextValue (Some client) (ForTimeoutType OrdererResponse) (Some reqCtx) None)
       (seq ! j) envelope"

definition orderer_error :: "orderer \<Rightarrow> error \<Rightarrow> error" where
  "orderer_error ord e =
     Wrap (''calling orderer '' @ [CHR 0x27] @ orderer_URL ord @ [CHR 0x27] @ '' failed'') e"

definition broadcast_spec ::
  "'z txn_env_scheme \<Rightarrow> reqctx \<Rightarrow> clientCtx \<Rightarrow> SignedEnvelope \<Rightarrow> orderer list \<Rightarrow> error option \<Rightarrow> trace \<Rightarrow>
   (TransactionResponse option \<times> error option) \<times> trace"
where
  "broadcast_spec E reqCtx client envelope seq e0 t =
     (case find (\<lambda>j. attempt_answer E reqCtx client envelope seq t j = None) [0..<length seq] of
        Some j \<Rightarrow> ((Some \<lparr>tr_Orderer = orderer_URL (seq ! j)\<rparr>, None), trace_before envelope seq t (Suc j))
      | None \<Rightarrow>
          ((None, if seq = [] then e0
                  else Some (orderer_error (last seq)
                    (the (attempt_answer E reqCtx client envelope seq t (length seq - 1))))),
           trace_before envelope seq t (length seq)))"

lemma find_shift:
  "find P [0..<Suc n] = (if P 0 then Some 0 else map_option Suc (find (\<lambda>j. P (Suc j)) [0..<n]))"
  by (simp add: upt_conv_Cons map_Suc_upt [symmetric] find_map del: upt_Suc)

lemma trace_before_Cons [simp]:
  "trace_before envelope seq t 0 = t"
  "trace_before envelope (ord # seq) t (Suc j) = trace_before envelope seq (t @ attempt_calls envelope ord) j"
  by (simp_all add: trace_before_def)

lemma attempt_answer_Suc [simp]:
  "attempt_answer E reqCtx client envelope (ord # seq) t (Suc j) =
     attempt_answer E reqCtx client envelope seq (t @ attempt_calls envelope ord) j"
  by (simp add: attempt_answer_def)

lemma sendBroadcast_eq:
  "sendBroadcast E reqCtx client envelope ord t =
     (case attempt_answer E reqCtx client envelope (ord # seq) t 0 of
        Some e \<Rightarrow> (Inl (orderer_error ord e), t @ attempt_calls envelope ord)
      | None \<Rightarrow> (Inr \<lparr>tr_Orderer = orderer_URL ord\<rparr>, t @ attempt_calls envelope ord))"
  by (simp add: sendBroadcast_def attempt_answer_def attempt_calls_def orderer_error_def Let_def
    split: option.splits)

lemma broadcast_spec_Cons:
  "broadcast_spec E reqCtx client envelope (ord # seq) e0 t =
     (case attempt_answer E reqCtx client envelope (ord # seq) t 0 of
        None \<Rightarrow> ((Some \<lparr>tr_Orderer = orderer_URL ord\<rparr>, None), t @ attempt_calls envelope ord)
      | Some e \<Rightarrow> broadcast_spec E reqCtx client envelope seq (Some (orderer_error ord e))
                   (t @ attempt_calls envelope ord))"
proof (cases "attempt_answer E reqCtx client envelope (ord # seq) t 0")
  case None
  then show ?thesis
    by (simp add: broadcast_spec_def find_shift trace_before_def del: upt_Suc)
next
  case (Some e)
  show ?thesis
  proof (cases seq)
    case Nil
    with Some show ?thesis by (simp add: broadcast_spec_def trace_before_def)
  next
    case (Cons ord' seq')
    let ?P = "\<lambda>j. attempt_answer E reqCtx client envelope seq (t @ attempt_calls envelope ord) j = None"
    have find_eq: "find (\<lambda>j. attempt_answer E reqCtx client envelope (ord # seq) t j = None)
        [0..<length (ord # seq)] = map_option Suc (find ?P [0..<length seq])"
      using Some by (simp add: find_shift del: upt_Suc)
    have last: "attempt_answer E reqCtx client envelope (ord # seq) t (length (ord # seq) - 1) =
        attempt_answer E reqCtx client envelope seq (t @ attempt_calls envelope ord) (length seq - 1)"
      using Cons by simp
    show ?thesis
      unfolding broadcast_spec_def find_eq last using Some Cons
      by (cases "find ?P [0..<length seq]") simp_all
  qed
qed

lemma broadcast_loop_eq:
  "broadcast_loop E reqCtx client envelope ords is e0 t =
     broadcast_spec E reqCtx client envelope (map ((!) ords) is) e0 t"
proof (induction "is" arbitrary: e0 t)
  case Nil
  show ?case by (simp add: broadcast_spec_def trace_before_def)
next
  case (Cons i "is")
  then show ?case
    by (simp add: broadcast_spec_Cons sendBroadcast_eq [where seq = "map ((!) ords) is"] split: option.splits)
qed

lemma BroadcastEnvelope_eq:
  assumes "ords \<noteq> []" and "RequestClientContext ctx = Some client"
  shows "BroadcastEnvelope E ctx envelope ords t =
     broadcast_spec E ctx client envelope (map ((!) ords) (env_Perm E t (length ords))) None t"
  using assms by (simp add: BroadcastEnvelope_def broadcast_loop_eq)

section \<open>Properties\<close>

text \<open>Example parameters: processors with an even object id answer, the others fail; orderer 7 accepts.\<close>

definition example_peer :: "nat \<Rightarrow> string \<Rightarrow> peer" where
  "example_peer n url = \<lparr>peer_id = n, URL = url, MSPID = ''Org1''\<rparr>"

definition example_answer :: "processor \<Rightarrow> answer" where
  "example_answer p = (case p of
     PeerProcessor q \<Rightarrow>
       (if even (peer_id q) then Inr \<lparr>tpr_Endorser = URL q, tpr_ChaincodeStatus = 200, tpr_ProposalResponse = None\<rparr>
        else Inl (External (peer_id q)))
   | OtherProcessor n \<Rightarrow> Inl (External n))"

definition example_txn_env :: txn_env where
  "example_txn_env = \<lparr>env_Process = (\<lambda>t c i p sp. example_answer p), env_schedule = (\<lambda>t n. rev [0..<n]),
     env_ToError = (\<lambda>es. case es of [] \<Rightarrow> None | e # _ \<Rightarrow> Some e),
     env_SendBroadcast = (\<lambda>t c ord env. if orderer_id ord = 7 then None else Some (External 5)),
     env_Perm = (\<lambda>t n. rev [0..<n])\<rparr>"

definition example_client :: clientCtx where
  "example_client = \<lparr>ctx_Serialize = Inr [1], ctx_GetHash = (\<lambda>b. b), ctx_Timeout = (\<lambda>tt. 30), ctx_ChannelConfig = (\<lambda>ch. Some []),
     ctx_OrdererConfig = (\<lambda>n. (Some \<lparr>oc_URL = n, oc_rest = 1\<rparr>, True, False)),
     ctx_OrderersConfig = [\<lparr>oc_URL = ''o1:7050'', oc_rest = 2\<rparr>],
     ctx_NetworkPeerConfig = (\<lambda>k. Inr \<lparr>pc_URL = k, pc_rest = 0\<rparr>),
     ctx_CreateOrdererFromConfig = (\<lambda>c. case c of None \<Rightarrow> Inl (External 2)
       | Some oc \<Rightarrow> Inr \<lparr>orderer_id = oc_rest oc, orderer_URL = oc_URL oc\<rparr>),
     ctx_CreatePeerFromConfig = (\<lambda>c. Inr (Some (example_peer 0 (pc_URL c))))\<rparr>"

definition example_ctx :: reqctx where
  "example_ctx = RequestContextValue (Some example_client) (ForDuration 5) None None"

definition example_sp :: SignedProposal where
  "example_sp = \<lparr>ProposalBytes = [1], sp_Signature = [2]\<rparr>"

definition example_targets :: "processor option list" where
  "example_targets = [Some (PeerProcessor (example_peer 0 ''a'')), Some (PeerProcessor (example_peer 1 ''b'')),
     Some (PeerProcessor (example_peer 2 ''a''))]"

definition example_envelope :: SignedEnvelope where
  "example_envelope = \<lparr>se_Payload = [1], se_Signature = [2]\<rparr>"

lemmas txn_example_defs = example_peer_def example_answer_def example_txn_env_def example_ctx_def
  example_sp_def example_targets_def example_envelope_def

lemma is_perm_rev [simp]: "is_perm (rev [0..<n]) n"
  by (auto simp: is_perm_def)

lemma example_txn_env_documented:
  "schedule_complete example_txn_env" "ToError_documented example_txn_env"
  "Perm_documented example_txn_env"
  by (auto simp: schedule_complete_def ToError_documented_def Perm_documented_def
    example_txn_env_def split: list.splits)

primrec is_peer_target :: "processor option \<Rightarrow> bool" where
  "is_peer_target None = False"
| "is_peer_target (Some p) = (case p of PeerProcessor q \<Rightarrow> True | OtherProcessor n \<Rightarrow> False)"

primrec target_url :: "processor option \<Rightarrow> string" where
  "target_url None = []"
| "target_url (Some p) = (case p of PeerProcessor q \<Rightarrow> URL q | OtherProcessor n \<Rightarrow> [])"

lemma is_peer_target_iff: "is_peer_target p \<longleftrightarrow> (\<exists>q. p = Some (PeerProcessor q))"
  by (cases p) (auto split: processor.splits)

lemma uniq_by_map: "uniq_by f (map g xs) = map g (uniq_by (\<lambda>x. f (g x)) xs)"
  by (induction xs) (auto simp: filter_map comp_def)

text \<open>
  C33: The duplicate elimination keeps, in order, the first target of every URL when all targets
  are peers, and returns the targets unchanged as soon as one of them is not a peer.
\<close>

theorem getTargetsWithoutDuplicates_result:
  "getTargetsWithoutDuplicates targets =
     (if list_all is_peer_target targets then uniq_by target_url targets else targets)"
proof (cases "list_all is_peer_target targets")
  case True
  then obtain ps where ps: "targets = map (\<lambda>p. Some (PeerProcessor p)) ps"
    using all_peers_map [of targets] by (auto simp: list_all_iff is_peer_target_iff)
  then have "uniq_by target_url targets = map (\<lambda>p. Some (PeerProcessor p)) (uniq_by URL ps)"
    by (simp add: uniq_by_map)
  with True ps show ?thesis by (simp add: getTargetsWithoutDuplicates_peers)
next
  case False
  then show ?thesis
    by (auto simp: list_all_iff is_peer_target_iff intro!: getTargetsWithoutDuplicates_other)
qed

text \<open>
  C5: In every reachable state of the goroutines at most one is between taking and releasing the
  mutex, no result has been lost or duplicated (the two slices hold exactly the answers of the
  goroutines that stored, in the order they stored), and the wait group counts the goroutines that
  have started and not finished.
\<close>

theorem send_goroutines_invariant:
  assumes "send_reach ans n s"
  shows "(\<forall>i j. i < n \<and> j < n \<and> critical (gos s ! i) \<and> critical (gos s ! j) \<longrightarrow> i = j)
    \<and> responses s = successes ans (appended s) \<and> errs s = failures ans (appended s)
    \<and> distinct (appended s) \<and> set (appended s) = {i. i < n \<and> has_stored (gos s ! i)}
    \<and> wg s = length (filter active (gos s))"
  using send_reach_inv [OF assms] send_inv_only_critical [OF send_reach_inv [OF assms]]
  by (auto simp: send_inv_def)

lemma send_goroutines_invariant_witness:
  "\<exists>s. send_reach (\<lambda>i. Inl (External i)) 2 s \<and> errs s = [External 1, External 0]
     \<and> distinct (appended s) \<and> wg s = length (filter active (gos s))"
proof -
  have r: "send_reach (\<lambda>i. Inl (External i)) 2 (mid_state (\<lambda>i. Inl (External i)) 2 [1, 0])"
    by (rule run_all) auto
  have "errs (mid_state (\<lambda>i. Inl (External i)) 2 [1, 0]) = [External 1, External 0]"
    by (simp add: mid_state_def)
  with r send_goroutines_invariant [OF r] show ?thesis by blast
qed

text \<open>
  C6: The goroutines never deadlock and always finish: from a reachable state a step is possible
  exactly when the function has not returned (so nothing touches the slices it returned), and
  every step decreases a measure that starts at
  \<open>7 * n + 1\<close>; so, when every processor call returns, the function returns after at most that
  many steps.
\<close>

theorem send_goroutines_terminate:
  assumes "send_reach ans n s"
  shows "(main s \<noteq> MainReturned \<longleftrightarrow> (\<exists>s'. send_step ans s s'))
    \<and> (\<forall>s'. send_step ans s s' \<longrightarrow> send_measure s' < send_measure s)
    \<and> send_measure (send_init n) = 7 * n + 1"
proof -
  have "send_measure (send_init n) = 7 * n + 1"
    by (simp add: send_measure_def send_init_def sum_list_replicate)
  then show ?thesis
    using send_progress send_returned_final send_step_measure send_reach_inv [OF assms] by blast
qed

lemma send_goroutines_terminate_witness:
  "\<exists>s'. send_step (\<lambda>i. Inl (External i)) (send_init 2) s' \<and> send_measure s' < 15"
proof -
  have r: "send_reach (\<lambda>i. Inl (External i)) 2 (send_init 2)" by (rule send_reach.init)
  have "main (send_init 2) \<noteq> MainReturned" by (simp add: send_init_def)
  with send_goroutines_terminate [OF r] show ?thesis by fastforce
qed

text \<open>
  C4: The sequential description of \<open>SendSignedProposal\<close> is exactly what the goroutines can do:
  its result is that of an execution of the goroutines to the end, and every execution to the end
  gives its result for some completion order.
\<close>

theorem SendSignedProposal_refines_goroutines:
  fixes E :: "'z txn_env_scheme"
  assumes "targets \<noteq> []" and "None \<notin> set targets"
    and "processors = map the (getTargetsWithoutDuplicates targets)"
    and "ans = batch_answer E ctx sp processors t"
    and "schedule_complete E"
  shows "(\<exists>s. send_reach ans (length processors) s \<and> main s = MainReturned \<and>
            fst (SendSignedProposal E ctx (Some sp) targets t) = (responses s, env_ToError E (errs s)))
    \<and> (\<forall>s. send_reach ans (length processors) s \<and> main s = MainReturned \<longrightarrow>
            (\<exists>ord. is_perm ord (length processors) \<and>
              fst (SendSignedProposal (E\<lparr>env_schedule := \<lambda>_ _. ord\<rparr>) ctx (Some sp) targets t) =
                (responses s, env_ToError E (errs s))))"
proof -
  have res: "fst (SendSignedProposal F ctx (Some sp) targets t) =
      (successes ans ord, env_ToError E (failures ans ord))"
    if "env_schedule F t (length processors) = ord" "env_Process F = env_Process E"
      "env_ToError F = env_ToError E" for F :: "'z txn_env_scheme" and ord
  proof -
    have "batch_answer F ctx sp processors t = ans"
      using that assms(4) by (auto simp: batch_answer_def)
    moreover have "\<not> list_ex (\<lambda>p. p = None) targets" using assms(2) by (auto simp: list_ex_iff)
    moreover have "\<not> length targets < 1" using assms(1) by (cases targets) auto
    ultimately show ?thesis using that(1,3) assms(3)
      by (simp add: SendSignedProposal_def Let_def)
  qed
  have perm: "is_perm (env_schedule E t (length processors)) (length processors)"
    using assms(5) by (simp add: schedule_complete_def)
  have "fst (SendSignedProposal E ctx (Some sp) targets t) =
      (successes ans (env_schedule E t (length processors)),
       env_ToError E (failures ans (env_schedule E t (length processors))))"
    by (rule res) simp_all
  moreover have "\<exists>ord. is_perm ord (length processors) \<and>
      fst (SendSignedProposal (E\<lparr>env_schedule := \<lambda>_ _. ord\<rparr>) ctx (Some sp) targets t) =
        (responses s, env_ToError E (errs s))"
    if run: "send_reach ans (length processors) s" "main s = MainReturned" for s
  proof -
    obtain ord where "is_perm ord (length processors)"
      "responses s = successes ans ord" "errs s = failures ans ord"
      using run_sound [OF run] by blast
    then show ?thesis using res [of "E\<lparr>env_schedule := \<lambda>_ _. ord\<rparr>" ord] by auto
  qed
  ultimately show ?thesis using run_complete [OF perm, of ans] by metis
qed

lemma SendSignedProposal_refines_goroutines_witness:
  "\<exists>s. send_reach (batch_answer example_txn_env example_ctx example_sp
           [PeerProcessor (example_peer 0 ''a''), PeerProcessor (example_peer 1 ''b'')] []) 2 s
     \<and> main s = MainReturned
     \<and> fst (SendSignedProposal example_txn_env example_ctx (Some example_sp) example_targets []) =
         (responses s, env_ToError example_txn_env (errs s))"
proof -
  have p: "[PeerProcessor (example_peer 0 ''a''), PeerProcessor (example_peer 1 ''b'')] =
      map the (getTargetsWithoutDuplicates example_targets)"
    by (simp add: getTargetsWithoutDuplicates_def txn_example_defs)
  show ?thesis
    using SendSignedProposal_refines_goroutines [of example_targets, OF _ _ p refl example_txn_env_documented(1),
      of example_ctx example_sp "[]"]
    by (simp add: example_targets_def numeral_2_eq_2)
qed

text \<open>The facts of a successful batch, for the callers of \<open>SendSignedProposal\<close>.\<close>

lemma SendSignedProposal_facts:
  assumes "targets \<noteq> []" and "None \<notin> set targets"
    and "schedule_complete E" and "ToError_documented E"
    and "processors = map the (getTargetsWithoutDuplicates targets)"
    and "SendSignedProposal E ctx (Some sp) targets t = ((resps, err), t')"
  shows "(err = None \<longleftrightarrow> (\<forall>i<length processors. \<exists>r. env_Process E t ctx i (processors ! i) sp = Inr r))
    \<and> mset resps = mset (successes (batch_answer E ctx sp processors t) [0..<length processors])
    \<and> (err = None \<longrightarrow> length resps = length processors)
    \<and> t' = t @ map (\<lambda>p. ProcessTransactionProposal p sp) processors"
proof -
  let ?ans = "batch_answer E ctx sp processors t"
  define ord where "ord = env_schedule E t (length processors)"
  have perm: "is_perm ord (length processors)"
    using assms(3) by (simp add: schedule_complete_def ord_def)
  have "\<not> list_ex (\<lambda>p. p = None) targets" and "\<not> length targets < 1"
    using assms(1,2) by (auto simp: list_ex_iff)
  then have eqs: "resps = successes ?ans ord" "err = env_ToError E (failures ?ans ord)"
      "t' = t @ map (\<lambda>p. ProcessTransactionProposal p sp) processors"
    using assms(5,6) by (auto simp: SendSignedProposal_def Let_def ord_def)
  have err: "err = None \<longleftrightarrow> failures ?ans ord = []"
    using assms(4) eqs by (simp add: ToError_documented_def)
  have "mset resps = mset (successes ?ans [0..<length processors])"
    using mset_successes [of ord "[0..<length processors]"] perm eqs by (simp add: is_perm_mset)
  moreover have "err = None \<longrightarrow> length resps = length processors"
    using err eqs successes_failures_length [of ?ans ord] is_perm_length [OF perm] by auto
  moreover have "err = None \<longleftrightarrow> (\<forall>i<length processors. \<exists>r. env_Process E t ctx i (processors ! i) sp = Inr r)"
    using err perm by (auto simp: failures_nil is_perm_def batch_answer_def)
  ultimately show ?thesis using eqs by blast
qed

text \<open>
  C7: What a caller may rely on, whatever the scheduler does: no error exactly when every
  processor asked gave a response; the responses are those given, each once, in some order; and each
  target left by the duplicate elimination is asked exactly once.
\<close>

theorem SendSignedProposal_result:
  assumes "targets \<noteq> []" and "None \<notin> set targets"
    and "schedule_complete E" and "ToError_documented E"
    and "processors = map the (getTargetsWithoutDuplicates targets)"
    and "SendSignedProposal E ctx (Some sp) targets t = ((resps, err), t')"
  shows "(err = None \<longleftrightarrow> (\<forall>i<length processors. \<exists>r. env_Process E t ctx i (processors ! i) sp = Inr r))
    \<and> mset resps = mset (successes (batch_answer E ctx sp processors t) [0..<length processors])
    \<and> (err = None \<longrightarrow> length resps = length processors)
    \<and> t' = t @ map (\<lambda>p. ProcessTransactionProposal p sp) processors"
  by (rule SendSignedProposal_facts [OF assms])

lemma SendSignedProposal_result_witness:
  "\<exists>resps err t'. SendSignedProposal example_txn_env example_ctx (Some example_sp) example_targets [] = ((resps, err), t')
     \<and> err \<noteq> None \<and> length t' = 2"
proof -
  have p: "[PeerProcessor (example_peer 0 ''a''), PeerProcessor (example_peer 1 ''b'')] =
      map the (getTargetsWithoutDuplicates example_targets)"
    by (simp add: getTargetsWithoutDuplicates_def txn_example_defs)
  obtain resps err t' where r:
    "SendSignedProposal example_txn_env example_ctx (Some example_sp) example_targets [] = ((resps, err), t')"
    by (metis surj_pair)
  note H = SendSignedProposal_result [OF _ _ example_txn_env_documented(1,2) p r]
  have "err \<noteq> None"
  proof
    assume "err = None"
    with H have "\<forall>i<2. \<exists>resp. env_Process example_txn_env [] example_ctx i
        ([PeerProcessor (example_peer 0 ''a''), PeerProcessor (example_peer 1 ''b'')] ! i) example_sp = Inr resp"
      by (simp add: example_targets_def numeral_2_eq_2)
    then have "\<exists>resp. env_Process example_txn_env [] example_ctx 1
        ([PeerProcessor (example_peer 0 ''a''), PeerProcessor (example_peer 1 ''b'')] ! 1) example_sp = Inr resp"
      by (rule allE [of _ 1]) simp
    then show False by (simp add: txn_example_defs)
  qed
  moreover have "length t' = 2" using H by (simp add: example_targets_def)
  ultimately show ?thesis using r by blast
qed

text \<open>
  A missing proposal, an empty target list or a nil target is refused with an error before
  anything is sent.
\<close>

lemma SendSignedProposal_rejects:
  assumes "proposal = None \<or> targets = [] \<or> None \<in> set targets"
  shows "\<exists>msg. SendSignedProposal E ctx proposal targets t = (([], Some (Errorf msg)), t)"
  using assms
  by (auto simp: SendSignedProposal_def list_ex_iff split: option.splits)

lemma SendSignedProposal_rejects_witness:
  "\<exists>msg. SendSignedProposal example_txn_env example_ctx (Some example_sp) [None] [] = (([], Some (Errorf msg)), [])"
  by (rule SendSignedProposal_rejects) simp

text \<open>
  C19: Broadcasting tries the orderers in the order of the permutation, one attempt each under its
  own context, stops at the first that accepts and reports that orderer, and reports the last
  orderer's error when all refuse.
\<close>

theorem BroadcastEnvelope_result:
  assumes "ords \<noteq> []" and "RequestClientContext ctx = Some client"
  shows "BroadcastEnvelope E ctx envelope ords t =
     broadcast_spec E ctx client envelope (map ((!) ords) (env_Perm E t (length ords))) None t"
  using assms by (rule BroadcastEnvelope_eq)

definition example_orderers :: "orderer list" where
  "example_orderers = [\<lparr>orderer_id = 7, orderer_URL = ''o7''\<rparr>, \<lparr>orderer_id = 8, orderer_URL = ''o8''\<rparr>]"

lemma BroadcastEnvelope_result_witness:
  "BroadcastEnvelope example_txn_env example_ctx example_envelope example_orderers [] =
     broadcast_spec example_txn_env example_ctx example_client example_envelope (rev example_orderers) None []"
proof -
  have "map ((!) example_orderers) (env_Perm example_txn_env [] (length example_orderers)) = rev example_orderers"
    by (simp add: example_orderers_def example_txn_env_def)
  then show ?thesis
    using BroadcastEnvelope_result [of example_orderers example_ctx example_client example_txn_env example_envelope "[]"]
    by (simp add: example_ctx_def example_orderers_def RequestClientContext_def)
qed

lemma perm_sequence_set:
  assumes "is_perm ps (length ords)"
  shows "set (map ((!) ords) ps) = set ords"
  using assms by (auto simp: is_perm_def in_set_conv_nth)

lemma one_orderer_suffices:
  assumes "Perm_documented E" and "RequestClientContext ctx = Some client"
    and "good \<in> set ords" and "\<And>t c. env_SendBroadcast E t c good envelope = None"
  shows "\<exists>ord t'. ord \<in> set ords \<and>
     BroadcastEnvelope E ctx envelope ords t = ((Some \<lparr>tr_Orderer = orderer_URL ord\<rparr>, None), t')"
proof -
  let ?ps = "env_Perm E t (length ords)"
  let ?seq = "map ((!) ords) ?ps"
  have perm: "is_perm ?ps (length ords)" using assms(1) by (simp add: Perm_documented_def)
  have "ords \<noteq> []" using assms(3) by auto
  obtain j where j: "j < length ?seq" "?seq ! j = good"
    using assms(3) perm_sequence_set [OF perm] by (metis in_set_conv_nth)
  then have "attempt_answer E ctx client envelope ?seq t j = None"
    using assms(4) by (simp add: attempt_answer_def)
  then obtain k where k: "find (\<lambda>j. attempt_answer E ctx client envelope ?seq t j = None) [0..<length ?seq] = Some k"
    using j(1)
    by (cases "find (\<lambda>j. attempt_answer E ctx client envelope ?seq t j = None) [0..<length ?seq]")
      (auto simp: find_None_iff simp del: length_map)
  then have "k < length ?seq" by (auto simp: find_Some_iff)
  then have "?seq ! k \<in> set ords" using perm_sequence_set [OF perm] nth_mem by metis
  moreover have "broadcast_spec E ctx client envelope ?seq None t =
      ((Some \<lparr>tr_Orderer = orderer_URL (?seq ! k)\<rparr>, None), trace_before envelope ?seq t (Suc k))"
    unfolding broadcast_spec_def k by simp
  ultimately show ?thesis
    using BroadcastEnvelope_eq [OF \<open>ords \<noteq> []\<close> assms(2), of E envelope t] by metis
qed

text \<open>
  C20: One orderer that accepts whenever it is asked is enough: the broadcast then succeeds, and
  the orderer reported is one of those configured. Exactly one of response and error is returned.
\<close>

theorem BroadcastEnvelope_one_orderer_suffices:
  assumes "Perm_documented E" and "RequestClientContext ctx = Some client"
    and "good \<in> set ords" and "\<And>t c. env_SendBroadcast E t c good envelope = None"
  shows "\<exists>ord t'. ord \<in> set ords \<and>
     BroadcastEnvelope E ctx envelope ords t = ((Some \<lparr>tr_Orderer = orderer_URL ord\<rparr>, None), t')"
  using assms by (rule one_orderer_suffices)

lemma BroadcastEnvelope_one_orderer_suffices_witness:
  "\<exists>ord t'. ord \<in> set example_orderers \<and>
     BroadcastEnvelope example_txn_env example_ctx example_envelope example_orderers [] =
       ((Some \<lparr>tr_Orderer = orderer_URL ord\<rparr>, None), t')"
  by (rule BroadcastEnvelope_one_orderer_suffices [OF example_txn_env_documented(3), where good = "\<lparr>orderer_id = 7, orderer_URL = ''o7''\<rparr>" and client = example_client])
    (auto simp: example_orderers_def example_txn_env_def example_ctx_def RequestClientContext_def)

end
