(* ===== verification/Transactor.thy ===== *)
theory Transactor
  imports Prelude Fabric_Types Txn
begin

text \<open>
  \<open>pkg/fab/channel/transactor.go\<close>: the delegate transactor, which orderers it uses and what it
  forwards to the package \<open>txn\<close>; and \<open>pkg/fabsdk/provider/chpvdr/chprovider.go\<close>, the channel
  provider and service that hand it out. The dynamic type of a \<open>fab.Transactor\<close>, which the handlers and
  the client assert, is the constructor of \<open>fab_Transactor\<close>.
\<close>

section \<open>The orderers of a channel\<close>

text \<open>
  \<open>strings.ToLower\<close>: ASCII strings are mapped byte by byte, any other string by the Unicode tables, a
  parameter.
\<close>

definition ToLowerASCII :: "string \<Rightarrow> string" where
  "ToLowerASCII = map (\<lambda>c. let n = (of_char c :: nat) in if 65 \<le> n \<and> n \<le> 90 then char_of (n + 32) else c)"

definition ToLower :: "'z transactor_env_scheme \<Rightarrow> string \<Rightarrow> string" where
  "ToLower E s = (if list_all (\<lambda>c. (of_char c :: nat) < 128) s then ToLowerASCII s else env_ToLowerUnicode E s)"

definition createOrderer :: "clientCtx \<Rightarrow> OrdererConfig option \<Rightarrow> orderer result" where
  "createOrderer ctx oCfg =
     (case ctx_CreateOrdererFromConfig ctx oCfg of
        Inl err \<Rightarrow> Err (Wrap ''failed to create orderer from config'' err)
      | Inr ord \<Rightarrow> Ok ord)"

fun orderersFromChannel_loop :: "clientCtx \<Rightarrow> orderer list \<Rightarrow> string list \<Rightarrow> orderer list result" where
  "orderersFromChannel_loop ctx orderers [] = Ok orderers"
| "orderersFromChannel_loop ctx orderers (chOrderer # rest) =
     (case ctx_OrdererConfig ctx chOrderer of (ordererConfig, found, ignoreOrderer) \<Rightarrow>
        if \<not> found \<or> ignoreOrderer then orderersFromChannel_loop ctx orderers rest
        else bindR (createOrderer ctx ordererConfig)
               (\<lambda>ord. orderersFromChannel_loop ctx (orderers @ [ord]) rest))"

definition orderersFromChannel :: "clientCtx \<Rightarrow> string \<Rightarrow> orderer list result" where
  "orderersFromChannel ctx channelID =
     bindR (deref (ctx_ChannelConfig ctx channelID)) (orderersFromChannel_loop ctx [])"

fun orderersByTarget_loop ::
  "'z transactor_env_scheme \<Rightarrow> (string \<rightharpoonup> OrdererConfig) \<Rightarrow> OrdererConfig list \<Rightarrow> (string \<rightharpoonup> OrdererConfig)"
where
  "orderersByTarget_loop E ordererDict [] = ordererDict"
| "orderersByTarget_loop E ordererDict (oc # ocs) =
     orderersByTarget_loop E (ordererDict(env_ToAddress E (oc_URL oc) \<mapsto> oc)) ocs"

definition orderersByTarget :: "'z transactor_env_scheme \<Rightarrow> clientCtx \<Rightarrow> (string \<rightharpoonup> OrdererConfig)" where
  "orderersByTarget E ctx = orderersByTarget_loop E Map.empty (ctx_OrderersConfig ctx)"

fun orderersFromChannelCfg_loop ::
  "'z transactor_env_scheme \<Rightarrow> clientCtx \<Rightarrow> (string \<rightharpoonup> OrdererConfig) \<Rightarrow> orderer list \<Rightarrow> string list \<Rightarrow>
   orderer list result"
where
  "orderersFromChannelCfg_loop E ctx ordererDict orderers [] = Ok orderers"
| "orderersFromChannelCfg_loop E ctx ordererDict orderers (target # rest) =
     (case ordererDict target of
        Some oCfg \<Rightarrow>
          bindR (createOrderer ctx (Some oCfg))
            (\<lambda>ord. orderersFromChannelCfg_loop E ctx ordererDict (orderers @ [ord]) rest)
      | None \<Rightarrow>
          (case ctx_OrdererConfig ctx (ToLower E target) of (matchingOrdererConfig, found, ignore) \<Rightarrow>
             if ignore then orderersFromChannelCfg_loop E ctx ordererDict orderers rest
             else bindR (if found then deref matchingOrdererConfig else Ok \<lparr>oc_URL = target, oc_rest = 0\<rparr>)
               (\<lambda>oCfg. bindR (createOrderer ctx (Some oCfg))
               (\<lambda>ord. orderersFromChannelCfg_loop E ctx ordererDict (orderers @ [ord]) rest))))"

definition orderersFromChannelCfg ::
  "'z transactor_env_scheme \<Rightarrow> clientCtx \<Rightarrow> ChannelCfg \<Rightarrow> orderer list result"
where
  "orderersFromChannelCfg E ctx cfg =
     bindR (orderersFromChannel ctx (cfg_ID cfg)) (\<lambda>orderers.
       if length orderers > 0 then Ok orderers
       else orderersFromChannelCfg_loop E ctx (orderersByTarget E ctx) orderers (cfg_Orderers cfg))"

section \<open>The transactor\<close>

record Transactor =
  t_ChannelID :: string
  t_reqCtx :: reqctx
  t_orderers :: "orderer list"

definition NewTransactor ::
  "'z transactor_env_scheme \<Rightarrow> reqctx \<Rightarrow> ChannelCfg \<Rightarrow> Transactor result"
where
  "NewTransactor E reqCtx cfg =
     (case RequestClientContext reqCtx of
        None \<Rightarrow> Err (Errorf ''failed get client context from reqContext for create new transactor'')
      | Some ctx \<Rightarrow>
          bindR (wrapR ''reading orderers from channel config failed'' (orderersFromChannelCfg E ctx cfg))
            (\<lambda>orderers. Ok \<lparr>t_ChannelID = cfg_ID cfg, t_reqCtx = reqCtx, t_orderers = orderers\<rparr>))"

definition Transactor_CreateTransactionHeader ::
  "'z transactor_env_scheme \<Rightarrow> Transactor \<Rightarrow> nat list \<Rightarrow> trace \<Rightarrow> TransactionHeader result \<times> trace"
where
  "Transactor_CreateTransactionHeader E t opts tr =
     (case RequestClientContext (t_reqCtx t) of
        None \<Rightarrow> (Err (Errorf ''failed get client context from reqContext for txn Header''), tr)
      | Some ctx \<Rightarrow>
          ((case env_NewHeader E tr (headerCtx.truncate ctx) (t_ChannelID t) opts of
              Inl err \<Rightarrow> Err (Wrap ''new transaction ID failed'' err)
            | Inr txh \<Rightarrow> Ok txh),
           tr @ [NewTransactionHeader (t_ChannelID t)]))"

definition Transactor_SendTransactionProposal ::
  "'z transactor_env_scheme \<Rightarrow> Transactor \<Rightarrow> TransactionProposal \<Rightarrow> processor option list \<Rightarrow> trace \<Rightarrow>
   (TransactionProposalResponse list \<times> error option) \<times> trace"
where
  "Transactor_SendTransactionProposal E t proposal targets tr =
     (case RequestClientContext (t_reqCtx t) of
        None \<Rightarrow> (([], Some (Errorf ''failed get client context from reqContext for SendTransactionProposal'')), tr)
      | Some ctx \<Rightarrow>
          (let life = ForTimeoutType PeerResponse;
               reqCtx = RequestContextValue (Some ctx) life (Some (t_reqCtx t)) None;
               tr1 = tr @ [NewRequest life]
           in (env_SendProposal E tr1 reqCtx proposal targets,
               tr1 @ [SdkSendProposal proposal targets, CancelRequest life])))"

definition Transactor_CreateTransaction ::
  "'z transactor_env_scheme \<Rightarrow> Transactor \<Rightarrow> TransactionRequest \<Rightarrow> error + Transaction"
where
  "Transactor_CreateTransaction E t request = env_NewTransaction E request"

definition Transactor_SendTransaction ::
  "'z transactor_env_scheme \<Rightarrow> Transactor \<Rightarrow> Transaction \<Rightarrow> trace \<Rightarrow> (error + TransactionResponse) \<times> trace"
where
  "Transactor_SendTransaction E t tx tr =
     (env_SendTransaction E tr (t_reqCtx t) tx (t_orderers t), tr @ [SdkSendTransaction tx])"

definition Transactor_SendSignedProposal ::
  "'z transactor_env_scheme \<Rightarrow> Transactor \<Rightarrow> SignedProposal option \<Rightarrow> processor option list \<Rightarrow> trace \<Rightarrow>
   (TransactionProposalResponse list \<times> error option) \<times> trace"
where
  "Transactor_SendSignedProposal E t proposal targets tr =
     (case RequestClientContext (t_reqCtx t) of
        None \<Rightarrow> (([], Some (Errorf ''failed get client context from reqContext for SendSignedProposal'')), tr)
      | Some ctx \<Rightarrow>
          (let life = ForTimeoutType PeerResponse;
               reqCtx = RequestContextValue (Some ctx) life (Some (t_reqCtx t)) None
           in case SendSignedProposal E reqCtx proposal targets (tr @ [NewRequest life]) of
                (res, tr') \<Rightarrow> (res, tr' @ [CancelRequest life])))"

definition Transactor_BroadcastEnvelope ::
  "'z transactor_env_scheme \<Rightarrow> Transactor \<Rightarrow> SignedEnvelope \<Rightarrow> trace \<Rightarrow>
   (TransactionResponse option \<times> error option) \<times> trace"
where
  "Transactor_BroadcastEnvelope E t envelope tr =
     BroadcastEnvelope E (t_reqCtx t) envelope (t_orderers t) tr"

section \<open>Channel provider and channel service\<close>

datatype fab_Transactor = DelegateTransactor Transactor | OtherTransactor nat

text \<open>The SDK's own channel service, by the answers of the methods the repository calls.\<close>

record sdk_ChannelService =
  svc_ChannelConfig :: "error + ChannelCfg"
  svc_Transactor :: "reqctx \<Rightarrow> error + fab_Transactor"
  svc_Selection :: "error option"
  svc_Discovery :: "error option"
  svc_EventService :: "error option"

datatype fab_ChannelService =
    SdkChannelService sdk_ChannelService
  | ChannelService sdk_ChannelService

definition ChannelProvider_ChannelService ::
  "(clientCtx \<Rightarrow> string \<Rightarrow> error + sdk_ChannelService) \<Rightarrow> clientCtx \<Rightarrow> string \<Rightarrow> fab_ChannelService result"
where
  "ChannelProvider_ChannelService provider ctx channelID =
     (case provider ctx channelID of
        Inl err \<Rightarrow> Err err
      | Inr cs \<Rightarrow> Ok (ChannelService cs))"

text \<open>Dispatch of \<open>Transactor\<close>: the repository's service overrides it, the SDK's own keeps it.\<close>

definition ChannelService_Transactor ::
  "'z transactor_env_scheme \<Rightarrow> fab_ChannelService \<Rightarrow> reqctx \<Rightarrow> fab_Transactor result"
where
  "ChannelService_Transactor E svc reqCtx =
     (case svc of
        ChannelService cs \<Rightarrow>
          (case svc_ChannelConfig cs of
             Inl err \<Rightarrow> Err err
           | Inr cfg \<Rightarrow> bindR (NewTransactor E reqCtx cfg) (\<lambda>t. Ok (DelegateTransactor t)))
      | SdkChannelService cs \<Rightarrow>
          (case svc_Transactor cs reqCtx of Inl err \<Rightarrow> Err err | Inr t \<Rightarrow> Ok t))"

section \<open>Lemmas\<close>

lemma orderersByTarget_loop_eq:
  "orderersByTarget_loop E dict ocs =
     dict ++ map_of (rev (map (\<lambda>oc. (env_ToAddress E (oc_URL oc), oc)) ocs))"
proof (induction ocs arbitrary: dict)
  case (Cons oc ocs)
  have "dict(k \<mapsto> oc) ++ m = dict ++ ([k \<mapsto> oc] ++ m)" for k m
    by (rule ext) (simp add: map_add_def split: option.splits)
  with Cons show ?case by (simp del: fun_upd_apply)
qed simp

text \<open>The configuration a target of the channel configuration resolves to; ignored ones to none.\<close>

definition resolveOrderer ::
  "'z transactor_env_scheme \<Rightarrow> (string \<rightharpoonup> OrdererConfig) \<Rightarrow> clientCtx \<Rightarrow> string \<Rightarrow> OrdererConfig list"
where
  "resolveOrderer E dict ctx target =
     (case dict target of
        Some oc \<Rightarrow> [oc]
      | None \<Rightarrow>
          (case ctx_OrdererConfig ctx (ToLower E target) of
             (_, _, True) \<Rightarrow> []
           | (Some oc, True, False) \<Rightarrow> [oc]
           | _ \<Rightarrow> [\<lparr>oc_URL = target, oc_rest = 0\<rparr>]))"

definition found_configs_present :: "clientCtx \<Rightarrow> bool" where
  "found_configs_present ctx \<longleftrightarrow>
     (\<forall>name c ignore. ctx_OrdererConfig ctx name = (c, True, ignore) \<longrightarrow> c \<noteq> None)"

lemma orderersFromChannelCfg_loop_eq:
  assumes "found_configs_present ctx"
  shows "orderersFromChannelCfg_loop E ctx dict acc targets =
     append_loop (\<lambda>oc. createOrderer ctx (Some oc)) acc (concat (map (resolveOrderer E dict ctx) targets))"
proof (induction targets arbitrary: acc)
  case (Cons target rest)
  obtain c found ignore where cfg: "ctx_OrdererConfig ctx (ToLower E target) = (c, found, ignore)"
    by (metis prod_cases3)
  with assms have "found \<Longrightarrow> \<exists>oc. c = Some oc" by (auto simp: found_configs_present_def)
  with cfg show ?case
    by (cases "dict target"; cases found; cases ignore; cases c)
      (auto simp: resolveOrderer_def Cons.IH split: result.splits)
qed simp

section \<open>The interface to handlers and client\<close>

text \<open>
  What a handler relies on when it sends a signed proposal: only the given proposal goes out, only to
  the given targets, nothing else is done beside opening request contexts, every one of which is
  cancelled, and an invalid request is an error.
\<close>

locale proposal_sender =
  fixes send :: "SignedProposal option \<Rightarrow> processor option list \<Rightarrow> trace \<Rightarrow>
    (TransactionProposalResponse list \<times> error option) \<times> trace"
  assumes send_extends: "\<exists>cs. snd (send p ts t) = t @ cs \<and> list_all (send_call p ts) cs \<and> balanced cs"
    and send_invalid: "p = None \<or> ts = [] \<or> None \<in> set ts \<Longrightarrow> snd (fst (send p ts t)) \<noteq> None"
begin

lemma sendE:
  obtains rs err cs where "send p ts t = ((rs, err), t @ cs)"
    and "list_all (send_call p ts) cs" and "balanced cs"
  using send_extends [of p ts t] by (metis prod.collapse)

lemma send_ok_valid:
  "send p ts t = ((rs, None), t') \<Longrightarrow> p \<noteq> None \<and> ts \<noteq> [] \<and> None \<notin> set ts"
  using send_invalid [of p ts t] by (metis fst_conv snd_conv)

lemma two_rounds:
  assumes "send p ts t = (r1, t1)" and "send p us t1 = (r2, t2)"
  shows "\<exists>cs. t2 = t @ cs \<and> list_all (handler_call p) cs \<and> balanced cs"
proof -
  obtain cs where cs: "t1 = t @ cs" "list_all (send_call p ts) cs" "balanced cs"
    using send_extends [of p ts t] assms(1) by auto
  obtain ds where ds: "t2 = t1 @ ds" "list_all (send_call p us) ds" "balanced ds"
    using send_extends [of p us t1] assms(2) by auto
  have "list_all (handler_call p) (cs @ ds)"
    using cs(2) ds(2) by (auto simp: list_all_iff intro: send_call_handler)
  with cs ds show ?thesis
    by (intro exI [of _ "cs @ ds"]) (auto intro: balanced_append)
qed

end

text \<open>
  What the client relies on when it broadcasts: a response comes without error and from an orderer
  that was sent the envelope, only this envelope goes out, nothing else is done beside opening request
  contexts, and every one of these is cancelled.
\<close>

locale envelope_sender =
  fixes broadcast :: "SignedEnvelope \<Rightarrow> trace \<Rightarrow> (TransactionResponse option \<times> error option) \<times> trace"
  assumes broadcast_extends: "\<exists>cs. snd (broadcast env t) = t @ cs \<and>
      list_all (broadcast_call env) cs \<and> balanced cs \<and>
      (\<forall>r. fst (fst (broadcast env t)) = Some r \<longrightarrow>
         (\<exists>ord. SendBroadcast ord env \<in> set cs \<and> tr_Orderer r = orderer_URL ord))"
    and broadcast_excl: "fst (fst (broadcast env t)) = Some r \<Longrightarrow> snd (fst (broadcast env t)) = None"
begin

lemma broadcastE:
  obtains resp err cs where "broadcast env t = ((resp, err), t @ cs)"
    and "list_all (broadcast_call env) cs" and "balanced cs"
  using broadcast_extends [of env t] by (metis prod.collapse)

lemma broadcast_error_no_response:
  "broadcast env t = ((resp, Some e), t') \<Longrightarrow> resp = None"
  using broadcast_excl [of env t] by (cases resp) auto

end

lemma SendSignedProposal_calls:
  "\<exists>cs. snd (SendSignedProposal E ctx p ts t) = t @ cs \<and> list_all (send_call p ts) cs \<and> balanced cs"
proof (cases "p = None \<or> ts = [] \<or> None \<in> set ts")
  case True
  then have "snd (SendSignedProposal E ctx p ts t) = t"
    by (auto simp: SendSignedProposal_def list_ex_iff split: option.splits)
  then show ?thesis by simp
next
  case False
  then obtain sp where sp: "p = Some sp" by auto
  let ?ps = "map the (getTargetsWithoutDuplicates ts)"
  let ?cs = "map (\<lambda>q. ProcessTransactionProposal q sp) ?ps"
  have "snd (SendSignedProposal E ctx p ts t) = t @ ?cs"
    using False sp by (auto simp: SendSignedProposal_def Let_def list_ex_iff Suc_le_eq)
  moreover have "list_all (send_call p ts) ?cs"
  proof -
    have "Some (the x) \<in> set ts" if "x \<in> set (getTargetsWithoutDuplicates ts)" for x
    proof -
      have "x \<in> set ts" using that set_getTargets [of ts] by blast
      moreover from this False have "x \<noteq> None" by metis
      ultimately show ?thesis by (metis option.collapse)
    qed
    then show ?thesis using sp by (auto simp: list_all_iff)
  qed
  ultimately show ?thesis
    by (intro exI [of _ ?cs]) (auto intro!: balanced_other)
qed

interpretation gateway: proposal_sender "Transactor_SendSignedProposal E tr" for E tr
proof
  fix p ts t
  let ?life = "ForTimeoutType PeerResponse"
  show "\<exists>cs. snd (Transactor_SendSignedProposal E tr p ts t) = t @ cs \<and>
      list_all (send_call p ts) cs \<and> balanced cs"
  proof (cases "RequestClientContext (t_reqCtx tr)")
    case None
    then show ?thesis by (simp add: Transactor_SendSignedProposal_def)
  next
    case (Some ctx)
    define reqCtx where "reqCtx = RequestContextValue (Some ctx) ?life (Some (t_reqCtx tr)) None"
    obtain cs where cs: "snd (SendSignedProposal E reqCtx p ts (t @ [NewRequest ?life])) = (t @ [NewRequest ?life]) @ cs"
      "list_all (send_call p ts) cs" "balanced cs"
      using SendSignedProposal_calls by blast
    then have "snd (Transactor_SendSignedProposal E tr p ts t) = t @ (NewRequest ?life # cs @ [CancelRequest ?life])"
      using Some by (simp add: Transactor_SendSignedProposal_def Let_def reqCtx_def case_prod_beta)
    with cs show ?thesis
      by (intro exI [of _ "NewRequest ?life # cs @ [CancelRequest ?life]"])
        (auto intro!: balanced_bracket)
  qed
  assume "p = None \<or> ts = [] \<or> None \<in> set ts"
  then show "snd (fst (Transactor_SendSignedProposal E tr p ts t)) \<noteq> None"
    by (auto simp: Transactor_SendSignedProposal_def SendSignedProposal_def Let_def list_ex_iff
      split: option.splits prod.splits)
qed

lemma attempts_facts:
  fixes env :: SignedEnvelope and ords :: "orderer list"
  defines "cs \<equiv> concat (map (attempt_calls env) ords)"
  shows "balanced cs" and "list_all (broadcast_call env) cs"
    and "ord \<in> set ords \<Longrightarrow> SendBroadcast ord env \<in> set cs"
  unfolding cs_def
  by (induction ords) (auto simp: attempt_calls_def balanced_def)

interpretation sink: envelope_sender "Transactor_BroadcastEnvelope E tr" for E tr
proof
  fix env t
  let ?b = "Transactor_BroadcastEnvelope E tr env t"
  have spec: "?b = broadcast_spec E (t_reqCtx tr) client env
        (map ((!) (t_orderers tr)) (env_Perm E t (length (t_orderers tr)))) None t"
    if "t_orderers tr \<noteq> []" "RequestClientContext (t_reqCtx tr) = Some client" for client
    using that by (simp add: Transactor_BroadcastEnvelope_def BroadcastEnvelope_eq)
  show "\<exists>cs. snd ?b = t @ cs \<and> list_all (broadcast_call env) cs \<and> balanced cs \<and>
      (\<forall>r. fst (fst ?b) = Some r \<longrightarrow> (\<exists>ord. SendBroadcast ord env \<in> set cs \<and> tr_Orderer r = orderer_URL ord))"
  proof (cases "t_orderers tr = [] \<or> RequestClientContext (t_reqCtx tr) = None")
    case True
    then show ?thesis
      by (auto simp: Transactor_BroadcastEnvelope_def BroadcastEnvelope_def)
  next
    case False
    then obtain client where c: "RequestClientContext (t_reqCtx tr) = Some client" by auto
    define seq where "seq = map ((!) (t_orderers tr)) (env_Perm E t (length (t_orderers tr)))"
    define P where "P = (\<lambda>j. attempt_answer E (t_reqCtx tr) client env seq t j = None)"
    have b: "?b = broadcast_spec E (t_reqCtx tr) client env seq None t"
      using spec c False by (simp add: seq_def)
    show ?thesis
    proof (cases "find P [0..<length seq]")
      case (Some j)
      then have "j < length seq" by (auto simp: find_Some_iff)
      then have "seq ! j \<in> set (take (Suc j) seq)" by (simp add: take_Suc_conv_app_nth)
      moreover have "?b = ((Some \<lparr>tr_Orderer = orderer_URL (seq ! j)\<rparr>, None), trace_before env seq t (Suc j))"
        using Some unfolding b broadcast_spec_def P_def by simp
      ultimately show ?thesis
        using attempts_facts(1,2) [where env = env and ords = "take (Suc j) seq"]
          attempts_facts(3) [where env = env and ords = "take (Suc j) seq" and ord = "seq ! j"]
        by (intro exI [of _ "concat (map (attempt_calls env) (take (Suc j) seq))"]) (auto simp: trace_before_def)
    next
      case None
      then have "fst (fst ?b) = None" "snd ?b = trace_before env seq t (length seq)"
        unfolding b broadcast_spec_def P_def by simp_all
      then show ?thesis using attempts_facts [where env = env and ords = seq] by (auto simp: trace_before_def)
    qed
  qed
  fix r
  assume "fst (fst ?b) = Some r"
  then show "snd (fst ?b) = None"
    by (auto simp: Transactor_BroadcastEnvelope_def BroadcastEnvelope_def broadcast_loop_eq
        broadcast_spec_def split: option.splits if_splits)
qed

lemma createOrderer_no_Panic: "createOrderer ctx oc \<noteq> Panic"
  by (simp add: createOrderer_def split: sum.splits)

text \<open>An orderer of the channel counts when the client has its configuration and does not ignore it.\<close>

definition enabled_orderer :: "clientCtx \<Rightarrow> string \<Rightarrow> bool" where
  "enabled_orderer ctx name =
     (case ctx_OrdererConfig ctx name of (_, found, ignore) \<Rightarrow> found \<and> \<not> ignore)"

lemma orderersFromChannel_loop_eq:
  "orderersFromChannel_loop ctx acc names =
     append_loop (\<lambda>name. createOrderer ctx (fst (ctx_OrdererConfig ctx name))) acc
       (filter (enabled_orderer ctx) names)"
proof (induction names arbitrary: acc)
  case (Cons name rest)
  obtain oc found ignore where "ctx_OrdererConfig ctx name = (oc, found, ignore)" by (metis prod_cases3)
  then show ?case
    by (cases "createOrderer ctx oc") (simp_all add: Cons.IH enabled_orderer_def)
qed simp

lemma orderersFromChannel_loop_no_Panic: "orderersFromChannel_loop ctx acc names \<noteq> Panic"
  by (simp add: orderersFromChannel_loop_eq append_loop_no_Panic createOrderer_no_Panic)

section \<open>Properties\<close>

text \<open>
  C26: The orderers of a channel. Those the client configures for the channel itself win; without
  any, each target of the channel configuration is taken in order, with the client's orderer entry for
  that address (the last entry if several share it), else the matching entry for the lower-cased
  target, else a bare configuration for the target, and is left out only when the client ignores it.
\<close>

theorem orderersFromChannelCfg_result:
  assumes "found_configs_present ctx"
  shows "orderersFromChannelCfg E ctx cfg =
     bindR (deref (ctx_ChannelConfig ctx (cfg_ID cfg))) (\<lambda>names.
     bindR (append_loop (\<lambda>name. createOrderer ctx (fst (ctx_OrdererConfig ctx name))) []
              (filter (enabled_orderer ctx) names)) (\<lambda>own.
       if own \<noteq> [] then Ok own
       else append_loop (\<lambda>oc. createOrderer ctx (Some oc)) []
         (concat (map (resolveOrderer E
            (map_of (rev (map (\<lambda>oc. (env_ToAddress E (oc_URL oc), oc)) (ctx_OrderersConfig ctx)))) ctx)
            (cfg_Orderers cfg)))))"
proof (cases "ctx_ChannelConfig ctx (cfg_ID cfg)")
  case (Some names)
  then show ?thesis
    by (cases "append_loop (\<lambda>name. createOrderer ctx (fst (ctx_OrdererConfig ctx name))) []
              (filter (enabled_orderer ctx) names)")
      (simp_all add: orderersFromChannelCfg_def orderersFromChannel_def orderersFromChannel_loop_eq
        orderersFromChannelCfg_loop_eq [OF assms] orderersByTarget_def orderersByTarget_loop_eq)
qed (simp add: orderersFromChannelCfg_def orderersFromChannel_def)

text \<open>
  A client with two orderer entries for one address, an ignored orderer and one that is matched by
  its lower-cased name.
\<close>

definition orderer_client :: clientCtx where
  "orderer_client = example_client\<lparr>
     ctx_ChannelConfig := (\<lambda>ch. if ch = ''nochannel'' then None else Some [''absent'']),
     ctx_OrdererConfig := (\<lambda>name. if name = ''off'' then (None, False, True)
        else if name = ''big'' then (Some \<lparr>oc_URL = ''big:7050'', oc_rest = 5\<rparr>, True, False)
        else (None, False, False)),
     ctx_OrderersConfig := [\<lparr>oc_URL = ''o1'', oc_rest = 1\<rparr>, \<lparr>oc_URL = ''o1'', oc_rest = 2\<rparr>],
     ctx_CreateOrdererFromConfig := (\<lambda>oc. case oc of None \<Rightarrow> Inl (External 1)
        | Some c \<Rightarrow> Inr \<lparr>orderer_id = oc_rest c, orderer_URL = oc_URL c\<rparr>)\<rparr>"

definition example_transactor_env :: transactor_env where
  "example_transactor_env = txn_env.extend example_txn_env \<lparr>env_ToAddress = (\<lambda>u. u),
     env_ToLowerUnicode = (\<lambda>s. s),
     env_NewHeader = (\<lambda>t c ch opts. Inr \<lparr>th_TransactionID = ch, th_Creator = [], th_rest = 0\<rparr>),
     env_NewTransaction = (\<lambda>r. Inr \<lparr>tx_Transaction = TransactionMessage 3\<rparr>),
     env_SendProposal = (\<lambda>t c p ts. ([], None)),
     env_SendTransaction = (\<lambda>t c tx os. Inl (External 0))\<rparr>"

definition example_cfg :: ChannelCfg where
  "example_cfg = \<lparr>cfg_ID = ''ch'', cfg_Orderers = [''o1'', ''OFF'', ''Big'', ''other'']\<rparr>"

lemma ToLowerASCII_examples:
  "ToLowerASCII ''OFF'' = ''off''" "ToLowerASCII ''Big'' = ''big''" "ToLowerASCII ''other'' = ''other''"
  "ToLowerASCII ''o1'' = ''o1''"
  by code_simp+

lemma ToLower_examples [simp]:
  "ToLower E ''OFF'' = ''off''" "ToLower E ''Big'' = ''big''" "ToLower E ''other'' = ''other''"
  "ToLower E ''o1'' = ''o1''"
  by (simp_all add: ToLower_def ToLowerASCII_examples)

lemma orderer_client_facts:
  "found_configs_present orderer_client"
  unfolding found_configs_present_def by (auto simp: orderer_client_def split: if_splits)

lemma orderersFromChannelCfg_result_witness:
  "orderersFromChannelCfg example_transactor_env orderer_client example_cfg =
     Ok [\<lparr>orderer_id = 2, orderer_URL = ''o1''\<rparr>, \<lparr>orderer_id = 5, orderer_URL = ''big:7050''\<rparr>,
         \<lparr>orderer_id = 0, orderer_URL = ''other''\<rparr>]"
  unfolding orderersFromChannelCfg_result [OF orderer_client_facts]
  by (simp add: example_cfg_def orderer_client_def resolveOrderer_def createOrderer_def enabled_orderer_def
    example_transactor_env_def txn_env.defs)

text \<open>
  C28: A channel service of the delegate provider only ever hands out delegate transactors, so the
  handlers' type assertion cannot fail on them; the transactor is bound to the request context and to
  the channel of the service's configuration, and its orderers are those of the channel.
\<close>

theorem ChannelService_Transactor_delegate:
  assumes "ChannelService_Transactor E (ChannelService cs) reqCtx = Ok t"
  shows "\<exists>d cfg client. t = DelegateTransactor d \<and> svc_ChannelConfig cs = Inr cfg
     \<and> RequestClientContext reqCtx = Some client
     \<and> t_ChannelID d = cfg_ID cfg \<and> t_reqCtx d = reqCtx
     \<and> orderersFromChannelCfg E client cfg = Ok (t_orderers d)"
  using assms
  by (auto simp: ChannelService_Transactor_def NewTransactor_def outcome_simps
    split: sum.splits option.splits)

definition example_service :: sdk_ChannelService where
  "example_service = \<lparr>svc_ChannelConfig = Inr example_cfg, svc_Transactor = (\<lambda>_. Inl (External 0)),
     svc_Selection = None, svc_Discovery = None, svc_EventService = None\<rparr>"

definition orderer_ctx :: reqctx where
  "orderer_ctx = RequestContextValue (Some orderer_client) (ForDuration 5) None None"

definition example_transactor :: Transactor where
  "example_transactor = \<lparr>t_ChannelID = ''ch'', t_reqCtx = orderer_ctx,
     t_orderers = [\<lparr>orderer_id = 2, orderer_URL = ''o1''\<rparr>, \<lparr>orderer_id = 5, orderer_URL = ''big:7050''\<rparr>,
         \<lparr>orderer_id = 0, orderer_URL = ''other''\<rparr>]\<rparr>"

lemma orderer_client_orderers:
  "orderersFromChannelCfg example_transactor_env orderer_client example_cfg = Ok (t_orderers example_transactor)"
  by (simp add: orderersFromChannelCfg_def orderersFromChannel_def orderersByTarget_def example_cfg_def
    orderer_client_def createOrderer_def example_transactor_env_def txn_env.defs example_transactor_def)

lemma example_service_transactor:
  "ChannelService_Transactor example_transactor_env (ChannelService example_service) orderer_ctx =
     Ok (DelegateTransactor example_transactor)"
  by (simp add: ChannelService_Transactor_def NewTransactor_def example_service_def orderer_ctx_def
    RequestClientContext_def orderer_client_orderers)
    (simp add: example_transactor_def example_cfg_def orderer_ctx_def)

lemma ChannelService_Transactor_delegate_witness:
  "\<exists>d client. DelegateTransactor example_transactor = DelegateTransactor d
     \<and> RequestClientContext orderer_ctx = Some client
     \<and> orderersFromChannelCfg example_transactor_env client example_cfg = Ok (t_orderers d)"
  using ChannelService_Transactor_delegate [OF example_service_transactor]
  by (auto simp: example_service_def)

text \<open>
  C38: Creating a transactor is total except for one configuration: it panics exactly when the
  client has no configuration at all for the channel (\<open>ChannelConfig\<close> returns nil and its orderers
  are read unconditionally), provided the client returns a configuration whenever it reports one found.
\<close>

theorem NewTransactor_panics_iff:
  assumes "RequestClientContext reqCtx = Some client" and "found_configs_present client"
  shows "NewTransactor E reqCtx cfg = Panic \<longleftrightarrow> ctx_ChannelConfig client (cfg_ID cfg) = None"
proof -
  have "orderersFromChannelCfg_loop E client dict acc targets \<noteq> Panic" for dict acc targets
    by (simp add: orderersFromChannelCfg_loop_eq [OF assms(2)] append_loop_no_Panic createOrderer_no_Panic)
  then show ?thesis using assms(1)
    by (auto simp: NewTransactor_def orderersFromChannelCfg_def orderersFromChannel_def outcome_simps
      orderersFromChannel_loop_no_Panic)
qed

lemma NewTransactor_panics_iff_witness:
  "NewTransactor example_transactor_env orderer_ctx (example_cfg\<lparr>cfg_ID := ''nochannel''\<rparr>) = Panic"
proof -
  have c: "RequestClientContext orderer_ctx = Some orderer_client"
    by (simp add: orderer_ctx_def RequestClientContext_def)
  have "ctx_ChannelConfig orderer_client ''nochannel'' = None"
    by (simp add: orderer_client_def)
  then show ?thesis by (simp add: NewTransactor_panics_iff [OF c orderer_client_facts])
qed

text \<open>
  No operation of a transactor leaks a request context: whatever the outcome, each context it
  opened has been cancelled when it returns.
\<close>

lemma Transactor_contexts_balanced:
  "(\<exists>cs. snd (Transactor_SendSignedProposal E d p ts t) = t @ cs \<and> balanced cs)
   \<and> (\<exists>cs. snd (Transactor_SendTransactionProposal E d tp ts t) = t @ cs \<and> balanced cs)
   \<and> (\<exists>cs. snd (Transactor_BroadcastEnvelope E d env t) = t @ cs \<and> balanced cs)
   \<and> (\<exists>cs. snd (Transactor_SendTransaction E d tx t) = t @ cs \<and> balanced cs)"
proof -
  have "\<exists>cs. snd (Transactor_SendTransactionProposal E d tp ts t) = t @ cs \<and> balanced cs"
    by (cases "RequestClientContext (t_reqCtx d)")
      (auto simp: Transactor_SendTransactionProposal_def Let_def balanced_def)
  moreover have "\<exists>cs. snd (Transactor_SendTransaction E d tx t) = t @ cs \<and> balanced cs"
    by (auto simp: Transactor_SendTransaction_def balanced_def)
  ultimately show ?thesis
    using gateway.send_extends [of E d p ts t] sink.broadcast_extends [of E d env t] by blast
qed

end
