(* ===== verification/Handlers.thy ===== *)
theory Handlers
  imports Prelude Fabric_Types Invocation_Chain Txn Transactor
begin

text \<open>
  The invocation handlers: \<open>pkg/client/channel/invoke/txnhandler.go\<close> and the endorser selection of
  \<open>pkg/client/channel/invoke/selectendorsehandler.go\<close>. A handler is its \<open>Handle\<close> method, a
  transformation of the request context (which the Go code mutates through a pointer) and of the trace;
  \<open>Handle\<close> returns nothing, so failures are in the context's error field and the only other outcome is a
  panic. The handlers of the SDK are parameters: what its constructors make of a list of next handlers.
\<close>

section \<open>Handlers and their contexts\<close>

text \<open>\<open>invoke.ClientContext\<close>; its selection service is the parameter \<open>env_GetEndorsersForChaincode\<close>.\<close>

record ClientContext =
  cc_Transactor :: fab_Transactor

type_synonym handler = "RequestContext \<Rightarrow> ClientContext \<Rightarrow> trace \<Rightarrow> (RequestContext \<times> trace) result"

record handler_env = invoke_env +
  env_NewProposalProcessorHandler :: "handler option list \<Rightarrow> handler"
  env_NewEndorsementValidationHandler :: "handler option list \<Rightarrow> handler"
  env_NewSignatureValidationHandler :: "handler option list \<Rightarrow> handler"

definition getNext :: "handler option list \<Rightarrow> handler option" where
  "getNext next = (if length next > 0 then next ! 0 else None)"

text \<open>\<open>if e.next != nil { e.next.Handle(requestContext, clientContext) }\<close>\<close>

definition call_next :: "handler option \<Rightarrow> handler" where
  "call_next h rc cc t = (case h of Some handle \<Rightarrow> handle rc cc t | None \<Rightarrow> Ok (rc, t))"

definition getDelegateTransactor :: "ClientContext \<Rightarrow> error + Transactor" where
  "getDelegateTransactor cc =
     (case cc_Transactor cc of
        DelegateTransactor t \<Rightarrow> Inr t
      | OtherTransactor n \<Rightarrow> Inl (Errorf ''no delegate transactor''))"

section \<open>Selecting endorsers\<close>

definition getEndorsers ::
  "'z invoke_env_scheme \<Rightarrow> RequestContext \<Rightarrow> selectionOpt list \<Rightarrow> trace \<Rightarrow>
   ((ChaincodeCall list \<times> peer list \<times> error option) \<times> trace) result"
where
  "getEndorsers E rc opts t =
     (let selectionOpts = opts
            @ (case SelectionFilter rc of Some f \<Rightarrow> [WithPeerFilter f] | None \<Rightarrow> [])
            @ (case PeerSorter rc of Some s \<Rightarrow> [WithPeerSorter s] | None \<Rightarrow> [])
      in bindR (newInvocationChain (rc_Request rc)) (\<lambda>ccCalls.
         bindR (newInvocationChain (rc_Request rc)) (\<lambda>chain.
           (case env_GetEndorsersForChaincode E t chain selectionOpts of (peers, err) \<Rightarrow>
              Ok ((ccCalls, peers, err), t @ [GetEndorsersForChaincode chain])))))"

definition getAdditionalEndorsers ::
  "'z invoke_env_scheme \<Rightarrow> RequestContext \<Rightarrow> ChaincodeCall list \<Rightarrow> trace \<Rightarrow>
   ((error + peer list) \<times> RequestContext \<times> trace) result"
where
  "getAdditionalEndorsers E rc invocationChain t =
     (case Responses (rc_Response rc) of
        [] \<Rightarrow> Panic
      | response # _ \<Rightarrow>
          (case getInvocationChainFromResponse (env_proto E) response of
             Panic \<Rightarrow> Panic
           | Err err \<Rightarrow> Ok (Inl (Wrap ''error getting invocation chain from proposal response'' err), rc, t)
           | Ok invocationChainFromResponse \<Rightarrow>
               (case mergeInvocationChains invocationChain invocationChainFromResponse
                       (getCCFilter E (rc_Opts rc)) of (chain, foundAdditional) \<Rightarrow>
                  if \<not> foundAdditional then Ok (Inr [], rc, t)
                  else
                    (let rc1 = rc\<lparr>rc_Request := (rc_Request rc)\<lparr>InvocationChain := map Some chain\<rparr>\<rparr>
                     in bindR (getEndorsers E rc1
                                [WithRetryOpts RetryZero,
                                 WithPrioritySelector (prioritizePeers (Targets (rc_Opts rc1)))] t)
                          (\<lambda>((_, endorsers, err), t1).
                             (case err of
                                Some e \<Rightarrow> Ok (Inl (Wrap ''error getting additional endorsers'' e), rc1, t1)
                              | None \<Rightarrow>
                                  Ok (Inr (filter (\<lambda>endorser. \<not> containsMSP (Targets (rc_Opts rc1)) (MSPID endorser))
                                           endorsers), rc1, t1)))))))"

section \<open>Endorsing\<close>

text \<open>
  What both handlers do with the responses: store them, and the payload and status of the first. A first
  response without a \<open>Response\<close> field is dereferenced all the same.
\<close>

definition record_responses :: "RequestContext \<Rightarrow> TransactionProposalResponse list \<Rightarrow> RequestContext result" where
  "record_responses rc resps =
     (let rc1 = rc\<lparr>rc_Response := (rc_Response rc)\<lparr>Responses := resps\<rparr>\<rparr> in
      case resps of
        [] \<Rightarrow> Ok rc1
      | r # _ \<Rightarrow>
          bindR (deref (Option.bind (tpr_ProposalResponse r) pr_Response)) (\<lambda>rsp.
            Ok (rc1\<lparr>rc_Response := (rc_Response rc1)\<lparr>resp_Payload := rsp_Payload rsp,
                      resp_ChaincodeStatus := tpr_ChaincodeStatus r\<rparr>\<rparr>)))"

record DelegateEndorsementHandler =
  deh_next :: "handler option"
  deh_signedProposal :: "SignedProposal option"

definition DelegateEndorsementHandler_Handle ::
  "'z invoke_env_scheme \<Rightarrow> DelegateEndorsementHandler \<Rightarrow> handler"
where
  "DelegateEndorsementHandler_Handle E e rc cc t =
     (if length (Targets (rc_Opts rc)) = 0
      then Ok (rc\<lparr>rc_Error := Some (StatusError ClientStatus NoPeersFound ''targets were not provided'')\<rparr>, t)
      else if deh_signedProposal e = None
      then Ok (rc\<lparr>rc_Error := Some (Errorf ''a signed proposal was not provided'')\<rparr>, t)
      else (case getDelegateTransactor cc of
          Inl err \<Rightarrow> Ok (rc\<lparr>rc_Error := Some err\<rparr>, t)
        | Inr tr \<Rightarrow>
            (case Transactor_SendSignedProposal E tr (deh_signedProposal e)
                    (env_PeersToTxnProcessors E (Targets (rc_Opts rc))) t of
               ((resps, Some err), t1) \<Rightarrow> Ok (rc\<lparr>rc_Error := Some err\<rparr>, t1)
             | ((resps, None), t1) \<Rightarrow>
                 bindR (record_responses rc resps) (\<lambda>rc1. call_next (deh_next e) rc1 cc t1))))"

definition NewDelegateEndorsementHandler ::
  "SignedProposal option \<Rightarrow> handler option list \<Rightarrow> DelegateEndorsementHandler"
where
  "NewDelegateEndorsementHandler proposal next =
     \<lparr>deh_next = getNext next, deh_signedProposal = proposal\<rparr>"

definition NewDelegateQueryHandler ::
  "'z handler_env_scheme \<Rightarrow> SignedProposal option \<Rightarrow> handler option list \<Rightarrow> handler"
where
  "NewDelegateQueryHandler E proposal next =
     env_NewProposalProcessorHandler E
       [Some (DelegateEndorsementHandler_Handle E
          (NewDelegateEndorsementHandler proposal
             [Some (env_NewEndorsementValidationHandler E
                [Some (env_NewSignatureValidationHandler E next)])]))]"

record DelegateSelectAndEndorseHandler =
  dsh_signedProposal :: "SignedProposal option"
  dsh_next :: "handler option"

definition NewDelegateSelectAndEndorseHandler ::
  "SignedProposal option \<Rightarrow> handler option list \<Rightarrow> DelegateSelectAndEndorseHandler"
where
  "NewDelegateSelectAndEndorseHandler proposal next =
     \<lparr>dsh_signedProposal = proposal, dsh_next = getNext next\<rparr>"

text \<open>
  The second half of \<open>Handle\<close>, from the check for additional endorsers on: \<open>targets\<close> and \<open>ccCalls\<close> are the
  local variables of the method.
\<close>

definition additional_endorsements ::
  "'z invoke_env_scheme \<Rightarrow> DelegateSelectAndEndorseHandler \<Rightarrow> Transactor \<Rightarrow> peer list \<Rightarrow>
   ChaincodeCall list \<Rightarrow> handler"
where
  "additional_endorsements E e tr targets ccCalls rc cc t =
     (if length targets = 0 \<and> length (Responses (rc_Response rc)) > 0
      then bindR (getAdditionalEndorsers E rc ccCalls t) (\<lambda>(additional, rc1, t1).
        (case additional of
           Inl err \<Rightarrow> call_next (dsh_next e) rc1 cc t1
         | Inr additionalEndorsers \<Rightarrow>
             if length additionalEndorsers > 0
             then (let rc2 = rc1\<lparr>rc_Opts := (rc_Opts rc1)\<lparr>Targets := additionalEndorsers\<rparr>\<rparr> in
               case Transactor_SendSignedProposal E tr (dsh_signedProposal e)
                      (env_PeersToTxnProcessors E additionalEndorsers) t1 of
                 ((_, Some err), t2) \<Rightarrow>
                   Ok (rc2\<lparr>rc_Error := Some (Wrap ''error sending transaction proposal'' err)\<rparr>, t2)
               | ((additionalResponses, None), t2) \<Rightarrow>
                   call_next (dsh_next e)
                     (rc2\<lparr>rc_Response := (rc_Response rc2)\<lparr>Responses :=
                         Responses (rc_Response rc2) @ additionalResponses\<rparr>\<rparr>) cc t2)
             else call_next (dsh_next e) rc1 cc t1))
      else call_next (dsh_next e) rc cc t)"

text \<open>The first half from the check of the signed proposal on.\<close>

definition endorse_selected ::
  "'z invoke_env_scheme \<Rightarrow> DelegateSelectAndEndorseHandler \<Rightarrow> peer list \<Rightarrow> ChaincodeCall list \<Rightarrow> handler"
where
  "endorse_selected E e targets ccCalls rc cc t =
     (if dsh_signedProposal e = None
      then Ok (rc\<lparr>rc_Error := Some (Errorf ''a signed proposal was not provided'')\<rparr>, t)
      else (case getDelegateTransactor cc of
          Inl err \<Rightarrow> Ok (rc\<lparr>rc_Error := Some err\<rparr>, t)
        | Inr tr \<Rightarrow>
            (case Transactor_SendSignedProposal E tr (dsh_signedProposal e)
                    (env_PeersToTxnProcessors E (Targets (rc_Opts rc))) t of
               ((resps, Some err), t1) \<Rightarrow> Ok (rc\<lparr>rc_Error := Some err\<rparr>, t1)
             | ((resps, None), t1) \<Rightarrow>
                 bindR (record_responses rc resps) (\<lambda>rc1.
                   additional_endorsements E e tr targets ccCalls rc1 cc t1))))"

definition DelegateSelectAndEndorseHandler_Handle ::
  "'z invoke_env_scheme \<Rightarrow> DelegateSelectAndEndorseHandler \<Rightarrow> handler"
where
  "DelegateSelectAndEndorseHandler_Handle E e rc cc t =
     (let targets = Targets (rc_Opts rc) in
      if length targets = 0
      then bindR (getEndorsers E rc [] t) (\<lambda>((ccCalls, peers, err), t1).
             let rc1 = rc\<lparr>rc_Opts := (rc_Opts rc)\<lparr>Targets := peers\<rparr>\<rparr> in
             if err \<noteq> None then Ok (rc1\<lparr>rc_Error := err\<rparr>, t1)
             else endorse_selected E e targets ccCalls rc1 cc t1)
      else endorse_selected E e targets [] rc cc t)"

definition NewDelegateInvokeHandler ::
  "'z handler_env_scheme \<Rightarrow> SignedProposal option \<Rightarrow> handler option list \<Rightarrow> handler"
where
  "NewDelegateInvokeHandler E proposal next =
     DelegateSelectAndEndorseHandler_Handle E
       (NewDelegateSelectAndEndorseHandler proposal
          [Some (env_NewEndorsementValidationHandler E
             [Some (env_NewSignatureValidationHandler E next)])])"

section \<open>The contract of a handler\<close>

text \<open>
  What the client relies on when it runs a handler for the proposal \<open>sp\<close>: the handler makes no calls
  but those of \<open>handler_call\<close> (so it sends nothing but this proposal, neither envelope nor transaction, and
  signs and registers nothing), opens and closes request contexts in pairs, and reports its failures in
  the request context.
\<close>

definition framed :: "SignedProposal option \<Rightarrow> trace \<Rightarrow> trace \<Rightarrow> bool" where
  "framed sp t t' \<longleftrightarrow> (\<exists>cs. t' = t @ cs \<and> list_all (handler_call sp) cs \<and> balanced cs)"

lemma framed_refl [simp, intro]: "framed sp t t"
  by (simp add: framed_def)

lemma framed_trans: "framed sp t t' \<Longrightarrow> framed sp t' t'' \<Longrightarrow> framed sp t t''"
  unfolding framed_def
  by (elim exE conjE, rule_tac x = "cs @ csa" in exI) (auto intro: balanced_append)

lemma framed_one:
  "c = GetEndorsersForChaincode chain \<or> c = GreylistAdd e \<or> c = CallBeforeRetry n e \<Longrightarrow> framed sp t (t @ [c])"
  unfolding framed_def
  by (rule exI [of _ "[c]"]) (auto simp: balanced_def)

text \<open>
  \<open>keeps sp t m\<close>: the outcome \<open>m\<close> of a computation started at trace \<open>t\<close> is framed and is not \<open>Err\<close>.
\<close>

definition keeps :: "SignedProposal option \<Rightarrow> trace \<Rightarrow> ('a \<times> trace) result \<Rightarrow> bool" where
  "keeps sp t m = (case m of Ok (x, t') \<Rightarrow> framed sp t t' | Err e \<Rightarrow> False | Panic \<Rightarrow> True)"

named_theorems keeps_intros "introduction rules for keeps, one per construct of the handlers"

lemma keeps_Ok [keeps_intros]: "framed sp t t' \<Longrightarrow> keeps sp t (Ok (x, t'))"
  by (simp add: keeps_def)

lemma keeps_Panic [keeps_intros]: "keeps sp t Panic"
  by (simp add: keeps_def)

lemma keeps_later: "framed sp t t' \<Longrightarrow> keeps sp t' m \<Longrightarrow> keeps sp t m"
  by (auto simp: keeps_def split: result.splits intro: framed_trans)

lemma keeps_bind [keeps_intros]:
  "(\<And>e. m \<noteq> Err e) \<Longrightarrow> (\<And>x. m = Ok x \<Longrightarrow> keeps sp t (f x)) \<Longrightarrow> keeps sp t (bindR m f)"
  by (cases m) (auto simp: keeps_def)

lemma keeps_Ok_iff: "keeps sp t m \<Longrightarrow> m = Ok (x, t') \<Longrightarrow> framed sp t t'"
  by (simp add: keeps_def)

lemma keeps_no_Err: "keeps sp t m \<Longrightarrow> m \<noteq> Err e"
  by (auto simp: keeps_def)

locale request_handler =
  fixes handle :: handler and sp :: "SignedProposal option"
  assumes handle_keeps: "keeps sp t (handle rc cc t)"
begin

lemma handle_framed: "handle rc cc t = Ok (rc', t') \<Longrightarrow> framed sp t t'"
  using keeps_Ok_iff [OF handle_keeps] .

lemma handle_after: "framed sp t t' \<Longrightarrow> keeps sp t (handle rc cc t')"
  by (rule keeps_later [OF _ handle_keeps])

lemma handle_again:
  "handle rc cc t = Ok (rc1, t1) \<Longrightarrow> framed sp t1 t2 \<Longrightarrow> keeps sp t (handle rc2 cc t2)"
  by (rule handle_after) (rule framed_trans [OF handle_framed])

end

definition next_ok :: "handler option \<Rightarrow> SignedProposal option \<Rightarrow> bool" where
  "next_ok h sp = (case h of None \<Rightarrow> True | Some handle \<Rightarrow> request_handler handle sp)"

lemma call_next_keeps: "next_ok h sp \<Longrightarrow> keeps sp t (call_next h rc cc t)"
  by (auto simp: next_ok_def call_next_def request_handler.handle_keeps keeps_intros split: option.splits)

lemma send_framed:
  "Transactor_SendSignedProposal E tr sp ts t = ((rs, err), t') \<Longrightarrow> framed sp t t'"
  using gateway.send_extends [of E tr sp ts t]
  by (auto simp: framed_def list_all_iff intro: send_call_handler)

lemma newInvocationChain_no_Err: "newInvocationChain req \<noteq> Err e"
  by (simp add: newInvocationChain_def newInvocationChain_loop_eq)

lemma record_responses_no_Err: "record_responses rc rs \<noteq> Err e"
  by (auto simp: record_responses_def Let_def outcome_simps split: list.splits)

lemma getEndorsers_keeps: "keeps sp t (getEndorsers E rc opts t)"
  unfolding getEndorsers_def Let_def
  by (intro keeps_intros) (auto simp: newInvocationChain_no_Err intro!: keeps_intros framed_one
    split: prod.splits)

text \<open>The same for the additional endorsers, whose trace is the last component of the result.\<close>

lemma getAdditionalEndorsers_keeps:
  "keeps sp t (bindR (getAdditionalEndorsers E rc chain t) (\<lambda>(r, rc', t'). Ok ((r, rc'), t')))"
proof (cases "getAdditionalEndorsers E rc chain t")
  case (Ok x)
  then show ?thesis
    by (auto simp: getAdditionalEndorsers_def Let_def outcome_simps intro!: keeps_intros
      intro: keeps_Ok_iff [OF getEndorsers_keeps]
      split: list.splits result.splits prod.splits if_splits option.splits)
next
  case (Err e)
  then show ?thesis
    by (auto simp: getAdditionalEndorsers_def Let_def outcome_simps keeps_no_Err [OF getEndorsers_keeps]
      split: list.splits result.splits prod.splits if_splits option.splits)
qed (simp add: keeps_intros)

lemma getAdditionalEndorsers_framed:
  "getAdditionalEndorsers E rc chain t = Ok (r, rc', t') \<Longrightarrow> framed sp t t'"
  using getAdditionalEndorsers_keeps [of sp t E rc chain] by (simp add: keeps_def)

lemma getAdditionalEndorsers_no_Err: "getAdditionalEndorsers E rc chain t \<noteq> Err e"
  using getAdditionalEndorsers_keeps [of sp t E rc chain] by (auto simp: keeps_def)

lemma endorsement_handler_contract:
  assumes "next_ok (deh_next e) (deh_signedProposal e)"
  shows "request_handler (DelegateEndorsementHandler_Handle E e) (deh_signedProposal e)"
proof
  fix rc cc t
  show "keeps (deh_signedProposal e) t (DelegateEndorsementHandler_Handle E e rc cc t)"
    unfolding DelegateEndorsementHandler_Handle_def
    by (auto simp: record_responses_no_Err intro!: keeps_intros
      intro: keeps_later [OF send_framed call_next_keeps [OF assms]] send_framed
      split: sum.splits prod.splits option.splits)
qed

lemma additional_endorsements_keeps:
  assumes "next_ok (dsh_next e) (dsh_signedProposal e)"
  shows "keeps (dsh_signedProposal e) t (additional_endorsements E e tr targets chain rc cc t)"
proof (cases "length targets = 0 \<and> length (Responses (rc_Response rc)) > 0")
  case True
  let ?sp = "dsh_signedProposal e"
  note next_keeps = call_next_keeps [OF assms]
  show ?thesis
  proof (cases "getAdditionalEndorsers E rc chain t")
    case (Ok x)
    obtain additional rc1 t1 where x: "x = (additional, rc1, t1)" by (metis prod_cases3)
    have fr: "framed ?sp t t1" using Ok x by (simp add: getAdditionalEndorsers_framed)
    show ?thesis
    proof (cases additional)
      case (Inl err)
      then show ?thesis using True Ok x
        by (simp add: additional_endorsements_def keeps_later [OF fr next_keeps])
    next
      case (Inr adds)
      obtain rs err t2 where send: "Transactor_SendSignedProposal E tr ?sp (env_PeersToTxnProcessors E adds) t1
          = ((rs, err), t2)" by (metis surj_pair)
      have "framed ?sp t t2" using framed_trans [OF fr send_framed [OF send]] .
      then show ?thesis using True Ok x Inr send
        by (cases err)
          (simp_all add: additional_endorsements_def Let_def keeps_Ok keeps_later [OF fr next_keeps]
            keeps_later [OF _ next_keeps])
    qed
  qed (use True in \<open>simp_all add: additional_endorsements_def keeps_Panic getAdditionalEndorsers_no_Err\<close>)
qed (auto simp: additional_endorsements_def call_next_keeps [OF assms])

lemma endorse_selected_keeps:
  assumes "next_ok (dsh_next e) (dsh_signedProposal e)"
  shows "keeps (dsh_signedProposal e) t (endorse_selected E e targets chain rc cc t)"
  unfolding endorse_selected_def
  by (auto simp: record_responses_no_Err intro!: keeps_intros
    intro: keeps_later [OF send_framed additional_endorsements_keeps [OF assms]] send_framed
    split: sum.splits prod.splits option.splits)

lemma select_handler_contract:
  assumes "next_ok (dsh_next e) (dsh_signedProposal e)"
  shows "request_handler (DelegateSelectAndEndorseHandler_Handle E e) (dsh_signedProposal e)"
proof
  fix rc cc t
  let ?sp = "dsh_signedProposal e"
  note rest = endorse_selected_keeps [OF assms]
  show "keeps ?sp t (DelegateSelectAndEndorseHandler_Handle E e rc cc t)"
  proof (cases "Targets (rc_Opts rc) = []")
    case True
    show ?thesis
    proof (cases "getEndorsers E rc [] t")
      case (Ok x)
      obtain ccCalls peers err t1 where x: "x = ((ccCalls, peers, err), t1)" by (metis prod.collapse)
      have "framed ?sp t t1" using keeps_Ok_iff [OF getEndorsers_keeps] Ok x by blast
      then show ?thesis using True Ok x
        by (cases err) (simp_all add: DelegateSelectAndEndorseHandler_Handle_def Let_def keeps_Ok
          keeps_later [OF _ rest])
    qed (use True in \<open>simp_all add: DelegateSelectAndEndorseHandler_Handle_def Let_def keeps_Panic
      keeps_no_Err [OF getEndorsers_keeps]\<close>)
  qed (simp add: DelegateSelectAndEndorseHandler_Handle_def Let_def rest)
qed

text \<open>The handlers as the client's two entry points build them: nothing follows them.\<close>

interpretation endorse_only: request_handler
  "DelegateEndorsementHandler_Handle E (NewDelegateEndorsementHandler sp [])" sp for E sp
  using endorsement_handler_contract [of "NewDelegateEndorsementHandler sp []" E]
  by (simp add: NewDelegateEndorsementHandler_def getNext_def next_ok_def)

interpretation select_only: request_handler
  "DelegateSelectAndEndorseHandler_Handle E (NewDelegateSelectAndEndorseHandler sp [])" sp for E sp
  using select_handler_contract [of "NewDelegateSelectAndEndorseHandler sp []" E]
  by (simp add: NewDelegateSelectAndEndorseHandler_def getNext_def next_ok_def)

text \<open>
  The SDK's handlers select targets, validate responses and call the next handler; they send nothing
  of their own and keep their hands off event registrations.
\<close>

definition sdk_handlers_framed :: "'z handler_env_scheme \<Rightarrow> SignedProposal option \<Rightarrow> bool" where
  "sdk_handlers_framed E sp \<longleftrightarrow>
     (\<forall>hs. (\<forall>h \<in> set hs. next_ok h sp) \<longrightarrow>
        request_handler (env_NewProposalProcessorHandler E hs) sp \<and>
        request_handler (env_NewEndorsementValidationHandler E hs) sp \<and>
        request_handler (env_NewSignatureValidationHandler E hs) sp)"

lemma validation_chain_ok:
  assumes "sdk_handlers_framed E sp" and "\<forall>h \<in> set next. next_ok h sp"
  shows "next_ok (Some (env_NewEndorsementValidationHandler E [Some (env_NewSignatureValidationHandler E next)])) sp"
  using assms by (simp add: sdk_handlers_framed_def next_ok_def)

lemma NewDelegateQueryHandler_contract:
  assumes "sdk_handlers_framed E sp" and "\<forall>h \<in> set next. next_ok h sp"
  shows "request_handler (NewDelegateQueryHandler E sp next) sp"
proof -
  let ?e = "NewDelegateEndorsementHandler sp
    [Some (env_NewEndorsementValidationHandler E [Some (env_NewSignatureValidationHandler E next)])]"
  have "next_ok (Some (DelegateEndorsementHandler_Handle E ?e)) sp"
    using endorsement_handler_contract [of ?e E] validation_chain_ok [OF assms]
    by (simp add: NewDelegateEndorsementHandler_def getNext_def next_ok_def)
  then show ?thesis using assms(1)
    by (simp add: NewDelegateQueryHandler_def sdk_handlers_framed_def)
qed

lemma NewDelegateInvokeHandler_contract:
  assumes "sdk_handlers_framed E sp" and "\<forall>h \<in> set next. next_ok h sp"
  shows "request_handler (NewDelegateInvokeHandler E sp next) sp"
proof -
  let ?e = "NewDelegateSelectAndEndorseHandler sp
    [Some (env_NewEndorsementValidationHandler E [Some (env_NewSignatureValidationHandler E next)])]"
  show ?thesis
    using select_handler_contract [of ?e E] validation_chain_ok [OF assms]
    by (simp add: NewDelegateInvokeHandler_def NewDelegateSelectAndEndorseHandler_def getNext_def)
qed

section \<open>Properties\<close>

text \<open>
  C39: The endorsement handler refuses, before anything is sent and with the context otherwise
  unchanged, a request without targets, then a missing signed proposal, then a transactor that is not
  the delegate one, in this order of precedence.
\<close>

theorem endorsement_handler_refuses:
  assumes "Targets (rc_Opts rc) = [] \<or> deh_signedProposal e = None \<or> (\<exists>n. cc_Transactor cc = OtherTransactor n)"
  shows "DelegateEndorsementHandler_Handle E e rc cc t =
     Ok (rc\<lparr>rc_Error := Some
       (if Targets (rc_Opts rc) = [] then StatusError ClientStatus NoPeersFound ''targets were not provided''
        else if deh_signedProposal e = None then Errorf ''a signed proposal was not provided''
        else Errorf ''no delegate transactor'')\<rparr>, t)"
  using assms
  by (auto simp: DelegateEndorsementHandler_Handle_def getDelegateTransactor_def)

definition example_peers :: "peer list" where
  "example_peers = [example_peer 0 ''a'', example_peer 1 ''b'', example_peer 0 ''a'']"

definition example_rc :: "peer list \<Rightarrow> RequestContext" where
  "example_rc ps = \<lparr>rc_Request = \<lparr>ChaincodeID = ''cc'', Fcn = ''_'', Args = [], TransientMap = [], InvocationChain = []\<rparr>,
     rc_Opts = emptyOpts\<lparr>Targets := ps\<rparr>, rc_Response = emptyResponse, rc_Error = None,
     rc_RetryHandler = RetryZero, rc_Ctx = orderer_ctx, SelectionFilter = None, PeerSorter = None\<rparr>"

definition delegate_cc :: ClientContext where
  "delegate_cc = \<lparr>cc_Transactor = DelegateTransactor example_transactor\<rparr>"

lemma endorsement_handler_refuses_witness:
  "DelegateEndorsementHandler_Handle example_env (NewDelegateEndorsementHandler None []) (example_rc example_peers) delegate_cc [] =
     Ok ((example_rc example_peers)\<lparr>rc_Error := Some (Errorf ''a signed proposal was not provided'')\<rparr>, [])"
  by (subst endorsement_handler_refuses)
    (simp_all add: NewDelegateEndorsementHandler_def example_rc_def example_peers_def)

lemma select_user_targets:
  assumes "Targets (rc_Opts rc) \<noteq> []"
  shows "DelegateSelectAndEndorseHandler_Handle E (NewDelegateSelectAndEndorseHandler sp next) rc cc t =
     DelegateEndorsementHandler_Handle E (NewDelegateEndorsementHandler sp next) rc cc t"
  using assms
  by (simp add: DelegateSelectAndEndorseHandler_Handle_def DelegateEndorsementHandler_Handle_def
    NewDelegateSelectAndEndorseHandler_def NewDelegateEndorsementHandler_def Let_def endorse_selected_def
    additional_endorsements_def split: sum.split prod.split option.split)

text \<open>
  C25: With targets of the caller's choosing the selecting handler is the endorsement handler: no
  endorser is selected, none is added, and both leave the same context and trace.
\<close>

theorem user_targets_skip_selection:
  assumes "Targets (rc_Opts rc) \<noteq> []"
  shows "DelegateSelectAndEndorseHandler_Handle E (NewDelegateSelectAndEndorseHandler sp next) rc cc t =
     DelegateEndorsementHandler_Handle E (NewDelegateEndorsementHandler sp next) rc cc t"
  using assms by (rule select_user_targets)

lemma user_targets_skip_selection_witness:
  "DelegateSelectAndEndorseHandler_Handle example_env (NewDelegateSelectAndEndorseHandler None []) (example_rc example_peers) delegate_cc [] =
     DelegateEndorsementHandler_Handle example_env (NewDelegateEndorsementHandler None []) (example_rc example_peers) delegate_cc []"
  by (rule user_targets_skip_selection) (simp add: example_rc_def example_peers_def)

text \<open>
  When every distinct endorser answers with a response, the endorsement handler hands the next
  handler a context whose responses are exactly those answers, in some order, with the payload and
  status of the first; the trace shows one context, one proposal per distinct URL, and its cancellation.
\<close>

definition response_payload :: "TransactionProposalResponse \<Rightarrow> bytes" where
  "response_payload r = rsp_Payload (the (pr_Response (the (tpr_ProposalResponse r))))"

lemma record_responses_ok:
  assumes "resps \<noteq> []" and "wellformed_response (hd resps)"
  shows "record_responses rc resps = Ok (rc\<lparr>rc_Response := (rc_Response rc)\<lparr>Responses := resps,
     resp_Payload := response_payload (hd resps), resp_ChaincodeStatus := tpr_ChaincodeStatus (hd resps)\<rparr>\<rparr>)"
  using assms
  by (cases resps) (auto simp: record_responses_def wellformed_response_def response_payload_def)

text \<open>The request context a transactor opens for a batch of proposals, and what the batch leaves.\<close>

definition batch_ctx :: "Transactor \<Rightarrow> clientCtx \<Rightarrow> reqctx" where
  "batch_ctx tr client = RequestContextValue (Some client) (ForTimeoutType PeerResponse) (Some (t_reqCtx tr)) None"

definition batch_trace :: "trace \<Rightarrow> peer list \<Rightarrow> SignedProposal \<Rightarrow> trace" where
  "batch_trace t ps sp = t @ NewRequest (ForTimeoutType PeerResponse)
     # map (\<lambda>p. ProcessTransactionProposal (PeerProcessor p) sp) (uniq_by URL ps)
     @ [CancelRequest (ForTimeoutType PeerResponse)]"

lemma peers_processors:
  "map the (getTargetsWithoutDuplicates (map (\<lambda>p. Some (PeerProcessor p)) ps)) = map PeerProcessor (uniq_by URL ps)"
  by (simp add: getTargetsWithoutDuplicates_peers)

lemma uniq_by_Nil_iff [simp]: "uniq_by f xs = [] \<longleftrightarrow> xs = []"
  by (cases xs) auto

lemma successes_all:
  "\<forall>i \<in> set is. ans i = Inr (resp i) \<Longrightarrow> successes ans is = map resp is"
  by (induction "is") auto

lemma send_to_peers:
  assumes "ps \<noteq> []" and "schedule_complete E" and "ToError_documented E"
    and "RequestClientContext (t_reqCtx tr) = Some client"
    and "\<forall>i < length (uniq_by URL ps). env_Process E (t @ [NewRequest (ForTimeoutType PeerResponse)])
       (batch_ctx tr client) i (PeerProcessor (uniq_by URL ps ! i)) sp = Inr (resp i)"
  shows "\<exists>resps. mset resps = mset (map resp [0..<length (uniq_by URL ps)]) \<and>
     Transactor_SendSignedProposal E tr (Some sp) (map (\<lambda>p. Some (PeerProcessor p)) ps) t =
       ((resps, None), batch_trace t ps sp)"
proof -
  let ?ts = "map (\<lambda>p. Some (PeerProcessor p)) ps" and ?t1 = "t @ [NewRequest (ForTimeoutType PeerResponse)]"
  obtain resps err t2 where send: "SendSignedProposal E (batch_ctx tr client) (Some sp) ?ts ?t1 = ((resps, err), t2)"
    by (metis surj_pair)
  have ts: "?ts \<noteq> []" "None \<notin> set ?ts" using assms(1) by auto
  note facts = SendSignedProposal_facts [OF ts assms(2,3) peers_processors [symmetric] send]
  let ?n = "length (uniq_by URL ps)"
  have "err = None" using facts assms(5) by auto
  moreover have "successes (batch_answer E (batch_ctx tr client) sp (map PeerProcessor (uniq_by URL ps)) ?t1) [0..<?n] =
      map resp [0..<?n]"
    by (rule successes_all) (simp add: batch_answer_def assms(5))
  moreover have "Transactor_SendSignedProposal E tr (Some sp) ?ts t =
      ((resps, err), t2 @ [CancelRequest (ForTimeoutType PeerResponse)])"
    using assms(4) send by (simp add: Transactor_SendSignedProposal_def Let_def batch_ctx_def)
  ultimately show ?thesis using facts by (simp add: batch_trace_def)
qed

lemma endorsement_handler_endorses:
  assumes "PeersToTxnProcessors_documented E" and "schedule_complete E" and "ToError_documented E"
    and "Targets (rc_Opts rc) = ps" and "ps \<noteq> []" and "deh_signedProposal e = Some sp"
    and "cc_Transactor cc = DelegateTransactor tr" and "RequestClientContext (t_reqCtx tr) = Some client"
    and "\<forall>i < length (uniq_by URL ps). env_Process E (t @ [NewRequest (ForTimeoutType PeerResponse)])
       (batch_ctx tr client) i (PeerProcessor (uniq_by URL ps ! i)) sp = Inr (resp i) \<and> wellformed_response (resp i)"
  shows "\<exists>resps. mset resps = mset (map resp [0..<length (uniq_by URL ps)]) \<and>
     DelegateEndorsementHandler_Handle E e rc cc t =
       call_next (deh_next e)
         (rc\<lparr>rc_Response := (rc_Response rc)\<lparr>Responses := resps, resp_Payload := response_payload (hd resps),
              resp_ChaincodeStatus := tpr_ChaincodeStatus (hd resps)\<rparr>\<rparr>) cc (batch_trace t ps sp)"
proof -
  obtain resps where resps: "mset resps = mset (map resp [0..<length (uniq_by URL ps)])"
    and send: "Transactor_SendSignedProposal E tr (Some sp) (map (\<lambda>p. Some (PeerProcessor p)) ps) t =
       ((resps, None), batch_trace t ps sp)"
    using send_to_peers [OF assms(5,2,3,8), of t sp resp] assms(9) by auto
  have "length resps = length (uniq_by URL ps)" using mset_eq_length [OF resps] by simp
  then have ne: "resps \<noteq> []" using assms(5) by (cases resps) auto
  then have "hd resps \<in> set (map resp [0..<length (uniq_by URL ps)])"
    using mset_eq_setD [OF resps] by (metis list.set_sel(1))
  then have "wellformed_response (hd resps)" using assms(9) by auto
  note rec = record_responses_ok [OF ne this]
  show ?thesis
    by (intro exI [of _ resps])
      (use resps send rec assms(1,4-7) in \<open>simp add: DelegateEndorsementHandler_Handle_def
        getDelegateTransactor_def PeersToTxnProcessors_documented_def\<close>)
qed

definition answering_env :: invoke_env where
  "answering_env = example_env\<lparr>env_Process := (\<lambda>t c i p sp.
     Inr (example_response\<lparr>tpr_Endorser := (case p of PeerProcessor q \<Rightarrow> URL q | OtherProcessor n \<Rightarrow> [])\<rparr>))\<rparr>"

lemma answering_env_documented:
  "PeersToTxnProcessors_documented answering_env" "schedule_complete answering_env" "ToError_documented answering_env"
  using example_env_documented
  by (simp_all add: answering_env_def PeersToTxnProcessors_documented_def schedule_complete_def ToError_documented_def)

lemma endorsement_handler_endorses_witness:
  "\<exists>rc'. DelegateEndorsementHandler_Handle answering_env (NewDelegateEndorsementHandler (Some example_sp) [])
       (example_rc example_peers) delegate_cc [] = Ok (rc', batch_trace [] example_peers example_sp)
     \<and> rc_Error rc' = None \<and> length (Responses (rc_Response rc')) = 2"
proof -
  let ?resp = "\<lambda>i. example_response\<lparr>tpr_Endorser := URL (uniq_by URL example_peers ! i)\<rparr>"
  have uniq: "length (uniq_by URL example_peers) = 2"
    by (simp add: example_peers_def example_peer_def)
  have ctx: "RequestClientContext (t_reqCtx example_transactor) = Some orderer_client"
    by (simp add: example_transactor_def orderer_ctx_def RequestClientContext_def)
  have answers: "\<forall>i < length (uniq_by URL example_peers).
      env_Process answering_env ([] @ [NewRequest (ForTimeoutType PeerResponse)]) (batch_ctx example_transactor orderer_client) i
        (PeerProcessor (uniq_by URL example_peers ! i)) example_sp = Inr (?resp i) \<and> wellformed_response (?resp i)"
    by (auto simp: answering_env_def wellformed_response_def example_response_def)
  obtain resps where "mset resps = mset (map ?resp [0..<length (uniq_by URL example_peers)])"
    "DelegateEndorsementHandler_Handle answering_env (NewDelegateEndorsementHandler (Some example_sp) [])
       (example_rc example_peers) delegate_cc [] =
     call_next (deh_next (NewDelegateEndorsementHandler (Some example_sp) []))
       ((example_rc example_peers)\<lparr>rc_Response := (rc_Response (example_rc example_peers))\<lparr>Responses := resps,
          resp_Payload := response_payload (hd resps), resp_ChaincodeStatus := tpr_ChaincodeStatus (hd resps)\<rparr>\<rparr>)
       delegate_cc (batch_trace [] example_peers example_sp)"
    using endorsement_handler_endorses [OF answering_env_documented _ _ _ _ ctx answers,
        where rc = "example_rc example_peers" and cc = delegate_cc and e = "NewDelegateEndorsementHandler (Some example_sp) []"]
    by (auto simp: example_rc_def delegate_cc_def NewDelegateEndorsementHandler_def example_peers_def)
  moreover from this have "length resps = 2" using uniq mset_eq_length by fastforce
  ultimately show ?thesis
    by (simp add: call_next_def NewDelegateEndorsementHandler_def getNext_def example_rc_def)
qed

text \<open>
  C29: One endorser that fails makes the endorsement fail: the error is recorded, the responses of
  the others are dropped and the next handler is not called.
\<close>

theorem endorsement_handler_one_failure:
  assumes "PeersToTxnProcessors_documented E" and "schedule_complete E" and "ToError_documented E"
    and "cc_Transactor cc = DelegateTransactor tr" and "RequestClientContext (t_reqCtx tr) = Some client"
    and "deh_signedProposal e = Some sp" and "ps = uniq_by URL (Targets (rc_Opts rc))"
    and "i < length ps" and "env_Process E (t @ [NewRequest (ForTimeoutType PeerResponse)])
       (batch_ctx tr client) i (PeerProcessor (ps ! i)) sp = Inl err"
  shows "\<exists>err'. DelegateEndorsementHandler_Handle E e rc cc t =
     Ok (rc\<lparr>rc_Error := Some err'\<rparr>, batch_trace t (Targets (rc_Opts rc)) sp)"
proof -
  let ?ps = "Targets (rc_Opts rc)"
  let ?ts = "map (\<lambda>p. Some (PeerProcessor p)) ?ps" and ?t1 = "t @ [NewRequest (ForTimeoutType PeerResponse)]"
  obtain resps err' t2 where send: "SendSignedProposal E (batch_ctx tr client) (Some sp) ?ts ?t1 = ((resps, err'), t2)"
    by (metis surj_pair)
  have ne: "?ps \<noteq> []" using assms(7,8) by auto
  then have ts: "?ts \<noteq> []" "None \<notin> set ?ts" by auto
  note facts = SendSignedProposal_facts [OF ts assms(2,3) peers_processors [symmetric] send]
  have "err' \<noteq> None" using facts assms(7-9) by auto
  moreover have "Transactor_SendSignedProposal E tr (Some sp) ?ts t =
      ((resps, err'), batch_trace t ?ps sp)"
    using assms(5) send facts by (simp add: Transactor_SendSignedProposal_def Let_def batch_ctx_def batch_trace_def)
  ultimately show ?thesis
    using ne assms(1,4,6)
    by (auto simp: DelegateEndorsementHandler_Handle_def getDelegateTransactor_def PeersToTxnProcessors_documented_def)
qed

lemma endorsement_handler_one_failure_witness:
  "\<exists>err'. DelegateEndorsementHandler_Handle example_env (NewDelegateEndorsementHandler (Some example_sp) [])
     (example_rc example_peers) delegate_cc [] =
     Ok ((example_rc example_peers)\<lparr>rc_Error := Some err'\<rparr>, batch_trace [] example_peers example_sp)"
  using endorsement_handler_one_failure [OF example_env_documented(2,3,4), of delegate_cc example_transactor
      orderer_client "NewDelegateEndorsementHandler (Some example_sp) []" example_sp
      "uniq_by URL example_peers" "example_rc example_peers" 1 "[]" "External 0"]
  by (simp add: delegate_cc_def example_transactor_def orderer_ctx_def RequestClientContext_def
    NewDelegateEndorsementHandler_def example_rc_def example_peers_def example_peer_def example_env_def)

lemma getAdditionalEndorsers_asked:
  assumes "Responses (rc_Response rc) = resp # resps"
    and "getInvocationChainFromResponse (env_proto E) resp = Ok names"
    and "mergeInvocationChains chain names (getCCFilter E (rc_Opts rc)) = (merged, True)"
  shows "getAdditionalEndorsers E rc chain t =
    bindR (getEndorsers E (rc\<lparr>rc_Request := (rc_Request rc)\<lparr>InvocationChain := map Some merged\<rparr>\<rparr>)
        [WithRetryOpts RetryZero, WithPrioritySelector (prioritizePeers (Targets (rc_Opts rc)))] t)
      (\<lambda>((_, endorsers, err), t1). case err of
          Some e \<Rightarrow> Ok (Inl (Wrap ''error getting additional endorsers'' e),
            rc\<lparr>rc_Request := (rc_Request rc)\<lparr>InvocationChain := map Some merged\<rparr>\<rparr>, t1)
        | None \<Rightarrow> Ok (Inr (filter (\<lambda>p. \<not> containsMSP (Targets (rc_Opts rc)) (MSPID p)) endorsers),
            rc\<lparr>rc_Request := (rc_Request rc)\<lparr>InvocationChain := map Some merged\<rparr>\<rparr>, t1))"
  using assms by (simp add: getAdditionalEndorsers_def Let_def cong: option.case_cong)

lemma getAdditionalEndorsers_context:
  assumes "getAdditionalEndorsers E rc chain t = Ok (r, rc', t')"
  shows "rc_Response rc' = rc_Response rc \<and> rc_Error rc' = rc_Error rc \<and> rc_Opts rc' = rc_Opts rc"
proof -
  obtain resp resps where rs: "Responses (rc_Response rc) = resp # resps"
    using assms by (auto simp: getAdditionalEndorsers_def split: list.splits)
  show ?thesis
  proof (cases "getInvocationChainFromResponse (env_proto E) resp")
    case (Ok names)
    obtain merged changed where m: "mergeInvocationChains chain names (getCCFilter E (rc_Opts rc)) = (merged, changed)"
      by (metis surj_pair)
    show ?thesis
    proof (cases changed)
      case True
      with m have m': "mergeInvocationChains chain names (getCCFilter E (rc_Opts rc)) = (merged, True)" by simp
      let ?rc1 = "rc\<lparr>rc_Request := (rc_Request rc)\<lparr>InvocationChain := map Some merged\<rparr>\<rparr>"
      note eq = getAdditionalEndorsers_asked [OF rs Ok m']
      let ?opts = "[WithRetryOpts RetryZero, WithPrioritySelector (prioritizePeers (Targets (rc_Opts rc)))]"
      obtain x where x: "getEndorsers E ?rc1 ?opts t = Ok x"
        using assms unfolding eq by (cases "getEndorsers E ?rc1 ?opts t") simp_all
      obtain calls endorsers err t1 where xs: "x = ((calls, endorsers, err), t1)" by (metis prod.collapse)
      have "rc' = ?rc1" using assms unfolding eq x xs by (cases err) auto
      then show ?thesis by simp
    qed (use assms rs Ok m in \<open>auto simp: getAdditionalEndorsers_def\<close>)
  qed (use assms rs in \<open>auto simp: getAdditionalEndorsers_def\<close>)
qed

text \<open>The options that a request context adds to every question to the selection service.\<close>

definition context_options :: "'z RequestContext_scheme \<Rightarrow> selectionOpt list" where
  "context_options rc =
     (case SelectionFilter rc of Some f \<Rightarrow> [WithPeerFilter f] | None \<Rightarrow> []) @
     (case PeerSorter rc of Some s \<Rightarrow> [WithPeerSorter s] | None \<Rightarrow> [])"

lemma context_options_Request [simp]: "context_options (rc\<lparr>rc_Request := req\<rparr>) = context_options rc"
  by (simp add: context_options_def)

lemma getEndorsers_asks:
  assumes "getEndorsers E rc opts t = Ok ((calls, peers, err), t')"
  shows "newInvocationChain (rc_Request rc) = Ok calls
    \<and> env_GetEndorsersForChaincode E t calls (opts @ context_options rc) = (peers, err)
    \<and> t' = t @ [GetEndorsersForChaincode calls]"
proof -
  let ?all = "opts @ context_options rc"
  obtain c where c: "newInvocationChain (rc_Request rc) = Ok c"
    using assms by (auto simp: getEndorsers_def Let_def outcome_simps)
  obtain ps e where a: "env_GetEndorsersForChaincode E t c ?all = (ps, e)" by (metis surj_pair)
  have "c = calls \<and> ps = peers \<and> e = err \<and> t' = t @ [GetEndorsersForChaincode calls]"
    using assms c a by (auto simp: getEndorsers_def Let_def context_options_def)
  then show ?thesis using c a by blast
qed

text \<open>
  C9: Looking for additional endorsers. The chain read off the first response is merged into the
  chain of the first round. When that reports no change, the selection service is not asked, there are
  no additional endorsers and nothing changes. Otherwise the merged chain becomes the request's, the
  service is asked once for the chain of that request, with retries disabled, known peers preferred and
  the filter and sorter of the context, and the additional endorsers are the selected ones whose MSP has
  no target yet: they share no MSP with the targets and with them cover every MSP that was selected.
\<close>

theorem getAdditionalEndorsers_result:
  assumes "getAdditionalEndorsers E rc chain t = Ok (Inr adds, rc', t')"
  shows "\<exists>resp resps names merged changed.
     Responses (rc_Response rc) = resp # resps
     \<and> getInvocationChainFromResponse (env_proto E) resp = Ok names
     \<and> mergeInvocationChains chain names (getCCFilter E (rc_Opts rc)) = (merged, changed)
     \<and> (if \<not> changed then adds = [] \<and> rc' = rc \<and> t' = t
        else rc' = rc\<lparr>rc_Request := (rc_Request rc)\<lparr>InvocationChain := map Some merged\<rparr>\<rparr>
          \<and> (\<exists>asked endorsers. newInvocationChain (rc_Request rc') = Ok asked
            \<and> t' = t @ [GetEndorsersForChaincode asked]
            \<and> env_GetEndorsersForChaincode E t asked
                ([WithRetryOpts RetryZero, WithPrioritySelector (prioritizePeers (Targets (rc_Opts rc)))]
                 @ context_options rc) = (endorsers, None)
            \<and> adds = filter (\<lambda>p. MSPID p \<notin> MSPID ` set (Targets (rc_Opts rc))) endorsers
            \<and> MSPID ` set adds \<inter> MSPID ` set (Targets (rc_Opts rc)) = {}
            \<and> MSPID ` set (Targets (rc_Opts rc)) \<union> MSPID ` set adds
                = MSPID ` set (Targets (rc_Opts rc)) \<union> MSPID ` set endorsers))"
proof -
  let ?T = "Targets (rc_Opts rc)"
  obtain resp resps where rs: "Responses (rc_Response rc) = resp # resps"
    using assms by (auto simp: getAdditionalEndorsers_def split: list.splits)
  obtain names where names: "getInvocationChainFromResponse (env_proto E) resp = Ok names"
    using assms rs by (auto simp: getAdditionalEndorsers_def split: result.splits)
  obtain merged changed where m: "mergeInvocationChains chain names (getCCFilter E (rc_Opts rc)) = (merged, changed)"
    by (metis surj_pair)
  show ?thesis
  proof (cases changed)
    case False
    with assms rs names m have "adds = [] \<and> rc' = rc \<and> t' = t"
      by (auto simp: getAdditionalEndorsers_def)
    with False rs names m show ?thesis by auto
  next
    case changed: True
    then have True: "changed = True" by simp
    let ?rc1 = "rc\<lparr>rc_Request := (rc_Request rc)\<lparr>InvocationChain := map Some merged\<rparr>\<rparr>"
    let ?opts = "[WithRetryOpts RetryZero, WithPrioritySelector (prioritizePeers ?T)]"
    note eq = getAdditionalEndorsers_asked [OF rs names m [unfolded True]]
    obtain x where x: "getEndorsers E ?rc1 ?opts t = Ok x"
      using assms unfolding eq by (cases "getEndorsers E ?rc1 ?opts t") simp_all
    obtain calls endorsers err t1 where xs: "x = ((calls, endorsers, err), t1)" by (metis prod.collapse)
    have "err = None \<and> t1 = t' \<and> rc' = ?rc1 \<and> adds = filter (\<lambda>p. \<not> containsMSP ?T (MSPID p)) endorsers"
      using assms unfolding eq x xs by (cases err) auto
    then have sel: "getEndorsers E ?rc1 ?opts t = Ok ((calls, endorsers, None), t')"
      and rc': "rc' = ?rc1" and adds: "adds = filter (\<lambda>p. \<not> containsMSP ?T (MSPID p)) endorsers"
      using x xs by auto
    have asked: "newInvocationChain (rc_Request ?rc1) = Ok calls"
      "env_GetEndorsersForChaincode E t calls (?opts @ context_options rc) = (endorsers, None)"
      "t' = t @ [GetEndorsersForChaincode calls]"
      using getEndorsers_asks [OF sel] by simp_all
    have "MSPID ` set adds \<inter> MSPID ` set ?T = {}"
      unfolding adds by (rule msps.filter_fresh_disjoint) simp
    moreover have "MSPID ` set ?T \<union> MSPID ` set adds = MSPID ` set ?T \<union> MSPID ` set endorsers"
      unfolding adds by (rule msps.filter_fresh_covers) simp
    moreover have "adds = filter (\<lambda>p. MSPID p \<notin> MSPID ` set ?T) endorsers"
      by (simp add: adds msps.search_iff)
    moreover have "newInvocationChain (rc_Request rc') = Ok calls" using asked(1) by (simp add: rc')
    ultimately show ?thesis using asked(2,3) rs names m changed rc'
      by (intro exI [of _ resp] exI [of _ resps] exI [of _ names] exI [of _ merged] exI [of _ changed]) auto
  qed
qed

definition org2_peer :: peer where
  "org2_peer = \<lparr>peer_id = 2, URL = ''c'', MSPID = ''Org2''\<rparr>"

definition selecting_env :: invoke_env where
  "selecting_env = answering_env\<lparr>env_GetEndorsersForChaincode := (\<lambda>t chain opts.
     (if length chain = 1 then [example_peer 0 ''a''] else [example_peer 1 ''b'', org2_peer], None)),
     env_Process := (\<lambda>t c i p sp. Inr example_response)\<rparr>"

definition endorsed_rc :: RequestContext where
  "endorsed_rc = (example_rc [example_peer 0 ''a''])\<lparr>rc_Response := emptyResponse\<lparr>Responses := [example_response],
     resp_Payload := [1], resp_ChaincodeStatus := 200\<rparr>\<rparr>"

definition example_chain :: "ChaincodeCall list" where
  "example_chain = [\<lparr>ID = ''cc'', Collections = []\<rparr>]"

definition merged_rc :: RequestContext where
  "merged_rc = endorsed_rc\<lparr>rc_Request := (rc_Request endorsed_rc)\<lparr>InvocationChain :=
     [Some \<lparr>ID = ''ping'', Collections = [''c'']\<rparr>]\<rparr>\<rparr>"

lemmas handler_example_defs = selecting_env_def answering_env_def example_env_def endorsed_rc_def merged_rc_def
  example_rc_def example_chain_def org2_peer_def example_peer_def

lemma selecting_env_proto: "env_proto selecting_env = example_chain_proto"
  by (simp add: selecting_env_def answering_env_def example_env_def)

lemma example_additional:
  "getAdditionalEndorsers selecting_env endorsed_rc example_chain t =
     Ok (Inr [org2_peer], merged_rc,
         t @ [GetEndorsersForChaincode [\<lparr>ID = ''cc'', Collections = []\<rparr>, \<lparr>ID = ''ping'', Collections = [''c'']\<rparr>]])"
proof -
  have m: "mergeInvocationChains example_chain [\<lparr>ID = ''ping'', Collections = [''c'']\<rparr>]
      (getCCFilter selecting_env (rc_Opts endorsed_rc)) = ([\<lparr>ID = ''ping'', Collections = [''c'']\<rparr>], True)"
    by (simp add: mergeInvocationChains_def mergeCCCall_def getCCFilter_def lsccFilter_def
      handler_example_defs emptyOpts_def)
  have r: "Responses (rc_Response endorsed_rc) = [example_response]" by (simp add: endorsed_rc_def)
  have c: "newInvocationChain (rc_Request merged_rc) =
      Ok [\<lparr>ID = ''cc'', Collections = []\<rparr>, \<lparr>ID = ''ping'', Collections = [''c'']\<rparr>]"
    by (simp add: newInvocationChain_def merged_rc_def endorsed_rc_def example_rc_def)
  have o: "rc_Opts merged_rc = rc_Opts endorsed_rc" "Targets (rc_Opts endorsed_rc) = [example_peer 0 ''a'']"
    by (simp_all add: merged_rc_def endorsed_rc_def example_rc_def)
  have g: "getEndorsers selecting_env merged_rc opts t = Ok (([\<lparr>ID = ''cc'', Collections = []\<rparr>, \<lparr>ID = ''ping'', Collections = [''c'']\<rparr>],
      [example_peer 1 ''b'', org2_peer], None),
      t @ [GetEndorsersForChaincode [\<lparr>ID = ''cc'', Collections = []\<rparr>, \<lparr>ID = ''ping'', Collections = [''c'']\<rparr>]])" for opts
    by (simp add: getEndorsers_def Let_def c selecting_env_def)
  show ?thesis
    by (simp add: getAdditionalEndorsers_def r selecting_env_proto example_response_chain m Let_def
      merged_rc_def [symmetric] g o)
      (simp add: example_peer_def org2_peer_def)
qed

lemma getAdditionalEndorsers_result_witness:
  "\<exists>names merged. getInvocationChainFromResponse (env_proto selecting_env) example_response = Ok names
     \<and> mergeInvocationChains example_chain names (getCCFilter selecting_env (rc_Opts endorsed_rc)) = (merged, True)
     \<and> InvocationChain (rc_Request merged_rc) = map Some merged
     \<and> MSPID ` set [org2_peer] \<inter> MSPID ` set (Targets (rc_Opts endorsed_rc)) = {}"
proof -
  have r: "Responses (rc_Response endorsed_rc) = [example_response]" by (simp add: endorsed_rc_def)
  obtain names merged where n: "getInvocationChainFromResponse (env_proto selecting_env) example_response = Ok names"
      "mergeInvocationChains example_chain names (getCCFilter selecting_env (rc_Opts endorsed_rc)) = (merged, True)"
    and m: "merged_rc = endorsed_rc\<lparr>rc_Request := (rc_Request endorsed_rc)\<lparr>InvocationChain := map Some merged\<rparr>\<rparr>"
    and d: "MSPID ` set [org2_peer] \<inter> MSPID ` set (Targets (rc_Opts endorsed_rc)) = {}"
    using getAdditionalEndorsers_result [OF example_additional [of "[]"]]
    by (auto simp: r split: if_splits)
  have "InvocationChain (rc_Request merged_rc) = map Some merged" by (subst m) simp
  with n d show ?thesis by blast
qed

text \<open>
  C8: The selecting handler, once the first round of endorsements succeeded. When looking for
  additional endorsers fails or finds none, the responses collected so far go on to the next handler
  without an error; otherwise the additional endorsers become the targets, their responses are appended,
  and only a failure of this second round is an error. Payload and status stay those of the first response.
\<close>

theorem select_handler_rounds:
  assumes "Targets (rc_Opts rc) = []" and "getEndorsers E rc [] t = Ok ((chain, peers, None), t1)"
    and "dsh_signedProposal e = Some sp" and "cc_Transactor cc = DelegateTransactor tr"
    and "Transactor_SendSignedProposal E tr (Some sp) (env_PeersToTxnProcessors E peers) t1 = ((resps, None), t2)"
    and "resps \<noteq> []" and "wellformed_response (hd resps)"
    and "rc2 = rc\<lparr>rc_Opts := (rc_Opts rc)\<lparr>Targets := peers\<rparr>,
           rc_Response := (rc_Response rc)\<lparr>Responses := resps, resp_Payload := response_payload (hd resps),
             resp_ChaincodeStatus := tpr_ChaincodeStatus (hd resps)\<rparr>\<rparr>"
    and "getAdditionalEndorsers E rc2 chain t2 = Ok (additional, rc3, t3)"
  shows "rc_Response rc3 = rc_Response rc2 \<and> rc_Error rc3 = rc_Error rc \<and>
    DelegateSelectAndEndorseHandler_Handle E e rc cc t =
      (if additional = Inr [] \<or> isl additional then call_next (dsh_next e) rc3 cc t3
       else let rc4 = rc3\<lparr>rc_Opts := (rc_Opts rc3)\<lparr>Targets := projr additional\<rparr>\<rparr> in
        (case Transactor_SendSignedProposal E tr (Some sp) (env_PeersToTxnProcessors E (projr additional)) t3 of
           ((_, Some err), t4) \<Rightarrow> Ok (rc4\<lparr>rc_Error := Some (Wrap ''error sending transaction proposal'' err)\<rparr>, t4)
         | ((resps2, None), t4) \<Rightarrow> call_next (dsh_next e)
             (rc4\<lparr>rc_Response := (rc_Response rc2)\<lparr>Responses := resps @ resps2\<rparr>\<rparr>) cc t4))"
proof -
  have keep: "rc_Response rc3 = rc_Response rc2" "rc_Error rc3 = rc_Error rc2"
    using getAdditionalEndorsers_context [OF assms(9)] by simp_all
  let ?rc1 = "rc\<lparr>rc_Opts := (rc_Opts rc)\<lparr>Targets := peers\<rparr>\<rparr>"
  have rec: "record_responses ?rc1 resps = Ok rc2"
    using record_responses_ok [OF assms(6,7), of ?rc1] assms(8) by simp
  have r2: "Responses (rc_Response rc2) = resps" "rc_Error rc2 = rc_Error rc" using assms(8) by simp_all
  have "DelegateSelectAndEndorseHandler_Handle E e rc cc t = additional_endorsements E e tr [] chain rc2 cc t2"
    using assms(1-5) rec
    by (simp add: DelegateSelectAndEndorseHandler_Handle_def Let_def endorse_selected_def getDelegateTransactor_def)
  also have "\<dots> = (if additional = Inr [] \<or> isl additional then call_next (dsh_next e) rc3 cc t3
       else let rc4 = rc3\<lparr>rc_Opts := (rc_Opts rc3)\<lparr>Targets := projr additional\<rparr>\<rparr> in
        (case Transactor_SendSignedProposal E tr (Some sp) (env_PeersToTxnProcessors E (projr additional)) t3 of
           ((_, Some err), t4) \<Rightarrow> Ok (rc4\<lparr>rc_Error := Some (Wrap ''error sending transaction proposal'' err)\<rparr>, t4)
         | ((resps2, None), t4) \<Rightarrow> call_next (dsh_next e)
             (rc4\<lparr>rc_Response := (rc_Response rc2)\<lparr>Responses := resps @ resps2\<rparr>\<rparr>) cc t4))"
    using assms(3,6,9) r2 keep
    by (cases additional) (simp_all add: additional_endorsements_def Let_def split: prod.split option.split)
  finally show ?thesis using keep r2 by simp
qed

lemma selecting_env_sends:
  assumes "distinct (map URL ps)" and "ps \<noteq> []"
  shows "\<exists>t'. Transactor_SendSignedProposal selecting_env example_transactor (Some example_sp)
     (env_PeersToTxnProcessors selecting_env ps) t = ((replicate (length ps) example_response, None), t')"
proof -
  have ctx: "RequestClientContext (t_reqCtx example_transactor) = Some orderer_client"
    by (simp add: example_transactor_def orderer_ctx_def RequestClientContext_def)
  have env: "schedule_complete selecting_env" "ToError_documented selecting_env"
    "env_PeersToTxnProcessors selecting_env ps = map (\<lambda>p. Some (PeerProcessor p)) ps"
    using example_env_documented
    by (simp_all add: selecting_env_def answering_env_def example_env_def schedule_complete_def ToError_documented_def)
  obtain resps where "mset resps = mset (map (\<lambda>_. example_response) [0..<length (uniq_by URL ps)])"
    "Transactor_SendSignedProposal selecting_env example_transactor (Some example_sp)
       (map (\<lambda>p. Some (PeerProcessor p)) ps) t = ((resps, None), batch_trace t ps example_sp)"
    using send_to_peers [OF assms(2) env(1,2) ctx, of t example_sp "\<lambda>_. example_response"]
    by (auto simp: selecting_env_def)
  moreover from this have "resps = replicate (length ps) example_response"
    using assms(1) mset_eq_length mset_eq_setD
    by (fastforce simp: uniq_by_distinct intro!: replicate_eqI)
  ultimately show ?thesis using env(3) by auto
qed

lemma select_handler_rounds_witness:
  "\<exists>rc' t'. DelegateSelectAndEndorseHandler_Handle selecting_env
      (NewDelegateSelectAndEndorseHandler (Some example_sp) []) (example_rc []) delegate_cc [] = Ok (rc', t')
    \<and> Responses (rc_Response rc') = [example_response, example_response]
    \<and> Targets (rc_Opts rc') = [org2_peer] \<and> rc_Error rc' = None"
proof -
  let ?e = "NewDelegateSelectAndEndorseHandler (Some example_sp) []"
  let ?t1 = "[GetEndorsersForChaincode example_chain]"
  have sel: "getEndorsers selecting_env (example_rc []) [] [] =
      Ok ((example_chain, [example_peer 0 ''a''], None), ?t1)"
    by (simp add: getEndorsers_def Let_def newInvocationChain_def example_rc_def example_chain_def selecting_env_def)
  obtain t2 where send1: "Transactor_SendSignedProposal selecting_env example_transactor (Some example_sp)
      (env_PeersToTxnProcessors selecting_env [example_peer 0 ''a'']) ?t1 = (([example_response], None), t2)"
    using selecting_env_sends [of "[example_peer 0 ''a'']" ?t1] by auto
  let ?t3 = "t2 @ [GetEndorsersForChaincode [\<lparr>ID = ''cc'', Collections = []\<rparr>, \<lparr>ID = ''ping'', Collections = [''c'']\<rparr>]]"
  obtain t4 where send2: "Transactor_SendSignedProposal selecting_env example_transactor (Some example_sp)
      (env_PeersToTxnProcessors selecting_env [org2_peer]) ?t3 = (([example_response], None), t4)"
    using selecting_env_sends [of "[org2_peer]" ?t3] by auto
  have rc2: "endorsed_rc = (example_rc [])\<lparr>rc_Opts := (rc_Opts (example_rc []))\<lparr>Targets := [example_peer 0 ''a'']\<rparr>,
      rc_Response := (rc_Response (example_rc []))\<lparr>Responses := [example_response],
        resp_Payload := response_payload (hd [example_response]),
        resp_ChaincodeStatus := tpr_ChaincodeStatus (hd [example_response])\<rparr>\<rparr>"
    by (simp add: endorsed_rc_def example_rc_def response_payload_def example_response_def emptyOpts_def)
  have wf: "wellformed_response (hd [example_response])"
    by (simp add: wellformed_response_def example_response_def)
  have e: "dsh_signedProposal ?e = Some example_sp" "dsh_next ?e = None"
    by (simp_all add: NewDelegateSelectAndEndorseHandler_def getNext_def)
  have pre: "Targets (rc_Opts (example_rc [])) = []" "cc_Transactor delegate_cc = DelegateTransactor example_transactor"
    by (simp_all add: example_rc_def delegate_cc_def)
  show ?thesis
    using select_handler_rounds [OF pre(1) sel e(1) pre(2) send1 _ wf rc2 example_additional] send2
    by (simp add: Let_def call_next_def e(2)) (simp add: endorsed_rc_def example_rc_def)
qed

text \<open>
  The two handlers keep their hands where the client expects them, whatever follows them in the
  chain does the same: they send only the signed proposal they were made for, broadcast nothing, cancel
  every request context they open, touch no event registration, and report failure in the context.
\<close>

lemma delegate_handlers_framed:
  assumes "next_ok h sp"
  shows "keeps sp t (DelegateEndorsementHandler_Handle E \<lparr>deh_next = h, deh_signedProposal = sp\<rparr> rc cc t)
    \<and> keeps sp t (DelegateSelectAndEndorseHandler_Handle E \<lparr>dsh_signedProposal = sp, dsh_next = h\<rparr> rc cc t)"
  using assms endorsement_handler_contract [of "\<lparr>deh_next = h, deh_signedProposal = sp\<rparr>" E]
    select_handler_contract [of "\<lparr>dsh_signedProposal = sp, dsh_next = h\<rparr>" E]
  by (simp add: request_handler.handle_keeps)

lemma delegate_handlers_framed_witness:
  "keeps (Some example_sp) [] (DelegateSelectAndEndorseHandler_Handle selecting_env
     \<lparr>dsh_signedProposal = Some example_sp, dsh_next = None\<rparr> (example_rc []) delegate_cc [])"
proof -
  have "next_ok None (Some example_sp)" by (simp add: next_ok_def)
  from delegate_handlers_framed [OF this] show ?thesis by blast
qed

text \<open>
  C37: A peer can crash the client: if the first response of a successful batch lacks its proposal
  response, or that lacks its \<open>Response\<close> message, both handlers dereference nil.
\<close>

theorem malformed_response_panics:
  assumes "Targets (rc_Opts rc) \<noteq> []" and "cc_Transactor cc = DelegateTransactor tr"
    and "Transactor_SendSignedProposal E tr (Some sp) (env_PeersToTxnProcessors E (Targets (rc_Opts rc))) t
           = ((r # rs, None), t')"
    and "\<not> wellformed_response r"
  shows "DelegateEndorsementHandler_Handle E \<lparr>deh_next = h, deh_signedProposal = Some sp\<rparr> rc cc t = Panic
    \<and> DelegateSelectAndEndorseHandler_Handle E \<lparr>dsh_signedProposal = Some sp, dsh_next = h\<rparr> rc cc t = Panic"
proof -
  have "Option.bind (tpr_ProposalResponse r) pr_Response = None"
    using assms(4) by (cases "tpr_ProposalResponse r") (auto simp: wellformed_response_def)
  then have "record_responses rc (r # rs) = Panic" by (simp add: record_responses_def)
  with assms(1-3) show ?thesis
    by (simp add: DelegateEndorsementHandler_Handle_def DelegateSelectAndEndorseHandler_Handle_def
      endorse_selected_def getDelegateTransactor_def)
qed

definition malformed_env :: invoke_env where
  "malformed_env = example_env\<lparr>env_Process := (\<lambda>t c i p sp.
     Inr (example_response\<lparr>tpr_ProposalResponse := Some \<lparr>pr_Payload = [9], pr_Response = None\<rparr>\<rparr>))\<rparr>"

lemma malformed_response_panics_witness:
  "DelegateEndorsementHandler_Handle malformed_env \<lparr>deh_next = None, deh_signedProposal = Some example_sp\<rparr>
     (example_rc [org2_peer]) delegate_cc [] = Panic"
proof -
  let ?r = "example_response\<lparr>tpr_ProposalResponse := Some \<lparr>pr_Payload = [9], pr_Response = None\<rparr>\<rparr>"
  have send: "Transactor_SendSignedProposal malformed_env example_transactor (Some example_sp)
      (env_PeersToTxnProcessors malformed_env (Targets (rc_Opts (example_rc [org2_peer])))) [] =
      (([?r], None), batch_trace [] [org2_peer] example_sp)"
    by (simp add: Transactor_SendSignedProposal_def SendSignedProposal_def Let_def example_rc_def batch_trace_def
      malformed_env_def example_env_def getTargetsWithoutDuplicates_def batch_answer_def
      example_transactor_def orderer_ctx_def RequestClientContext_def)
  have "\<not> wellformed_response ?r" by (simp add: wellformed_response_def)
  then show ?thesis
    using malformed_response_panics [OF _ _ send, where cc = delegate_cc] by (simp add: delegate_cc_def example_rc_def)
qed

end
