(* ===== verification/Options.thy ===== *)
theory Options
  imports Prelude Fabric_Types
begin

text \<open>
  Request options: \<open>pkg/client/channel/api.go\<close> and the option handling of
  \<open>pkg/client/channel/chclient.go\<close>. An option is a function that mutates the options through a pointer
  and may return an error; here it returns the options as it leaves them and the error. The timeout map is
  \<open>None\<close> while it is Go's nil map; reading a missing key of a nil or a made map gives 0.
\<close>

section \<open>The options of the API\<close>

type_synonym request_option = "clientCtx \<Rightarrow> Opts \<Rightarrow> Opts \<times> error option"

fun validate_targets :: "peer option list \<Rightarrow> error option" where
  "validate_targets [] = None"
| "validate_targets (t # ts) =
     (case t of None \<Rightarrow> Some (Errorf ''target is nil'') | Some p \<Rightarrow> validate_targets ts)"

definition WithTargets :: "peer option list \<Rightarrow> request_option" where
  "WithTargets targets ctx opts =
     (case validate_targets targets of
        Some err \<Rightarrow> (opts, Some err)
      | None \<Rightarrow> (opts\<lparr>Targets := map the targets\<rparr>, None))"

fun target_endpoints_loop :: "clientCtx \<Rightarrow> peer option list \<Rightarrow> string list \<Rightarrow> error + peer option list" where
  "target_endpoints_loop ctx targets [] = Inr targets"
| "target_endpoints_loop ctx targets (url # keys) =
     (case ctx_NetworkPeerConfig ctx url of
        Inl err \<Rightarrow> Inl err
      | Inr peerCfg \<Rightarrow>
          (case ctx_CreatePeerFromConfig ctx peerCfg of
             Inl err \<Rightarrow> Inl (Wrap ''creating peer from config failed'' err)
           | Inr peer \<Rightarrow> target_endpoints_loop ctx (targets @ [peer]) keys))"

definition WithTargetEndpoints :: "string list \<Rightarrow> request_option" where
  "WithTargetEndpoints keys ctx opts =
     (case target_endpoints_loop ctx [] keys of
        Inl err \<Rightarrow> (opts, Some err)
      | Inr targets \<Rightarrow> WithTargets targets ctx opts)"

definition WithTargetFilter :: "(peer \<Rightarrow> bool) option \<Rightarrow> request_option" where
  "WithTargetFilter filt ctx opts = (opts\<lparr>TargetFilter := filt\<rparr>, None)"

definition WithTargetSorter :: "(peer list \<Rightarrow> peer list) option \<Rightarrow> request_option" where
  "WithTargetSorter sorter ctx opts = (opts\<lparr>TargetSorter := sorter\<rparr>, None)"

definition WithRetry :: "retryOpts \<Rightarrow> request_option" where
  "WithRetry retryOpt ctx opts = (opts\<lparr>Retry := retryOpt\<rparr>, None)"

definition WithBeforeRetry :: "nat option \<Rightarrow> request_option" where
  "WithBeforeRetry beforeRetry ctx opts = (opts\<lparr>BeforeRetry := beforeRetry\<rparr>, None)"

definition WithTimeout :: "TimeoutType \<Rightarrow> duration \<Rightarrow> request_option" where
  "WithTimeout timeoutType timeout ctx opts =
     (let m = (case Timeouts opts of None \<Rightarrow> Map.empty | Some m \<Rightarrow> m)
      in (opts\<lparr>Timeouts := Some (m(timeoutType \<mapsto> timeout))\<rparr>, None))"

definition WithParentContext :: "reqctx option \<Rightarrow> request_option" where
  "WithParentContext parentContext ctx opts = (opts\<lparr>ParentContext := parentContext\<rparr>, None)"

definition WithChaincodeFilter :: "(string \<Rightarrow> bool) option \<Rightarrow> request_option" where
  "WithChaincodeFilter ccFilter ctx opts = (opts\<lparr>CCFilter := ccFilter\<rparr>, None)"

section \<open>Defaults and evaluation\<close>

text \<open>\<open>o.Timeouts[tt]\<close>\<close>

definition timeout_of :: "Opts \<Rightarrow> TimeoutType \<Rightarrow> duration" where
  "timeout_of opts tt =
     (case Timeouts opts of None \<Rightarrow> 0 | Some m \<Rightarrow> (case m tt of None \<Rightarrow> 0 | Some d \<Rightarrow> d))"

definition addDefaultTimeout :: "TimeoutType \<Rightarrow> request_option" where
  "addDefaultTimeout tt ctx opts =
     (if timeout_of opts tt = 0 then WithTimeout tt (ctx_Timeout ctx tt) ctx opts else (opts, None))"

datatype EndpointType = ChaincodeQuery | EndorsingPeer | OtherEndpoint nat

text \<open>\<open>newFilter ft\<close> is the parameter \<open>filter.NewEndpointFilter(chCtx, ft)\<close>.\<close>

definition addDefaultTargetFilter :: "(EndpointType \<Rightarrow> peer \<Rightarrow> bool) \<Rightarrow> EndpointType \<Rightarrow> request_option" where
  "addDefaultTargetFilter newFilter ft ctx opts =
     (if length (Targets opts) = 0 \<and> TargetFilter opts = None
      then WithTargetFilter (Some (newFilter ft)) ctx opts else (opts, None))"

fun prepareOpts_loop :: "clientCtx \<Rightarrow> Opts \<Rightarrow> request_option list \<Rightarrow> Opts \<times> error option" where
  "prepareOpts_loop ctx txnOpts [] = (txnOpts, None)"
| "prepareOpts_loop ctx txnOpts (opt # options) =
     (case opt ctx txnOpts of
        (txnOpts', Some err) \<Rightarrow> (txnOpts', Some (Wrap ''failed to read opts'' err))
      | (txnOpts', None) \<Rightarrow> prepareOpts_loop ctx txnOpts' options)"

definition prepareOptsFromOptions :: "clientCtx \<Rightarrow> request_option list \<Rightarrow> Opts \<times> error option" where
  "prepareOptsFromOptions ctx options = prepareOpts_loop ctx emptyOpts options"

text \<open>
  \<open>createReqContext\<close> completes the timeouts of the options (it mutates them), opens the request context
  with the execute timeout and stores the timeouts in it for the contexts created under it.
\<close>

definition createReqContext :: "clientCtx \<Rightarrow> Opts \<Rightarrow> trace \<Rightarrow> (reqctx \<times> Opts) \<times> trace" where
  "createReqContext ctx txnOpts t =
     (let m0 = (case Timeouts txnOpts of None \<Rightarrow> Map.empty | Some m \<Rightarrow> m);
          opts0 = txnOpts\<lparr>Timeouts := Some m0\<rparr>;
          m1 = (if timeout_of opts0 Execute = 0 then m0(Execute \<mapsto> ctx_Timeout ctx Execute) else m0);
          opts1 = opts0\<lparr>Timeouts := Some m1\<rparr>;
          life = ForDuration (timeout_of opts1 Execute)
      in ((RequestContextValue (Some ctx) life (ParentContext opts1) (Some m1), opts1), t @ [NewRequest life]))"

section \<open>Lemmas\<close>

lemma validate_targets_None: "validate_targets ts = None \<longleftrightarrow> None \<notin> set ts"
  by (induction ts) (auto split: option.splits)

lemma prepareOpts_loop_append:
  "prepareOpts_loop ctx opts (xs @ ys) =
     (case prepareOpts_loop ctx opts xs of
        (opts', Some err) \<Rightarrow> (opts', Some err)
      | (opts', None) \<Rightarrow> prepareOpts_loop ctx opts' ys)"
  by (induction xs arbitrary: opts) (auto split: prod.splits option.splits)

text \<open>
  An option that sets one field of the options, observed by \<open>get\<close>: the contract that the evaluation of
  an option list relies on. The last option that sets a field decides its value.
\<close>

definition preserves :: "request_option \<Rightarrow> (Opts \<Rightarrow> 'f) \<Rightarrow> bool" where
  "preserves opt get \<longleftrightarrow> (\<forall>ctx opts. get (fst (opt ctx opts)) = get opts)"

lemma prepareOpts_loop_preserves:
  "\<forall>opt \<in> set ys. preserves opt get \<Longrightarrow> get (fst (prepareOpts_loop ctx opts ys)) = get opts"
proof (induction ys arbitrary: opts)
  case (Cons opt ys)
  then have "get (fst (opt ctx opts)) = get opts" by (simp add: preserves_def)
  with Cons show ?case by (auto split: prod.splits option.splits)
qed simp

locale field_option =
  fixes opt :: request_option and get :: "Opts \<Rightarrow> 'f" and val :: 'f
  assumes sets_field: "snd (opt ctx opts) = None \<Longrightarrow> get (fst (opt ctx opts)) = val"
    and error_keeps: "snd (opt ctx opts) \<noteq> None \<Longrightarrow> fst (opt ctx opts) = opts"
begin

lemma last_wins:
  assumes "\<forall>o' \<in> set ys. preserves o' get"
    and "prepareOptsFromOptions ctx (xs @ opt # ys) = (opts, None)"
  shows "get opts = val"
proof -
  obtain o1 where o1: "prepareOpts_loop ctx emptyOpts xs = (o1, None)"
    using assms(2) by (auto simp: prepareOptsFromOptions_def prepareOpts_loop_append
      split: prod.splits option.splits)
  obtain o2 where o2: "opt ctx o1 = (o2, None)" "prepareOpts_loop ctx o2 ys = (opts, None)"
    using assms(2) o1 by (auto simp: prepareOptsFromOptions_def prepareOpts_loop_append
      split: prod.splits option.splits)
  have "get (fst (prepareOpts_loop ctx o2 ys)) = get o2"
    by (rule prepareOpts_loop_preserves) (rule assms(1))
  with o2 sets_field [of ctx o1] show ?thesis by simp
qed

lemma error_or_set: "get (fst (opt ctx opts)) = val \<or> fst (opt ctx opts) = opts"
  using sets_field error_keeps by blast

end

interpretation targets_option: field_option "WithTargets ts" Targets "map the ts" for ts
  by unfold_locales (auto simp: WithTargets_def split: option.splits)

interpretation filter_option: field_option "WithTargetFilter f" TargetFilter f for f
  by unfold_locales (auto simp: WithTargetFilter_def)

interpretation sorter_option: field_option "WithTargetSorter f" TargetSorter f for f
  by unfold_locales (auto simp: WithTargetSorter_def)

interpretation retry_option: field_option "WithRetry r" Retry r for r
  by unfold_locales (auto simp: WithRetry_def)

interpretation before_retry_option: field_option "WithBeforeRetry b" BeforeRetry b for b
  by unfold_locales (auto simp: WithBeforeRetry_def)

interpretation timeout_option: field_option "WithTimeout tt d" "\<lambda>opts. timeout_of opts tt" d for tt d
  by unfold_locales (auto simp: WithTimeout_def timeout_of_def Let_def)

interpretation parent_option: field_option "WithParentContext p" ParentContext p for p
  by unfold_locales (auto simp: WithParentContext_def)

interpretation cc_filter_option: field_option "WithChaincodeFilter f" CCFilter f for f
  by unfold_locales (auto simp: WithChaincodeFilter_def)

text \<open>Which options leave which fields alone.\<close>

lemma preserves_Targets [simp]:
  "preserves (WithTargetFilter f) Targets" "preserves (WithTargetSorter s) Targets"
  "preserves (WithRetry r) Targets" "preserves (WithBeforeRetry b) Targets" "preserves (WithTimeout tt d) Targets"
  "preserves (WithParentContext p) Targets" "preserves (WithChaincodeFilter cf) Targets"
  "preserves (addDefaultTimeout tt) Targets" "preserves (addDefaultTargetFilter newFilter ft) Targets"
  by (auto simp: preserves_def WithTargetFilter_def WithTargetSorter_def WithRetry_def WithBeforeRetry_def
    WithTimeout_def WithParentContext_def WithChaincodeFilter_def addDefaultTimeout_def addDefaultTargetFilter_def)

text \<open>The configured peer of a key, and the loop over the keys as the accumulating loop.\<close>

definition endpoint_peer :: "clientCtx \<Rightarrow> string \<Rightarrow> peer option result" where
  "endpoint_peer ctx url =
     (case ctx_NetworkPeerConfig ctx url of
        Inl err \<Rightarrow> Err err
      | Inr cfg \<Rightarrow>
          (case ctx_CreatePeerFromConfig ctx cfg of
             Inl err \<Rightarrow> Err (Wrap ''creating peer from config failed'' err)
           | Inr p \<Rightarrow> Ok p))"

lemma target_endpoints_loop_eq:
  "append_loop (endpoint_peer ctx) acc keys =
     (case target_endpoints_loop ctx acc keys of Inl err \<Rightarrow> Err err | Inr ts \<Rightarrow> Ok ts)"
  by (induction keys arbitrary: acc) (auto simp: endpoint_peer_def split: sum.splits)

section \<open>Properties\<close>

text \<open>
  C31: The options the client appends itself only fill gaps: the default timeout is set exactly when
  the caller gave none (or zero) for that type, the default target filter exactly when the caller gave
  neither targets nor a filter; every other option of the caller is left as it is, and the defaults cannot
  fail.
\<close>

theorem defaults_fill_gaps:
  assumes "prepareOptsFromOptions ctx options = (o1, None)"
  shows "\<exists>o2. prepareOptsFromOptions ctx (options @ [addDefaultTimeout tt, addDefaultTargetFilter newFilter ft]) = (o2, None)
    \<and> (\<forall>ty. timeout_of o2 ty = (if ty = tt \<and> timeout_of o1 ty = 0 then ctx_Timeout ctx tt else timeout_of o1 ty))
    \<and> TargetFilter o2 = (if Targets o1 = [] \<and> TargetFilter o1 = None then Some (newFilter ft) else TargetFilter o1)
    \<and> o2\<lparr>Timeouts := Timeouts o1, TargetFilter := TargetFilter o1\<rparr> = o1"
proof -
  obtain o2 where o2: "addDefaultTimeout tt ctx o1 = (o2, None)"
    by (cases "timeout_of o1 tt = 0") (simp_all add: addDefaultTimeout_def WithTimeout_def)
  obtain o3 where o3: "addDefaultTargetFilter newFilter ft ctx o2 = (o3, None)"
    by (cases "Targets o2 = [] \<and> TargetFilter o2 = None") (auto simp: addDefaultTargetFilter_def WithTargetFilter_def)
  have "\<forall>ty. timeout_of o2 ty = (if ty = tt \<and> timeout_of o1 ty = 0 then ctx_Timeout ctx tt else timeout_of o1 ty)"
    "o2\<lparr>Timeouts := Timeouts o1\<rparr> = o1"
    using o2 by (auto simp: addDefaultTimeout_def WithTimeout_def Let_def timeout_of_def split: if_splits option.splits)
  moreover have "o3 = o2\<lparr>TargetFilter := (if Targets o2 = [] \<and> TargetFilter o2 = None then Some (newFilter ft) else TargetFilter o2)\<rparr>"
    using o3 by (auto simp: addDefaultTargetFilter_def WithTargetFilter_def split: if_splits)
  moreover have "Targets o2 = Targets o1" "TargetFilter o2 = TargetFilter o1"
    using o2 by (auto simp: addDefaultTimeout_def WithTimeout_def Let_def split: if_splits)
  ultimately show ?thesis using assms o2 o3
    by (intro exI [of _ o3]) (auto simp: prepareOptsFromOptions_def prepareOpts_loop_append timeout_of_def)
qed

definition options_client :: clientCtx where
  "options_client = \<lparr>ctx_Serialize = Inr [1], ctx_GetHash = (\<lambda>b. b), ctx_Timeout = (\<lambda>tt. 30), ctx_ChannelConfig = (\<lambda>ch. None),
     ctx_OrdererConfig = (\<lambda>n. (None, False, False)), ctx_OrderersConfig = [],
     ctx_NetworkPeerConfig = (\<lambda>k. if k = ''gone'' then Inl (External 4) else Inr \<lparr>pc_URL = k, pc_rest = 0\<rparr>),
     ctx_CreateOrdererFromConfig = (\<lambda>c. Inl (External 2)),
     ctx_CreatePeerFromConfig = (\<lambda>c. Inr (if pc_URL c = ''nil'' then None
        else Some \<lparr>peer_id = 0, URL = pc_URL c, MSPID = ''Org1''\<rparr>))\<rparr>"

lemma defaults_fill_gaps_witness:
  "\<exists>o2. prepareOptsFromOptions options_client
       ([WithTimeout Query 5] @ [addDefaultTimeout Execute, addDefaultTargetFilter (\<lambda>ft p. ft = EndorsingPeer) EndorsingPeer]) = (o2, None)
     \<and> timeout_of o2 Query = 5 \<and> timeout_of o2 Execute = 30 \<and> TargetFilter o2 = Some (\<lambda>p. True)"
proof -
  have "prepareOptsFromOptions options_client [WithTimeout Query 5] = (emptyOpts\<lparr>Timeouts := Some [Query \<mapsto> 5]\<rparr>, None)"
    by (simp add: prepareOptsFromOptions_def WithTimeout_def emptyOpts_def)
  from defaults_fill_gaps [OF this, of Execute "\<lambda>ft p. ft = EndorsingPeer" EndorsingPeer]
  show ?thesis by (auto simp: timeout_of_def emptyOpts_def options_client_def)
qed

text \<open>
  C40: Targets given by name: they replace the targets exactly when every key has a configuration and
  a peer was created for it, in the order of the keys; otherwise the options are unchanged and the error
  is that of the first key that failed, or, when all keys were resolved, that of a nil peer.
\<close>

theorem WithTargetEndpoints_result:
  "WithTargetEndpoints keys ctx opts =
     (case append_loop (endpoint_peer ctx) [] keys of
        Ok targets \<Rightarrow> if None \<in> set targets then (opts, Some (Errorf ''target is nil''))
                      else (opts\<lparr>Targets := map the targets\<rparr>, None)
      | Err err \<Rightarrow> (opts, Some err)
      | Panic \<Rightarrow> (opts, None))
   \<and> append_loop (endpoint_peer ctx) [] keys \<noteq> Panic"
proof -
  have "validate_targets ts = Some (Errorf ''target is nil'')" if "None \<in> set ts" for ts
    using that by (induction ts) (auto split: option.splits)
  then show ?thesis
    by (auto simp: WithTargetEndpoints_def WithTargets_def target_endpoints_loop_eq validate_targets_None
      split: sum.splits option.splits)
      (metis option.distinct(1) validate_targets_None)+
qed

text \<open>
  C32: The request context of a call: it lives as long as the caller's execute timeout, or the
  configured one when the caller gave none; it hands exactly the caller's timeouts (completed by that one)
  to the contexts created under it, keeps the caller's parent and client, and the options change in
  nothing but their timeouts.
\<close>

theorem createReqContext_deadline:
  assumes "createReqContext ctx opts t = ((reqCtx, opts'), t')"
    and "d = (if timeout_of opts Execute = 0 then ctx_Timeout ctx Execute else timeout_of opts Execute)"
  shows "ctx_lifetime reqCtx = ForDuration d \<and> t' = t @ [NewRequest (ForDuration d)]
    \<and> RequestClientContext reqCtx = Some ctx \<and> ctx_parent reqCtx = ParentContext opts
    \<and> ctx_overrides reqCtx = Timeouts opts'
    \<and> (\<forall>tt. timeout_of opts' tt = (if tt = Execute then d else timeout_of opts tt))
    \<and> opts'\<lparr>Timeouts := Timeouts opts\<rparr> = opts"
proof -
  have "timeout_of (opts\<lparr>Timeouts := Some (case Timeouts opts of None \<Rightarrow> Map.empty | Some m \<Rightarrow> m)\<rparr>) tt = timeout_of opts tt" for tt
    by (simp add: timeout_of_def split: option.splits)
  then show ?thesis using assms
    by (auto simp: createReqContext_def Let_def RequestClientContext_def timeout_of_def split: option.splits if_splits)
qed

lemma createReqContext_deadline_witness:
  "\<exists>reqCtx opts' t'. createReqContext options_client (emptyOpts\<lparr>Timeouts := Some [Query \<mapsto> 5]\<rparr>) [] = ((reqCtx, opts'), t')
    \<and> ctx_lifetime reqCtx = ForDuration 30 \<and> timeout_of opts' Query = 5"
proof -
  obtain reqCtx opts' t' where c: "createReqContext options_client (emptyOpts\<lparr>Timeouts := Some [Query \<mapsto> 5]\<rparr>) [] = ((reqCtx, opts'), t')"
    by (metis surj_pair)
  show ?thesis
    using c createReqContext_deadline [OF c refl] by (auto simp: timeout_of_def options_client_def)
qed

end
