(* ===== verification/Channel_Client.thy ===== *)
theory Channel_Client
  imports Prelude Fabric_Types Invocation_Chain Txn Transactor Handlers Options
begin

text \<open>
  The channel client, \<open>pkg/client/channel/chclient.go\<close>: signing proposals, querying and endorsing with
  a proposal that somebody else signed, assembling and signing the transaction payload, broadcasting the
  signed envelope and waiting for its status. The client embeds the SDK's client and keeps its channel
  context and services; its mutable parts (greylist, event registrations, contexts) are in the trace.
\<close>

section \<open>Messages and parameters\<close>

record ChannelHeader =
  ch_ChannelId :: string
  ch_TxId :: string
  ch_Extension :: bytes

record common_Header =
  hdr_ChannelHeader :: bytes
  hdr_SignatureHeader :: bytes

record ChaincodeHeaderExtension =
  che_ChaincodeId :: "string option"

record Payload =
  pl_Header :: "common_Header option"
  pl_Data :: bytes

record common_Envelope =
  ce_Payload :: bytes
  ce_Signature :: bytes

record ChaincodeInvokeRequest =
  cir_ChaincodeID :: string
  cir_Fcn :: string
  cir_Args :: "bytes list"
  cir_TransientMap :: "(string \<times> bytes) list"

text \<open>The protobuf library at the messages the client reads and writes.\<close>

record client_proto =
  Marshal_Proposal :: "Proposal option \<Rightarrow> bytes result"
  Unmarshal_Proposal :: "bytes \<Rightarrow> Proposal result"
  Unmarshal_Header :: "bytes \<Rightarrow> common_Header result"
  Unmarshal_ChannelHeader :: "bytes \<Rightarrow> ChannelHeader result"
  Unmarshal_ChaincodeHeaderExtension :: "bytes \<Rightarrow> ChaincodeHeaderExtension result"
  Marshal_Transaction :: "TransactionMessage \<Rightarrow> bytes result"
  Marshal_Payload :: "Payload option \<Rightarrow> bytes result"
  Unmarshal_Payload :: "bytes \<Rightarrow> Payload result"

text \<open>
  \<open>context.Channel\<close>: the client context of a channel, with the signing manager and the private key of
  its identity. \<open>core_Key\<close> is the identity of a \<open>core.Key\<close>; the signing manager's answer depends on the
  trace, for ECDSA signatures are randomised.
\<close>

type_synonym core_Key = nat

record channelContext =
  chan_client :: clientCtx
  chan_ChannelID :: string
  chan_service :: fab_ChannelService
  chan_SigningManager_Sign :: "trace \<Rightarrow> bytes \<Rightarrow> core_Key \<Rightarrow> error + bytes"
  chan_PrivateKey :: core_Key

text \<open>What the wait for a transaction status ends with: a status, a closed channel, or the context.\<close>

datatype notification = TxStatus TxValidationCode | NotifierClosed | ContextDone

text \<open>
  \<open>env_NewChannelClient\<close>: whether the SDK's \<open>channel.New\<close> fails on what the provider returned to it;
  \<open>env_Invoke r before invocation\<close>: \<open>Invoke\<close> of the SDK's \<open>retry.NewInvoker\<close> for the retry options \<open>r\<close>, on the
  state the two callbacks work on, the request context and the trace; \<open>env_Done\<close>: whether the request context ends before the invocation does, and after
  how many of the invocation's calls; \<open>env_sha256\<close>: Go's \<open>crypto/sha256\<close>.
\<close>

type_synonym invoke_state = "RequestContext \<times> trace"

record client_env = handler_env +
  env_client_proto :: client_proto
  env_NewChannelClient :: "channelContext option \<times> error option \<Rightarrow> error option"
  env_CreateChaincodeInvokeProposal :: "TransactionHeader \<Rightarrow> ChaincodeInvokeRequest \<Rightarrow> error + TransactionProposal"
  env_NewEndpointFilter :: "EndpointType \<Rightarrow> peer \<Rightarrow> bool"
  env_GreylistAccept :: "trace \<Rightarrow> peer \<Rightarrow> bool"
  env_Invoke :: "retryOpts \<Rightarrow> (error \<Rightarrow> invoke_state \<Rightarrow> invoke_state) \<Rightarrow>
    (invoke_state \<Rightarrow> (invoke_state \<times> error option) result) \<Rightarrow> invoke_state \<Rightarrow> invoke_state result"
  env_Done :: "trace \<Rightarrow> reqctx \<Rightarrow> nat option"
  env_RegisterTxStatusEvent :: "trace \<Rightarrow> string \<Rightarrow> error + nat"
  env_TxStatusEvent :: "trace \<Rightarrow> reqctx \<Rightarrow> nat \<Rightarrow> notification"
  env_sha256 :: "bytes \<Rightarrow> bytes"

section \<open>The client and its signing operations\<close>

text \<open>\<open>cl_eventService\<close>: whether the event service is there (its error is ignored, leaving nil).\<close>

record Client =
  cl_context :: channelContext
  cl_eventService :: bool

text \<open>\<open>channelProvider k\<close> is what the \<open>k\<close>-th call of the provider returns.\<close>

definition sdk_service :: "fab_ChannelService \<Rightarrow> sdk_ChannelService" where
  "sdk_service svc = (case svc of SdkChannelService cs \<Rightarrow> cs | ChannelService cs \<Rightarrow> cs)"

definition New :: "'z client_env_scheme \<Rightarrow> (nat \<Rightarrow> channelContext option \<times> error option) \<Rightarrow> Client result" where
  "New E channelProvider =
     (case env_NewChannelClient E (channelProvider 0) of
        Some err \<Rightarrow> Err err
      | None \<Rightarrow>
          bindR (deref (fst (channelProvider 1))) (\<lambda>channelContext.
            Ok \<lparr>cl_context = channelContext,
                cl_eventService = (svc_EventService (sdk_service (chan_service channelContext)) = None)\<rparr>))"

definition Sign :: "Client \<Rightarrow> bytes \<Rightarrow> trace \<Rightarrow> (error + bytes) \<times> trace" where
  "Sign cc data t =
     ((case chan_SigningManager_Sign (cl_context cc) t data (chan_PrivateKey (cl_context cc)) of
         Inl err \<Rightarrow> Inl (Wrap ''signing of payload failed'' err)
       | Inr signature \<Rightarrow> Inr signature),
      t @ [SignWithKey data])"

definition createProposal ::
  "'z client_env_scheme \<Rightarrow> headerCtx \<Rightarrow> string \<Rightarrow> Request \<Rightarrow> trace \<Rightarrow> bytes result \<times> trace"
where
  "createProposal E context channelID request t =
     (if ChaincodeID request = [] \<or> Fcn request = []
      then (Err (Errorf ''ChaincodeID and Fcn are required''), t)
      else
        ((case env_NewHeader E t context channelID [] of
            Inl err \<Rightarrow> Err (Wrap ''creating transaction header failed'' err)
          | Inr txh \<Rightarrow>
              (case env_CreateChaincodeInvokeProposal E txh
                      \<lparr>cir_ChaincodeID = ChaincodeID request, cir_Fcn = Fcn request,
                       cir_Args = Args request, cir_TransientMap = TransientMap request\<rparr> of
                 Inl err \<Rightarrow> Err (Wrap ''creating transaction proposal failed'' err)
               | Inr proposal \<Rightarrow>
                   wrapR ''marshal proposal failed'' (Marshal_Proposal (env_client_proto E) (tp_Proposal proposal)))),
         t @ [NewTransactionHeader channelID]))"

definition Client_CreateSignedProposal ::
  "'z client_env_scheme \<Rightarrow> Client \<Rightarrow> Request \<Rightarrow> trace \<Rightarrow> (SignedProposal result) \<times> trace"
where
  "Client_CreateSignedProposal E cc request t =
     (case createProposal E (headerCtx.truncate (chan_client (cl_context cc))) (chan_ChannelID (cl_context cc)) request t of
        (Err err, t1) \<Rightarrow> (Err err, t1)
      | (Panic, t1) \<Rightarrow> (Panic, t1)
      | (Ok proposalBytes, t1) \<Rightarrow>
          (case Sign cc proposalBytes t1 of
             (Inl err, t2) \<Rightarrow> (Err (Wrap ''sign proposal failed'' err), t2)
           | (Inr signature, t2) \<Rightarrow> (Ok \<lparr>ProposalBytes = proposalBytes, sp_Signature = signature\<rparr>, t2)))"

text \<open>A signing identity of the SDK, by the two methods the source calls.\<close>

record SigningIdentity =
  si_Serialize :: "error + bytes"
  si_Sign :: "trace \<Rightarrow> bytes \<Rightarrow> bytes result"

text \<open>
  \<open>dummyCtx\<close> embeds a nil channel context and overrides the three methods that creating a header uses.
\<close>

record dummyCtx =
  dc_si :: SigningIdentity
  dc_channelID :: string

definition dummyCtx_Serialize :: "dummyCtx \<Rightarrow> error + bytes" where
  "dummyCtx_Serialize c = si_Serialize (dc_si c)"

definition dummyCtx_ChannelID :: "dummyCtx \<Rightarrow> string" where
  "dummyCtx_ChannelID c = dc_channelID c"

definition cryptoSuite_GetHash :: "'z client_env_scheme \<Rightarrow> bytes \<Rightarrow> bytes" where
  "cryptoSuite_GetHash E = env_sha256 E"

definition CreateSignedProposal ::
  "'z client_env_scheme \<Rightarrow> SigningIdentity \<Rightarrow> string \<Rightarrow> Request \<Rightarrow> trace \<Rightarrow> (SignedProposal result) \<times> trace"
where
  "CreateSignedProposal E si channelID request t =
     (let c = \<lparr>dc_si = si, dc_channelID = channelID\<rparr> in
      case createProposal E \<lparr>ctx_Serialize = dummyCtx_Serialize c, ctx_GetHash = cryptoSuite_GetHash E\<rparr>
             (dummyCtx_ChannelID c) request t of
        (Err err, t1) \<Rightarrow> (Err err, t1)
      | (Panic, t1) \<Rightarrow> (Panic, t1)
      | (Ok proposalBytes, t1) \<Rightarrow>
          (case si_Sign si t1 proposalBytes of
             Err err \<Rightarrow> (Err (Wrap ''sign proposal failed'' err), t1 @ [SignWithKey proposalBytes])
           | Panic \<Rightarrow> (Panic, t1)
           | Ok signature \<Rightarrow>
               (Ok \<lparr>ProposalBytes = proposalBytes, sp_Signature = signature\<rparr>, t1 @ [SignWithKey proposalBytes])))"

section \<open>Reading proposals and assembling payloads\<close>

definition getProposalFromProposalBytes :: "client_proto \<Rightarrow> bytes \<Rightarrow> Proposal result" where
  "getProposalFromProposalBytes W proposalBytes = Unmarshal_Proposal W proposalBytes"

definition getChannelHeaderFromHeaderBytes :: "client_proto \<Rightarrow> bytes \<Rightarrow> ChannelHeader result" where
  "getChannelHeaderFromHeaderBytes W headerBytes =
     bindR (Unmarshal_Header W headerBytes) (\<lambda>h.
     bindR (Unmarshal_ChannelHeader W (hdr_ChannelHeader h)) (\<lambda>chh.
       if ch_ChannelId chh = [] then Err (Errorf ''missing channel id'') else Ok chh))"

definition getChaincodeIDFromExtension :: "client_proto \<Rightarrow> bytes \<Rightarrow> string result" where
  "getChaincodeIDFromExtension W extension =
     bindR (Unmarshal_ChaincodeHeaderExtension W extension) (\<lambda>ext. deref (che_ChaincodeId ext))"

definition createTxnPayload ::
  "'z client_env_scheme \<Rightarrow> string \<Rightarrow> Proposal \<Rightarrow> TransactionProposalResponse list \<Rightarrow> Payload result"
where
  "createTxnPayload E txnID proposal resps =
     (case env_NewTransaction E \<lparr>treq_Proposal = \<lparr>tp_TxnID = txnID, tp_Proposal = Some proposal\<rparr>,
                                 treq_ProposalResponses = resps\<rparr> of
        Inl err \<Rightarrow> Err err
      | Inr tx \<Rightarrow>
          bindR (Unmarshal_Header (env_client_proto E) (prop_Header proposal)) (\<lambda>hdr.
          bindR (Marshal_Transaction (env_client_proto E) (tx_Transaction tx)) (\<lambda>txBytes.
            Ok \<lparr>pl_Header = Some hdr, pl_Data = txBytes\<rparr>)))"

definition SignTxnPayload ::
  "'z client_env_scheme \<Rightarrow> Client \<Rightarrow> Payload option \<Rightarrow> trace \<Rightarrow> (SignedEnvelope result) \<times> trace"
where
  "SignTxnPayload E cc payload t =
     (case Marshal_Payload (env_client_proto E) payload of
        Err err \<Rightarrow> (Err err, t)
      | Panic \<Rightarrow> (Panic, t)
      | Ok payloadBytes \<Rightarrow>
          (case Sign cc payloadBytes t of
             (Inl err, t') \<Rightarrow> (Err err, t')
           | (Inr signature, t') \<Rightarrow> (Ok \<lparr>se_Payload = payloadBytes, se_Signature = signature\<rparr>, t')))"

definition getTxnIDFromPayloadBytes :: "client_proto \<Rightarrow> bytes \<Rightarrow> string result" where
  "getTxnIDFromPayloadBytes W payloadBytes =
     bindR (Unmarshal_Payload W payloadBytes) (\<lambda>txnPayload.
     bindR (deref (pl_Header txnPayload)) (\<lambda>hdr.
     bindR (Unmarshal_ChannelHeader W (hdr_ChannelHeader hdr)) (\<lambda>channelHeader.
       if ch_ChannelId channelHeader = [] then Err (Errorf ''missing channel id'')
       else Ok (ch_TxId channelHeader))))"

section \<open>Running a handler\<close>

definition prepareHandlerContexts ::
  "'z client_env_scheme \<Rightarrow> Client \<Rightarrow> reqctx \<Rightarrow> Request \<Rightarrow> Opts \<Rightarrow> (RequestContext \<times> ClientContext) result"
where
  "prepareHandlerContexts E cc reqCtx request opts =
     (let service = chan_service (cl_context cc) in
      if ChaincodeID request = [] \<or> Fcn request = []
      then Err (Errorf ''ChaincodeID and Fcn are required'')
      else bindR (wrapR ''failed to create transactor'' (ChannelService_Transactor E service reqCtx)) (\<lambda>transactor.
        case svc_Selection (sdk_service service) of
          Some err \<Rightarrow> Err (Wrap ''failed to create selection service'' err)
        | None \<Rightarrow>
            (case svc_Discovery (sdk_service service) of
               Some err \<Rightarrow> Err (Wrap ''failed to create discovery service'' err)
             | None \<Rightarrow>
                 (let peerFilter = (\<lambda>t peer.
                        if \<not> env_GreylistAccept E t peer then False
                        else (case TargetFilter opts of Some f \<Rightarrow> if \<not> f peer then False else True | None \<Rightarrow> True));
                      peerSorter = (case TargetSorter opts of Some s \<Rightarrow> Some (\<lambda>peers. s peers) | None \<Rightarrow> None)
                  in Ok (\<lparr>rc_Request = request, rc_Opts = opts, rc_Response = emptyResponse, rc_Error = None,
                           rc_RetryHandler = Retry opts, rc_Ctx = reqCtx, SelectionFilter = Some peerFilter,
                           PeerSorter = peerSorter\<rparr>,
                         \<lparr>cc_Transactor = transactor\<rparr>)))))"

text \<open>The function given to \<open>retry.WithBeforeRetry\<close>: \<open>txnOpts\<close> are the options of the call.\<close>

definition beforeRetry :: "Opts \<Rightarrow> error \<Rightarrow> invoke_state \<Rightarrow> invoke_state" where
  "beforeRetry txnOpts err s =
     (case s of (rc, t) \<Rightarrow>
        let t1 = (case BeforeRetry (rc_Opts rc) of Some n \<Rightarrow> t @ [CallBeforeRetry n err] | None \<Rightarrow> t)
        in (rc\<lparr>rc_Opts := (rc_Opts rc)\<lparr>Targets := Targets txnOpts\<rparr>, rc_Error := None, rc_Response := emptyResponse\<rparr>,
            t1 @ [GreylistAdd err]))"

text \<open>The closure given to \<open>invoker.Invoke\<close>: it runs the handler and returns the context's error.\<close>

definition invocation :: "handler \<Rightarrow> ClientContext \<Rightarrow> invoke_state \<Rightarrow> (invoke_state \<times> error option) result" where
  "invocation handle cc s =
     (case s of (rc, t) \<Rightarrow> bindR (handle rc cc t) (\<lambda>(rc1, t1). Ok ((rc1, t1), rc_Error rc1)))"

text \<open>
  The invocation runs in a goroutine and the caller waits for it or for the request context. A panic of
  the goroutine ends the process whoever waits. When the context ends first, the trace at the return
  shows what the goroutine had done until then; what it does afterwards is nobody's result.
\<close>

definition DelegateInvokeHandler ::
  "'z client_env_scheme \<Rightarrow> Client \<Rightarrow> handler \<Rightarrow> Request \<Rightarrow> request_option list \<Rightarrow> trace \<Rightarrow>
   ((Response \<times> error option) \<times> trace) result"
where
  "DelegateInvokeHandler E cc handle request options t =
     (case prepareOptsFromOptions (chan_client (cl_context cc)) options of
        (_, Some err) \<Rightarrow> Ok ((emptyResponse, Some err), t)
      | (opts, None) \<Rightarrow>
          (case createReqContext (chan_client (cl_context cc)) opts t of ((reqCtx, txnOpts), t1) \<Rightarrow>
             let cancel = CancelRequest (ctx_lifetime reqCtx) in
             (case prepareHandlerContexts E cc reqCtx request txnOpts of
                Panic \<Rightarrow> Panic
              | Err err \<Rightarrow> Ok ((emptyResponse, Some err), t1 @ [cancel])
              | Ok (rc, clientContext) \<Rightarrow>
                  bindR (env_Invoke E (rc_RetryHandler rc) (beforeRetry txnOpts) (invocation handle clientContext)
                           (rc, t1)) (\<lambda>(rc', t2).
                    (case env_Done E t1 reqCtx of
                       None \<Rightarrow> Ok ((rc_Response rc', rc_Error rc'), t2 @ [cancel])
                     | Some n \<Rightarrow>
                         Ok ((emptyResponse, Some (StatusError ClientStatus Timeout
                                ''request timed out or been cancelled'')),
                             take (length t1 + n) t2 @ [cancel]))))))"

text \<open>What \<open>DelegateQuery\<close> and \<open>DelegateEndorseAndCreateTxnPayload\<close> first read off the signed proposal.\<close>

definition readSignedProposal :: "client_proto \<Rightarrow> SignedProposal option \<Rightarrow> (Proposal \<times> ChannelHeader \<times> string) result" where
  "readSignedProposal W signedProposal =
     bindR (deref signedProposal) (\<lambda>sp.
     bindR (getProposalFromProposalBytes W (ProposalBytes sp)) (\<lambda>proposal.
     bindR (getChannelHeaderFromHeaderBytes W (prop_Header proposal)) (\<lambda>chh.
     bindR (getChaincodeIDFromExtension W (ch_Extension chh)) (\<lambda>cid. Ok (proposal, chh, cid)))))"

definition proposalRequest :: "string \<Rightarrow> Request" where
  "proposalRequest cid = \<lparr>ChaincodeID = cid, Fcn = ''_'', Args = [], TransientMap = [], InvocationChain = []\<rparr>"

definition DelegateQuery ::
  "'z client_env_scheme \<Rightarrow> Client \<Rightarrow> SignedProposal option \<Rightarrow> request_option list \<Rightarrow> trace \<Rightarrow>
   ((Response \<times> error option) \<times> trace) result"
where
  "DelegateQuery E cc signedProposal options t =
     (case readSignedProposal (env_client_proto E) signedProposal of
        Panic \<Rightarrow> Panic
      | Err err \<Rightarrow> Ok ((emptyResponse, Some err), t)
      | Ok (proposal, chh, cid) \<Rightarrow>
          bindR (DelegateInvokeHandler E cc (NewDelegateQueryHandler E signedProposal []) (proposalRequest cid)
                   (options @ [addDefaultTimeout Query, addDefaultTargetFilter (env_NewEndpointFilter E) ChaincodeQuery]) t)
            (\<lambda>((res, err), t'). Ok (case err of Some e \<Rightarrow> ((emptyResponse, Some e), t') | None \<Rightarrow> ((res, None), t'))))"

definition DelegateEndorseAndCreateTxnPayload ::
  "'z client_env_scheme \<Rightarrow> Client \<Rightarrow> SignedProposal option \<Rightarrow> request_option list \<Rightarrow> trace \<Rightarrow>
   ((Payload option \<times> Response \<times> error option) \<times> trace) result"
where
  "DelegateEndorseAndCreateTxnPayload E cc signedProposal options t =
     (case readSignedProposal (env_client_proto E) signedProposal of
        Panic \<Rightarrow> Panic
      | Err err \<Rightarrow> Ok ((None, emptyResponse, Some err), t)
      | Ok (proposal, chh, cid) \<Rightarrow>
          bindR (DelegateInvokeHandler E cc
                   (DelegateSelectAndEndorseHandler_Handle E (NewDelegateSelectAndEndorseHandler signedProposal []))
                   (proposalRequest cid)
                   (options @ [addDefaultTimeout Query, addDefaultTargetFilter (env_NewEndpointFilter E) EndorsingPeer]) t)
            (\<lambda>((res, err), t').
               (case err of
                  Some e \<Rightarrow> Ok ((None, res, Some (Wrap ''failed to invoke handlers'' e)), t')
                | None \<Rightarrow>
                    (case createTxnPayload E (ch_TxId chh) proposal (Responses res) of
                       Panic \<Rightarrow> Panic
                     | Err e \<Rightarrow>
                         Ok ((None, res, Some (Wrap ''failed to create txn payload with endorsement results'' e)), t')
                     | Ok txnPayload \<Rightarrow> Ok ((Some txnPayload, res, None), t')))))"

section \<open>Broadcasting an envelope\<close>

text \<open>
  The part of \<open>BroadcastEnvelope\<close> under the registered event, then the two deferred calls in Go's order.
  A nil event service or a closed notifier is dereferenced.
\<close>

definition awaitTxStatus ::
  "'z client_env_scheme \<Rightarrow> reqctx \<Rightarrow> nat \<Rightarrow> trace \<Rightarrow> (Response \<times> error option) result"
where
  "awaitTxStatus E reqCtx reg t =
     (case env_TxStatusEvent E t reqCtx reg of
        TxStatus code \<Rightarrow>
          (let res = emptyResponse\<lparr>resp_TxValidationCode := code\<rparr> in
           if code \<noteq> TxValidationCode_VALID
           then Ok (res, Some (StatusError EventServerStatus (ValidationCode code) ''received invalid transaction''))
           else Ok (res, None))
      | NotifierClosed \<Rightarrow> Panic
      | ContextDone \<Rightarrow>
          Ok (emptyResponse, Some (StatusError ClientStatus Timeout (''Execute didn'' @ CHR 0x27 # ''t receive block event''))))"

definition broadcastRegistered ::
  "'z client_env_scheme \<Rightarrow> Client \<Rightarrow> Transactor \<Rightarrow> reqctx \<Rightarrow> string \<Rightarrow> common_Envelope \<Rightarrow> trace \<Rightarrow>
   ((Response \<times> error option) \<times> trace) result"
where
  "broadcastRegistered E cc delegator reqCtx txnID envelope t =
     (if \<not> cl_eventService cc then Panic
      else (case env_RegisterTxStatusEvent E t txnID of
          Inl err \<Rightarrow> Ok ((emptyResponse, Some (Wrap ''failed to register tx event'' err)), t)
        | Inr reg \<Rightarrow>
            (case Transactor_BroadcastEnvelope E delegator
                    \<lparr>se_Payload = ce_Payload envelope, se_Signature = ce_Signature envelope\<rparr>
                    (t @ [RegisterTxStatusEvent txnID]) of
               ((_, Some err), t1) \<Rightarrow>
                 Ok ((emptyResponse, Some (Wrap ''failed to broadcast signed envelope'' err)),
                     t1 @ [UnregisterTxStatusEvent reg])
             | ((_, None), t1) \<Rightarrow>
                 bindR (awaitTxStatus E reqCtx reg t1) (\<lambda>res. Ok (res, t1 @ [UnregisterTxStatusEvent reg])))))"

definition Client_BroadcastEnvelope ::
  "'z client_env_scheme \<Rightarrow> Client \<Rightarrow> common_Envelope option \<Rightarrow> request_option list \<Rightarrow> trace \<Rightarrow>
   ((Response \<times> error option) \<times> trace) result"
where
  "Client_BroadcastEnvelope E cc envelope options t =
     bindR (deref envelope) (\<lambda>env.
       case getTxnIDFromPayloadBytes (env_client_proto E) (ce_Payload env) of
         Panic \<Rightarrow> Panic
       | Err err \<Rightarrow> Ok ((emptyResponse, Some (Wrap ''failed to get txnID from envelope'' err)), t)
       | Ok txnID \<Rightarrow>
           (case prepareOptsFromOptions (chan_client (cl_context cc))
                   (options @ [addDefaultTimeout Execute, addDefaultTargetFilter (env_NewEndpointFilter E) EndorsingPeer]) of
              (_, Some err) \<Rightarrow> Ok ((emptyResponse, Some err), t)
            | (txnOpts, None) \<Rightarrow>
                (case createReqContext (chan_client (cl_context cc)) txnOpts t of ((reqCtx, _), t1) \<Rightarrow>
                   let cancel = CancelRequest (ctx_lifetime reqCtx) in
                   (case ChannelService_Transactor E (chan_service (cl_context cc)) reqCtx of
                      Panic \<Rightarrow> Panic
                    | Err err \<Rightarrow>
                        Ok ((emptyResponse, Some (Wrap ''preparation of channel config failed'' err)), t1 @ [cancel])
                    | Ok (OtherTransactor n) \<Rightarrow>
                        Ok ((emptyResponse, Some (Errorf ''not delegate transactor'')), t1 @ [cancel])
                    | Ok (DelegateTransactor delegator) \<Rightarrow>
                        bindR (broadcastRegistered E cc delegator reqCtx txnID env t1) (\<lambda>(res, t2).
                          Ok (res, t2 @ [cancel]))))))"

section \<open>The retry invoker and a handler\<close>

text \<open>
  \<open>attempts before run s s1\<close>: for the invocation \<open>run\<close> started in \<open>s\<close>, an attempt can begin in \<open>s1\<close>: in \<open>s\<close>
  itself, or where \<open>before\<close> leaves off after an attempt that returned an error.
\<close>

inductive attempts ::
  "(error \<Rightarrow> invoke_state \<Rightarrow> invoke_state) \<Rightarrow> (invoke_state \<Rightarrow> (invoke_state \<times> error option) result) \<Rightarrow>
   invoke_state \<Rightarrow> invoke_state \<Rightarrow> bool"
  for before run s
where
  first_attempt: "attempts before run s s"
| next_attempt: "attempts before run s s1 \<Longrightarrow> run s1 = Ok (s2, Some err) \<Longrightarrow> attempts before run s (before err s2)"

text \<open>
  Documented behaviour of the SDK's invoker, whatever its options decide: what it returns is the
  outcome of one of these attempts, and it does not retry after an attempt without error.
\<close>

definition Invoker_documented :: "'z client_env_scheme \<Rightarrow> bool" where
  "Invoker_documented E \<longleftrightarrow>
     (\<forall>r before run s.
        (\<forall>s'. env_Invoke E r before run s = Ok s' \<longrightarrow>
           (\<exists>s1 err. attempts before run s s1 \<and> run s1 = Ok (s', err))) \<and>
        (\<forall>e. env_Invoke E r before run s = Err e \<longrightarrow> (\<exists>s1. attempts before run s s1 \<and> run s1 = Err e)) \<and>
        (\<forall>s'. run s = Ok (s', None) \<longrightarrow> env_Invoke E r before run s = Ok s'))"

lemma Invoker_Ok:
  assumes "Invoker_documented E" and "env_Invoke E r before run s = Ok s'"
  obtains s1 err where "attempts before run s s1" and "run s1 = Ok (s', err)"
  using assms unfolding Invoker_documented_def by blast

lemma Invoker_Err:
  assumes "Invoker_documented E" and "env_Invoke E r before run s = Err e"
  obtains s1 where "attempts before run s s1" and "run s1 = Err e"
  using assms unfolding Invoker_documented_def by blast

lemma Invoker_success:
  "Invoker_documented E \<Longrightarrow> run s = Ok (s', None) \<Longrightarrow> env_Invoke E r before run s = Ok s'"
  unfolding Invoker_documented_def by blast

lemma invocation_Ok:
  "invocation handle cc (rc, t) = Ok (s', err) \<longleftrightarrow>
     (\<exists>rc1 t1. handle rc cc t = Ok (rc1, t1) \<and> s' = (rc1, t1) \<and> err = rc_Error rc1)"
  by (auto simp: invocation_def outcome_simps)

lemma invocation_Err: "invocation handle cc (rc, t) = Err e \<longleftrightarrow> handle rc cc t = Err e"
  by (auto simp: invocation_def outcome_simps)

lemma beforeRetry_framed: "framed sp t (snd (beforeRetry txnOpts err (rc, t)))"
proof (cases "BeforeRetry (rc_Opts rc)")
  case (Some n)
  have "framed sp t (t @ [CallBeforeRetry n err])" "framed sp (t @ [CallBeforeRetry n err]) ((t @ [CallBeforeRetry n err]) @ [GreylistAdd err])"
    by (rule framed_one, simp)+
  then show ?thesis using Some framed_trans by (fastforce simp: beforeRetry_def Let_def)
qed (simp add: beforeRetry_def Let_def framed_one)

lemma beforeRetry_clean:
  assumes "beforeRetry txnOpts err s = (rc', t')"
  shows "rc_Error rc' = None \<and> rc_Response rc' = emptyResponse \<and> Targets (rc_Opts rc') = Targets txnOpts"
  using assms by (auto simp: beforeRetry_def Let_def split: prod.splits)

context request_handler
begin

lemma attempts_framed:
  "attempts (beforeRetry txnOpts) (invocation handle cc) (rc, t) s \<Longrightarrow> framed sp t (snd s)"
proof (induction rule: attempts.induct)
  case (next_attempt s1 s2 err)
  obtain rc1 t1 rc2 t2 where s: "s1 = (rc1, t1)" "s2 = (rc2, t2)" by (metis surj_pair)
  then have "handle rc1 cc t1 = Ok (rc2, t2)" using next_attempt.hyps(2) by (auto simp: invocation_Ok)
  then have "framed sp t1 t2" by (rule handle_framed)
  then have "framed sp t t2" using next_attempt.IH s framed_trans by fastforce
  then show ?case using framed_trans [OF _ beforeRetry_framed] s by blast
qed simp

lemma invoker_keeps:
  assumes "Invoker_documented E"
  shows "keeps sp t (env_Invoke E r (beforeRetry txnOpts) (invocation handle cc) (rc, t))"
proof (cases "env_Invoke E r (beforeRetry txnOpts) (invocation handle cc) (rc, t)")
  case (Ok s')
  then obtain s1 err where s1: "attempts (beforeRetry txnOpts) (invocation handle cc) (rc, t) s1"
    "invocation handle cc s1 = Ok (s', err)"
    by (rule Invoker_Ok [OF assms])
  obtain rc1 t1 rc2 t2 where s: "s1 = (rc1, t1)" "s' = (rc2, t2)" by (metis surj_pair)
  then have "handle rc1 cc t1 = Ok (rc2, t2)" using s1(2) by (auto simp: invocation_Ok)
  then have "framed sp t1 t2" by (rule handle_framed)
  then have "framed sp t t2" using attempts_framed [OF s1(1)] s framed_trans by fastforce
  with Ok s show ?thesis by (simp add: keeps_Ok)
next
  case (Err e)
  then obtain s1 where s1: "invocation handle cc s1 = Err e"
    by (rule Invoker_Err [OF assms])
  then show ?thesis
    using keeps_no_Err [OF handle_keeps] by (cases s1) (auto simp: invocation_Err)
qed (simp add: keeps_Panic)

lemma invoker_framed:
  "Invoker_documented E \<Longrightarrow> env_Invoke E r (beforeRetry txnOpts) (invocation handle cc) (rc, t) = Ok (rc', t') \<Longrightarrow>
     framed sp t t'"
  by (rule keeps_Ok_iff [OF invoker_keeps])

end

text \<open>The attempt that follows a failed one starts from the context this one left, but for the resets.\<close>

lemma attempts_retry:
  assumes "attempts (beforeRetry txnOpts) (invocation handle cc) s (rc0, t0)"
    and "handle rc0 cc t0 = Ok (rc1, t1)" and "rc_Error rc1 = Some e"
  shows "\<exists>t2. attempts (beforeRetry txnOpts) (invocation handle cc) s
    (rc1\<lparr>rc_Opts := (rc_Opts rc1)\<lparr>Targets := Targets txnOpts\<rparr>, rc_Error := None, rc_Response := emptyResponse\<rparr>, t2)"
proof -
  have "invocation handle cc (rc0, t0) = Ok ((rc1, t1), Some e)"
    using assms(2,3) by (simp add: invocation_Ok)
  from attempts.next_attempt [OF assms(1) this] show ?thesis
    by (auto simp: beforeRetry_def Let_def)
qed

text \<open>What every attempt of a call starts from, when the first one starts clean.\<close>

lemma attempts_clean:
  assumes "attempts (beforeRetry txnOpts) run (rc, t) (rc0, t0)"
    and "rc_Error rc = None" and "rc_Response rc = emptyResponse" and "Targets (rc_Opts rc) = Targets txnOpts"
  shows "rc_Error rc0 = None \<and> rc_Response rc0 = emptyResponse \<and> Targets (rc_Opts rc0) = Targets txnOpts"
  using assms(1)
proof (cases rule: attempts.cases)
  case first_attempt
  with assms(2-4) show ?thesis by simp
next
  case (next_attempt s1 s2 err)
  then show ?thesis by (metis beforeRetry_clean)
qed

section \<open>The trace of a call that runs a handler\<close>

lemma list_all_take: "list_all P cs \<Longrightarrow> list_all P (take n cs)"
  by (auto simp: list_all_iff dest: in_set_takeD)

text \<open>
  \<open>call_frame done sp cs\<close>: the calls of one client call. Either there are none, or they start by opening
  the request context and end by cancelling it, and all others are calls that a handler may make for the
  proposal; and when the call waited for its handler, every context opened in it was cancelled.
\<close>

definition call_frame :: "bool \<Rightarrow> SignedProposal option \<Rightarrow> trace \<Rightarrow> bool" where
  "call_frame waited sp cs \<longleftrightarrow> cs = [] \<or>
     (\<exists>life bs. cs = NewRequest life # bs @ [CancelRequest life] \<and> list_all (handler_call sp) bs \<and>
        (waited \<longrightarrow> balanced bs))"

lemma prepareHandlerContexts_no_calls:
  "prepareHandlerContexts E cc reqCtx request opts = Ok (rc, clientContext) \<Longrightarrow>
     rc_Opts rc = opts \<and> rc_Response rc = emptyResponse \<and> rc_Error rc = None \<and> rc_Request rc = request"
  by (auto simp: prepareHandlerContexts_def Let_def outcome_simps split: if_splits option.splits)

lemma DelegateInvokeHandler_frame:
  assumes "request_handler handle sp"
    and "DelegateInvokeHandler E cc handle request options t = Ok ((res, err), t')"
    and "Invoker_documented E"
  shows "\<exists>cs. t' = t @ cs \<and> call_frame (\<forall>t c. env_Done E t c = None) sp cs"
proof -
  obtain opts oerr where o: "prepareOptsFromOptions (chan_client (cl_context cc)) options = (opts, oerr)"
    by (metis surj_pair)
  obtain reqCtx txnOpts t1 where c: "createReqContext (chan_client (cl_context cc)) opts t = ((reqCtx, txnOpts), t1)"
    by (metis surj_pair)
  let ?l = "ctx_lifetime reqCtx"
  have t1: "t1 = t @ [NewRequest ?l]" using c by (auto simp: createReqContext_def Let_def)
  show ?thesis
  proof (cases "oerr = None \<and> (\<exists>x. prepareHandlerContexts E cc reqCtx request txnOpts = Ok x)")
    case False
    with assms(2) o c have "t' = t \<or> t' = t1 @ [CancelRequest ?l]"
      by (auto simp: DelegateInvokeHandler_def Let_def split: option.splits result.splits)
    then show ?thesis using t1
      by (elim disjE) (auto simp: call_frame_def intro: exI [of _ "[]"])
  next
    case True
    then obtain rc clientContext where p: "prepareHandlerContexts E cc reqCtx request txnOpts = Ok (rc, clientContext)"
      by auto
    obtain rc' t2 where run: "env_Invoke E (rc_RetryHandler rc) (beforeRetry txnOpts)
        (invocation handle clientContext) (rc, t1) = Ok (rc', t2)"
      and t': "t' = (case env_Done E t1 reqCtx of None \<Rightarrow> t2 | Some n \<Rightarrow> take (length t1 + n) t2) @ [CancelRequest ?l]"
      using assms(2) o c p True
      by (auto simp: DelegateInvokeHandler_def Let_def outcome_simps split: option.splits)
    have "framed sp t1 t2" by (rule request_handler.invoker_framed [OF assms(1,3) run])
    then obtain bs where bs: "t2 = t1 @ bs" "list_all (handler_call sp) bs" "balanced bs"
      by (auto simp: framed_def)
    show ?thesis
    proof (cases "env_Done E t1 reqCtx")
      case None
      then have "t' = t @ NewRequest ?l # bs @ [CancelRequest ?l]" using t' t1 bs by simp
      then show ?thesis using bs unfolding call_frame_def by blast
    next
      case (Some n)
      then have "t' = t @ NewRequest ?l # take n bs @ [CancelRequest ?l]" using t' t1 bs by simp
      moreover have "\<not> (\<forall>t c. env_Done E t c = None)" using Some by auto
      ultimately show ?thesis
        using list_all_take [OF bs(2), of n] unfolding call_frame_def by blast
    qed
  qed
qed

section \<open>An example client\<close>

definition example_payload :: Payload where
  "example_payload = \<lparr>pl_Header = Some \<lparr>hdr_ChannelHeader = [5], hdr_SignatureHeader = []\<rparr>, pl_Data = [3]\<rparr>"

definition example_client_proto :: client_proto where
  "example_client_proto = \<lparr>
     Marshal_Proposal = (\<lambda>p. case p of None \<Rightarrow> Err (External 5) | Some q \<Rightarrow> Ok (prop_Header q)),
     Unmarshal_Proposal = (\<lambda>b. Ok \<lparr>prop_Header = b, prop_Payload = [], prop_Extension = []\<rparr>),
     Unmarshal_Header = (\<lambda>b. Ok \<lparr>hdr_ChannelHeader = b, hdr_SignatureHeader = []\<rparr>),
     Unmarshal_ChannelHeader = (\<lambda>b. Ok \<lparr>ch_ChannelId = ''ch'', ch_TxId = ''tx1'', ch_Extension = b\<rparr>),
     Unmarshal_ChaincodeHeaderExtension = (\<lambda>b. Ok \<lparr>che_ChaincodeId = (if b = [6] then None else Some ''cc'')\<rparr>),
     Marshal_Transaction = (\<lambda>m. Ok [3]),
     Marshal_Payload = (\<lambda>p. Ok [7]),
     Unmarshal_Payload = (\<lambda>b. Ok (if b = [7] then example_payload else \<lparr>pl_Header = None, pl_Data = []\<rparr>))\<rparr>"

definition example_client_env :: client_env where
  "example_client_env = invoke_env.extend selecting_env
     \<lparr>env_NewProposalProcessorHandler = (\<lambda>hs. call_next (getNext hs)),
      env_NewEndorsementValidationHandler = (\<lambda>hs. call_next (getNext hs)),
      env_NewSignatureValidationHandler = (\<lambda>hs. call_next (getNext hs)),
      env_client_proto = example_client_proto,
      env_NewChannelClient = snd,
      env_CreateChaincodeInvokeProposal = (\<lambda>txh req. Inr \<lparr>tp_TxnID = th_TransactionID txh,
        tp_Proposal = Some \<lparr>prop_Header = [5], prop_Payload = [], prop_Extension = []\<rparr>\<rparr>),
      env_NewEndpointFilter = (\<lambda>ft p. True),
      env_GreylistAccept = (\<lambda>t p. True),
      env_Invoke = (\<lambda>r before run s. bindR (run s) (\<lambda>(s1, err1).
        case err1 of None \<Rightarrow> Ok s1 | Some e \<Rightarrow> bindR (run (before e s1)) (\<lambda>(s2, err2). Ok s2))),
      env_Done = (\<lambda>t c. None),
      env_RegisterTxStatusEvent = (\<lambda>t i. Inr 1),
      env_TxStatusEvent = (\<lambda>t c r. TxStatus TxValidationCode_VALID),
      env_sha256 = (\<lambda>b. b)\<rparr>"

definition example_cc :: Client where
  "example_cc = \<lparr>cl_context = \<lparr>chan_client = orderer_client, chan_ChannelID = ''ch'',
     chan_service = ChannelService example_service, chan_SigningManager_Sign = (\<lambda>t b k. Inr [of_nat k]),
     chan_PrivateKey = 1\<rparr>, cl_eventService = True\<rparr>"

definition example_signed :: SignedProposal where
  "example_signed = \<lparr>ProposalBytes = [5], sp_Signature = [1]\<rparr>"

definition example_reqctx :: reqctx where
  "example_reqctx = RequestContextValue (Some orderer_client) (ForDuration 30) None (Some [Query \<mapsto> 30, Execute \<mapsto> 30])"

lemma example_client_env_simps [simp]:
  "env_client_proto example_client_env = example_client_proto"
  "env_Done example_client_env = (\<lambda>t c. None)"
  "env_Invoke example_client_env = (\<lambda>r before run s. bindR (run s) (\<lambda>(s1, err1).
     case err1 of None \<Rightarrow> Ok s1 | Some e \<Rightarrow> bindR (run (before e s1)) (\<lambda>(s2, err2). Ok s2)))"
  "env_NewEndpointFilter example_client_env = (\<lambda>ft p. True)"
  "env_RegisterTxStatusEvent example_client_env = (\<lambda>t i. Inr 1)"
  "env_TxStatusEvent example_client_env = (\<lambda>t c r. TxStatus TxValidationCode_VALID)"
  "env_Process example_client_env = (\<lambda>t c i p sp. Inr example_response)"
  "env_schedule example_client_env = (\<lambda>t n. [0..<n])"
  "env_ToError example_client_env = env_ToError example_env"
  "env_ToAddress example_client_env = (\<lambda>u. u)"
  "env_SendBroadcast example_client_env = (\<lambda>t c ord env. None)"
  "env_Perm example_client_env = (\<lambda>t n. [0..<n])"
  "env_NewTransaction example_client_env = (\<lambda>r. if endorsements_agree (treq_ProposalResponses r)
     then Inr \<lparr>tx_Transaction = TransactionMessage 3\<rparr> else Inl (External 6))"
  "env_PeersToTxnProcessors example_client_env = map (\<lambda>p. Some (PeerProcessor p))"
  "env_GreylistAccept example_client_env = (\<lambda>t p. True)"
  by (simp_all add: example_client_env_def invoke_env.defs selecting_env_def answering_env_def example_env_def)

lemma example_transactor_made:
  "ChannelService_Transactor example_client_env (ChannelService example_service) example_reqctx =
     Ok (DelegateTransactor (example_transactor\<lparr>t_reqCtx := example_reqctx\<rparr>))"
proof -
  have "orderersFromChannelCfg example_client_env orderer_client example_cfg = Ok (t_orderers example_transactor)"
    by (simp add: orderersFromChannelCfg_def orderersFromChannel_def orderersByTarget_def example_cfg_def
      orderer_client_def createOrderer_def example_transactor_def)
  moreover have "cfg_ID example_cfg = t_ChannelID example_transactor" by (simp add: example_cfg_def example_transactor_def)
  ultimately show ?thesis
    by (simp add: ChannelService_Transactor_def NewTransactor_def example_service_def example_reqctx_def
      RequestClientContext_def)
qed

definition example_options :: "request_option list" where
  "example_options = [WithTargets [Some org2_peer]]"

definition example_opts :: Opts where
  "example_opts = emptyOpts\<lparr>Targets := [org2_peer], Timeouts := Some [Query \<mapsto> 30, Execute \<mapsto> 30]\<rparr>"

lemma orderer_client_Timeout [simp]: "ctx_Timeout orderer_client = (\<lambda>tt. 30)"
  by (simp add: orderer_client_def example_client_def)

lemma example_options_prepared:
  "prepareOptsFromOptions orderer_client (example_options @ [addDefaultTimeout Query, addDefaultTargetFilter f EndorsingPeer])
     = (emptyOpts\<lparr>Targets := [org2_peer], Timeouts := Some [Query \<mapsto> 30]\<rparr>, None)"
  by (simp add: prepareOptsFromOptions_def example_options_def WithTargets_def addDefaultTimeout_def
    addDefaultTargetFilter_def WithTimeout_def timeout_of_def emptyOpts_def)

lemma example_reqctx_created:
  "createReqContext orderer_client (emptyOpts\<lparr>Targets := [org2_peer], Timeouts := Some [Query \<mapsto> 30]\<rparr>) t =
     ((example_reqctx, example_opts), t @ [NewRequest (ForDuration 30)])"
  by (simp add: createReqContext_def Let_def timeout_of_def emptyOpts_def example_opts_def example_reqctx_def)

definition example_result :: Response where
  "example_result = emptyResponse\<lparr>Responses := [example_response], resp_Payload := [1], resp_ChaincodeStatus := 200\<rparr>"

lemma example_response_agrees: "endorsements_agree [example_response]"
  by (simp add: endorsements_agree_def successful_response_def example_response_def)

lemma example_endorse:
  "\<exists>t'. DelegateEndorseAndCreateTxnPayload example_client_env example_cc (Some example_signed) example_options [] =
     Ok ((Some example_payload, example_result, None), t')"
proof -
  let ?tr = "example_transactor\<lparr>t_reqCtx := example_reqctx\<rparr>"
  let ?h = "DelegateSelectAndEndorseHandler_Handle example_client_env (NewDelegateSelectAndEndorseHandler (Some example_signed) [])"
  have read: "readSignedProposal example_client_proto (Some example_signed) =
      Ok (\<lparr>prop_Header = [5], prop_Payload = [], prop_Extension = []\<rparr>,
          \<lparr>ch_ChannelId = ''ch'', ch_TxId = ''tx1'', ch_Extension = [5]\<rparr>, ''cc'')"
    by (simp add: readSignedProposal_def getProposalFromProposalBytes_def getChannelHeaderFromHeaderBytes_def
      getChaincodeIDFromExtension_def example_client_proto_def example_signed_def)
  obtain rc where rc: "prepareHandlerContexts example_client_env example_cc example_reqctx (proposalRequest ''cc'') example_opts
      = Ok (rc, \<lparr>cc_Transactor = DelegateTransactor ?tr\<rparr>)"
    "Targets (rc_Opts rc) = [org2_peer]" "rc_Response rc = emptyResponse" "rc_Error rc = None"
    by (simp add: prepareHandlerContexts_def example_cc_def proposalRequest_def example_transactor_made sdk_service_def
      example_service_def [THEN arg_cong [of _ _ svc_Selection]] example_service_def [THEN arg_cong [of _ _ svc_Discovery]]
      example_opts_def emptyOpts_def)
  have send: "\<exists>t'. Transactor_SendSignedProposal example_client_env ?tr (Some example_signed)
      [Some (PeerProcessor org2_peer)] t = (([example_response], None), t')" for t
    by (simp add: Transactor_SendSignedProposal_def SendSignedProposal_def Let_def getTargetsWithoutDuplicates_def
      batch_answer_def example_reqctx_def RequestClientContext_def example_env_def)
  have handle: "\<exists>t'. ?h rc \<lparr>cc_Transactor = DelegateTransactor ?tr\<rparr> t = Ok (rc\<lparr>rc_Response := example_result\<rparr>, t')" for t
    using send [of t] rc(2,3)
    by (auto simp: DelegateSelectAndEndorseHandler_Handle_def endorse_selected_def NewDelegateSelectAndEndorseHandler_def
      getDelegateTransactor_def record_responses_def Let_def additional_endorsements_def call_next_def getNext_def
      example_response_def example_result_def emptyResponse_def)
  have run: "\<exists>t'. env_Invoke example_client_env r (beforeRetry example_opts)
      (invocation ?h \<lparr>cc_Transactor = DelegateTransactor ?tr\<rparr>) (rc, t) = Ok (rc\<lparr>rc_Response := example_result\<rparr>, t')" for r t
    using handle [of t] rc(4) by (auto simp: invocation_def)
  have "\<exists>t'. DelegateInvokeHandler example_client_env example_cc ?h (proposalRequest ''cc'')
      (example_options @ [addDefaultTimeout Query, addDefaultTargetFilter (\<lambda>ft p. True) EndorsingPeer]) [] =
      Ok ((example_result, None), t')"
    using run [of "rc_RetryHandler rc" "[NewRequest (ForDuration 30)]"] rc
    by (auto simp: DelegateInvokeHandler_def example_cc_def example_options_prepared example_reqctx_created Let_def)
  moreover have "createTxnPayload example_client_env ''tx1'' \<lparr>prop_Header = [5], prop_Payload = [], prop_Extension = []\<rparr>
      [example_response] = Ok example_payload"
    by (simp add: createTxnPayload_def example_client_proto_def example_payload_def example_response_agrees)
  moreover have "Responses example_result = [example_response]" by (simp add: example_result_def)
  ultimately show ?thesis
    by (auto simp: DelegateEndorseAndCreateTxnPayload_def read)
qed

section \<open>Properties\<close>

text \<open>
  C3: From endorsement to broadcast the transaction keeps its identity: the payload that the endorsing
  call returns, once signed, is read back by the broadcasting call with the transaction id of the header of
  the proposal that was endorsed, so the event it waits for is that transaction's. The signature covers
  exactly the envelope's payload and is made with the private key of the signing client.
\<close>

theorem endorse_sign_broadcast_txid:
  assumes "DelegateEndorseAndCreateTxnPayload E cc sp options t = Ok ((Some payload, res, None), t')"
    and "codec_at (Marshal_Payload (env_client_proto E)) (\<lambda>b. bindR (Unmarshal_Payload (env_client_proto E) b) (\<lambda>p. Ok (Some p)))
           (Some payload)"
    and "SignTxnPayload E cc2 (Some payload) t2 = (Ok envelope, t3)"
  shows "\<exists>proposal chh cid. readSignedProposal (env_client_proto E) sp = Ok (proposal, chh, cid)
     \<and> getTxnIDFromPayloadBytes (env_client_proto E) (se_Payload envelope) = Ok (ch_TxId chh)
     \<and> chan_SigningManager_Sign (cl_context cc2) t2 (se_Payload envelope) (chan_PrivateKey (cl_context cc2))
         = Inr (se_Signature envelope)
     \<and> createTxnPayload E (ch_TxId chh) proposal (Responses res) = Ok payload"
proof -
  let ?W = "env_client_proto E"
  obtain proposal chh cid where read: "readSignedProposal ?W sp = Ok (proposal, chh, cid)"
    using assms(1) by (auto simp: DelegateEndorseAndCreateTxnPayload_def split: result.splits)
  have pay: "createTxnPayload E (ch_TxId chh) proposal (Responses res) = Ok payload"
    using assms(1) read
    by (auto simp: DelegateEndorseAndCreateTxnPayload_def outcome_simps split: option.splits result.splits)
  then obtain hdr where hdr: "Unmarshal_Header ?W (prop_Header proposal) = Ok hdr" "pl_Header payload = Some hdr"
    by (auto simp: createTxnPayload_def outcome_simps split: sum.splits)
  have chh: "Unmarshal_ChannelHeader ?W (hdr_ChannelHeader hdr) = Ok chh" "ch_ChannelId chh \<noteq> []"
    using read hdr by (auto simp: readSignedProposal_def getChannelHeaderFromHeaderBytes_def outcome_simps split: if_splits)
  obtain b where b: "Marshal_Payload ?W (Some payload) = Ok b" "se_Payload envelope = b"
    "chan_SigningManager_Sign (cl_context cc2) t2 b (chan_PrivateKey (cl_context cc2)) = Inr (se_Signature envelope)"
    using assms(3) by (auto simp: SignTxnPayload_def Sign_def split: result.splits sum.splits)
  have "Unmarshal_Payload ?W b = Ok payload"
    using codec_atD [OF assms(2) b(1)] by (auto simp: outcome_simps)
  then have "getTxnIDFromPayloadBytes ?W b = Ok (ch_TxId chh)"
    using hdr chh by (simp add: getTxnIDFromPayloadBytes_def)
  with read pay b show ?thesis by blast
qed

lemma endorse_sign_broadcast_txid_witness:
  "\<exists>envelope. fst (SignTxnPayload example_client_env example_cc (Some example_payload) []) = Ok envelope
     \<and> getTxnIDFromPayloadBytes example_client_proto (se_Payload envelope) = Ok ''tx1''"
proof -
  obtain t' where e: "DelegateEndorseAndCreateTxnPayload example_client_env example_cc (Some example_signed) example_options [] =
     Ok ((Some example_payload, example_result, None), t')" using example_endorse by blast
  have s: "SignTxnPayload example_client_env example_cc (Some example_payload) [] =
      (Ok \<lparr>se_Payload = [7], se_Signature = [1]\<rparr>, [SignWithKey [7]])"
    by (simp add: SignTxnPayload_def Sign_def example_client_proto_def example_cc_def)
  have c: "codec_at (Marshal_Payload (env_client_proto example_client_env))
      (\<lambda>b. bindR (Unmarshal_Payload (env_client_proto example_client_env) b) (\<lambda>p. Ok (Some p))) (Some example_payload)"
    by (simp add: codec_at_def example_client_proto_def)
  have "ch_TxId chh = ''tx1''" if "readSignedProposal example_client_proto (Some example_signed) = Ok (proposal, chh, cid)"
    for proposal chh cid
    using that by (auto simp: readSignedProposal_def getChannelHeaderFromHeaderBytes_def getChaincodeIDFromExtension_def
      example_client_proto_def outcome_simps)
  then show ?thesis using endorse_sign_broadcast_txid [OF e c s] s by auto
qed

text \<open>
  C10: Endorsing and querying only ever send the caller's signed proposal. Their calls are none, or
  those between opening and cancelling the request context of the call, and the latter are exclusively:
  sending the given signed proposal to a peer, asking the selection service, opening and cancelling
  request contexts, and what precedes a retry. So no envelope is broadcast, no proposal or transaction
  goes out through the SDK, nothing is signed and no event is registered. All contexts opened inside are
  cancelled too when the call waits for its handler.
\<close>

theorem delegate_calls_frame:
  assumes "sdk_handlers_framed E sp" and "Invoker_documented E"
  shows "(DelegateQuery E cc sp options t = Ok ((res, err), t1) \<longrightarrow>
        (\<exists>cs. t1 = t @ cs \<and> call_frame (\<forall>t c. env_Done E t c = None) sp cs))
    \<and> (DelegateEndorseAndCreateTxnPayload E cc sp options t = Ok ((payload, res', err'), t2) \<longrightarrow>
        (\<exists>cs. t2 = t @ cs \<and> call_frame (\<forall>t c. env_Done E t c = None) sp cs))"
proof (intro conjI impI)
  note frame = DelegateInvokeHandler_frame
  have query: "request_handler (NewDelegateQueryHandler E sp []) sp"
    by (rule NewDelegateQueryHandler_contract [OF assms(1)]) simp
  assume q: "DelegateQuery E cc sp options t = Ok ((res, err), t1)"
  show "\<exists>cs. t1 = t @ cs \<and> call_frame (\<forall>t c. env_Done E t c = None) sp cs"
  proof (cases "readSignedProposal (env_client_proto E) sp")
    case (Ok x)
    obtain proposal chh cid where x: "x = (proposal, chh, cid)" by (metis prod_cases3)
    obtain res0 err0 where "DelegateInvokeHandler E cc (NewDelegateQueryHandler E sp []) (proposalRequest cid)
        (options @ [addDefaultTimeout Query, addDefaultTargetFilter (env_NewEndpointFilter E) ChaincodeQuery]) t
        = Ok ((res0, err0), t1)"
      using q Ok x by (auto simp: DelegateQuery_def outcome_simps split: option.splits)
    with frame [OF query _ assms(2)] show ?thesis by blast
  qed (use q in \<open>auto simp: DelegateQuery_def call_frame_def\<close>)
next
  note frame = DelegateInvokeHandler_frame
  assume e: "DelegateEndorseAndCreateTxnPayload E cc sp options t = Ok ((payload, res', err'), t2)"
  show "\<exists>cs. t2 = t @ cs \<and> call_frame (\<forall>t c. env_Done E t c = None) sp cs"
  proof (cases "readSignedProposal (env_client_proto E) sp")
    case (Ok x)
    obtain proposal chh cid where x: "x = (proposal, chh, cid)" by (metis prod_cases3)
    obtain res0 err0 where "DelegateInvokeHandler E cc
        (DelegateSelectAndEndorseHandler_Handle E (NewDelegateSelectAndEndorseHandler sp [])) (proposalRequest cid)
        (options @ [addDefaultTimeout Query, addDefaultTargetFilter (env_NewEndpointFilter E) EndorsingPeer]) t
        = Ok ((res0, err0), t2)"
      using e Ok x
      by (auto simp: DelegateEndorseAndCreateTxnPayload_def outcome_simps split: option.splits result.splits)
    with frame [OF select_only.request_handler_axioms _ assms(2)] show ?thesis by blast
  qed (use e in \<open>auto simp: DelegateEndorseAndCreateTxnPayload_def call_frame_def\<close>)
qed

lemma example_sdk_handlers_framed: "sdk_handlers_framed example_client_env sp"
proof -
  have "request_handler (call_next (getNext hs)) sp" if "\<forall>h \<in> set hs. next_ok h sp" for hs
  proof -
    have "next_ok (getNext hs) sp"
      using that by (cases hs) (auto simp: getNext_def next_ok_def)
    then show ?thesis by (simp add: request_handler_def call_next_keeps)
  qed
  then show ?thesis by (simp add: sdk_handlers_framed_def example_client_env_def invoke_env.defs)
qed

text \<open>The invoker of the example retries once, after any error.\<close>

lemma example_invoker_run:
  "env_Invoke example_client_env r before attempt s =
     (case attempt s of
        Ok (s1, None) \<Rightarrow> Ok s1
      | Ok (s1, Some e) \<Rightarrow> (case attempt (before e s1) of Ok (s2, err) \<Rightarrow> Ok s2 | Err e \<Rightarrow> Err e | Panic \<Rightarrow> Panic)
      | Err e \<Rightarrow> Err e
      | Panic \<Rightarrow> Panic)"
proof (cases "attempt s")
  case (Ok x)
  obtain s1 err where "x = (s1, err)" by (metis surj_pair)
  with Ok show ?thesis
    by (cases err; cases "attempt (before (the err) s1)") auto
qed auto

lemma example_invoker: "Invoker_documented example_client_env"
  unfolding Invoker_documented_def example_invoker_run
proof (intro allI)
  fix before s and attempt :: "invoke_state \<Rightarrow> (invoke_state \<times> error option) result"
  let ?res = "case attempt s of
        Ok (s1, None) \<Rightarrow> Ok s1
      | Ok (s1, Some e) \<Rightarrow> (case attempt (before e s1) of Ok (s2, err) \<Rightarrow> Ok s2 | Err e \<Rightarrow> Err e | Panic \<Rightarrow> Panic)
      | Err e \<Rightarrow> Err e
      | Panic \<Rightarrow> Panic"
  let ?goal = "(\<forall>s'. ?res = Ok s' \<longrightarrow> (\<exists>s1 err. attempts before attempt s s1 \<and> attempt s1 = Ok (s', err))) \<and>
    (\<forall>e. ?res = Err e \<longrightarrow> (\<exists>s1. attempts before attempt s s1 \<and> attempt s1 = Err e)) \<and>
    (\<forall>s'. attempt s = Ok (s', None) \<longrightarrow> ?res = Ok s')"
  have first: "attempts before attempt s s" by (rule attempts.first_attempt)
  show ?goal
  proof (cases "attempt s")
    case (Ok x)
    obtain s1 err where x: "x = (s1, err)" by (metis surj_pair)
    show ?thesis
    proof (cases err)
      case None
      with Ok x first show ?thesis by (auto simp del: split_paired_Ex split_paired_All)
    next
      case (Some e)
      with Ok x have again: "attempts before attempt s (before e s1)"
        by (intro attempts.next_attempt [OF first]) simp
      with Ok x Some show ?thesis
        by (cases "attempt (before e s1)") (auto simp del: split_paired_Ex split_paired_All)
    qed
  qed (use first in \<open>auto simp del: split_paired_Ex split_paired_All\<close>)
qed

lemma delegate_calls_frame_witness:
  "\<exists>cs. DelegateEndorseAndCreateTxnPayload example_client_env example_cc (Some example_signed) example_options [] =
     Ok ((Some example_payload, example_result, None), cs) \<and> call_frame True (Some example_signed) cs"
proof -
  obtain t' where e: "DelegateEndorseAndCreateTxnPayload example_client_env example_cc (Some example_signed) example_options [] =
     Ok ((Some example_payload, example_result, None), t')" using example_endorse by blast
  have "\<forall>t c. env_Done example_client_env t c = None" by simp
  then show ?thesis using e delegate_calls_frame [OF example_sdk_handlers_framed example_invoker, of example_cc "Some example_signed" example_options
      "[]" _ _ _ "Some example_payload" example_result None t'] by simp
qed

text \<open>
  C12: Retries. Every attempt of a call, whatever the attempts before it left behind, starts without
  error, with an empty response and with the targets of the call's options (not with targets an earlier
  attempt selected); and the result of a call that waited is the outcome of one of these attempts, after
  which only the request context is cancelled. The attempts are those that begin with the contexts
  prepared for this call, and one that follows a failed attempt has the context this one left with error,
  response and targets reset and nothing else: the request keeps the invocation chain that looking for
  additional endorsers stored in it.
\<close>

theorem retries_start_clean:
  assumes "DelegateInvokeHandler E cc handle request options t = Ok ((res, err), t')"
    and "Invoker_documented E"
    and "prepareOptsFromOptions (chan_client (cl_context cc)) options = (opts, None)"
    and "createReqContext (chan_client (cl_context cc)) opts t = ((reqCtx, txnOpts), t1)"
    and "prepareHandlerContexts E cc reqCtx request txnOpts = Ok (rc, clientContext)"
    and "env_Done E t1 reqCtx = None"
  shows "(\<forall>rc0 t0. attempts (beforeRetry txnOpts) (invocation handle clientContext) (rc, t1) (rc0, t0) \<longrightarrow>
        rc_Error rc0 = None \<and> rc_Response rc0 = emptyResponse \<and> Targets (rc_Opts rc0) = Targets opts)
    \<and> (\<exists>rc0 t0 rc1 t2. attempts (beforeRetry txnOpts) (invocation handle clientContext) (rc, t1) (rc0, t0)
        \<and> handle rc0 clientContext t0 = Ok (rc1, t2) \<and> res = rc_Response rc1 \<and> err = rc_Error rc1
        \<and> t' = t2 @ [CancelRequest (ctx_lifetime reqCtx)])
    \<and> (\<forall>rc0 t0 rc1 t2 e. attempts (beforeRetry txnOpts) (invocation handle clientContext) (rc, t1) (rc0, t0) \<and>
        handle rc0 clientContext t0 = Ok (rc1, t2) \<and> rc_Error rc1 = Some e \<longrightarrow>
        (\<exists>t3. attempts (beforeRetry txnOpts) (invocation handle clientContext) (rc, t1)
           (rc1\<lparr>rc_Opts := (rc_Opts rc1)\<lparr>Targets := Targets opts\<rparr>, rc_Error := None, rc_Response := emptyResponse\<rparr>, t3)))"
proof -
  have T: "Targets txnOpts = Targets opts" using assms(4) by (auto simp: createReqContext_def Let_def)
  have rc: "rc_Error rc = None" "rc_Response rc = emptyResponse" "Targets (rc_Opts rc) = Targets txnOpts"
    using prepareHandlerContexts_no_calls [OF assms(5)] by simp_all
  obtain rc1 t2 where run: "env_Invoke E (rc_RetryHandler rc) (beforeRetry txnOpts)
      (invocation handle clientContext) (rc, t1) = Ok (rc1, t2)"
    and res: "res = rc_Response rc1" "err = rc_Error rc1" "t' = t2 @ [CancelRequest (ctx_lifetime reqCtx)]"
    using assms(1,3-6) by (auto simp: DelegateInvokeHandler_def Let_def outcome_simps)
  obtain s1 e where s1: "attempts (beforeRetry txnOpts) (invocation handle clientContext) (rc, t1) s1"
    "invocation handle clientContext s1 = Ok ((rc1, t2), e)"
    by (rule Invoker_Ok [OF assms(2) run])
  obtain rc0 t0 where "s1 = (rc0, t0)" by (metis surj_pair)
  with s1 have "attempts (beforeRetry txnOpts) (invocation handle clientContext) (rc, t1) (rc0, t0)"
    "handle rc0 clientContext t0 = Ok (rc1, t2)"
    by (auto simp: invocation_Ok)
  with res have last: "\<exists>rc0 t0 rc1 t2. attempts (beforeRetry txnOpts) (invocation handle clientContext) (rc, t1) (rc0, t0)
        \<and> handle rc0 clientContext t0 = Ok (rc1, t2) \<and> res = rc_Response rc1 \<and> err = rc_Error rc1
        \<and> t' = t2 @ [CancelRequest (ctx_lifetime reqCtx)]"
    by blast
  show ?thesis
  proof (intro conjI allI impI)
    fix rc0 t0
    assume "attempts (beforeRetry txnOpts) (invocation handle clientContext) (rc, t1) (rc0, t0)"
    from attempts_clean [OF this rc] T
    show "rc_Error rc0 = None" "rc_Response rc0 = emptyResponse" "Targets (rc_Opts rc0) = Targets opts" by simp_all
  next
    fix rc0 t0 rc2 t3 e
    assume "attempts (beforeRetry txnOpts) (invocation handle clientContext) (rc, t1) (rc0, t0) \<and>
      handle rc0 clientContext t0 = Ok (rc2, t3) \<and> rc_Error rc2 = Some e"
    then show "\<exists>t3. attempts (beforeRetry txnOpts) (invocation handle clientContext) (rc, t1)
        (rc2\<lparr>rc_Opts := (rc_Opts rc2)\<lparr>Targets := Targets opts\<rparr>, rc_Error := None, rc_Response := emptyResponse\<rparr>, t3)"
      using attempts_retry [of txnOpts handle clientContext "(rc, t1)" rc0 t0 rc2 t3 e] T by auto
  qed (rule last)
qed

text \<open>A handler that fails on its first attempt and succeeds on the second.\<close>

definition flaky :: handler where
  "flaky rc cc t =
     (if list_ex (\<lambda>c. case c of GreylistAdd e \<Rightarrow> True | _ \<Rightarrow> False) t then Ok (rc\<lparr>rc_Response := example_result\<rparr>, t)
      else Ok (rc\<lparr>rc_Error := Some (External 8), rc_Opts := (rc_Opts rc)\<lparr>Targets := []\<rparr>\<rparr>, t))"

lemma example_contexts_prepared:
  "\<exists>rc. prepareHandlerContexts example_client_env example_cc example_reqctx (proposalRequest ''cc'') example_opts
      = Ok (rc, \<lparr>cc_Transactor = DelegateTransactor (example_transactor\<lparr>t_reqCtx := example_reqctx\<rparr>)\<rparr>)"
  by (simp add: prepareHandlerContexts_def example_cc_def proposalRequest_def example_transactor_made sdk_service_def
    example_service_def [THEN arg_cong [of _ _ svc_Selection]] example_service_def [THEN arg_cong [of _ _ svc_Discovery]])

lemma retries_start_clean_witness:
  "\<exists>rc (rc0 :: RequestContext) rc1 t0 t2. attempts (beforeRetry example_opts)
       (invocation flaky \<lparr>cc_Transactor = DelegateTransactor (example_transactor\<lparr>t_reqCtx := example_reqctx\<rparr>)\<rparr>)
       (rc, [NewRequest (ForDuration 30)]) (rc0, t0)
     \<and> Targets (rc_Opts rc0) = [org2_peer] \<and> rc_Error rc0 = None
     \<and> flaky rc0 \<lparr>cc_Transactor = DelegateTransactor (example_transactor\<lparr>t_reqCtx := example_reqctx\<rparr>)\<rparr> t0 = Ok (rc1, t2)
     \<and> rc_Response rc1 = example_result"
proof -
  let ?cc = "\<lparr>cc_Transactor = DelegateTransactor (example_transactor\<lparr>t_reqCtx := example_reqctx\<rparr>)\<rparr>"
  let ?options = "example_options @ [addDefaultTimeout Query, addDefaultTargetFilter (\<lambda>ft p. True) EndorsingPeer]"
  obtain rc where p: "prepareHandlerContexts example_client_env example_cc example_reqctx (proposalRequest ''cc'') example_opts
      = Ok (rc, ?cc)" using example_contexts_prepared by blast
  have ctx: "chan_client (cl_context example_cc) = orderer_client" by (simp add: example_cc_def)
  have rc: "BeforeRetry (rc_Opts rc) = None"
    using prepareHandlerContexts_no_calls [OF p] by (simp add: example_opts_def emptyOpts_def)
  have "\<exists>t'. DelegateInvokeHandler example_client_env example_cc flaky (proposalRequest ''cc'') ?options [] =
      Ok ((example_result, None), t')"
    using p prepareHandlerContexts_no_calls [OF p] rc
    by (auto simp: DelegateInvokeHandler_def ctx example_options_prepared example_reqctx_created Let_def flaky_def
      beforeRetry_def invocation_def)
  then obtain t' where d: "DelegateInvokeHandler example_client_env example_cc flaky (proposalRequest ''cc'') ?options [] =
      Ok ((example_result, None), t')" by blast
  have waits: "env_Done example_client_env [NewRequest (ForDuration 30)] example_reqctx = None" by simp
  have prep: "prepareOptsFromOptions (chan_client (cl_context example_cc)) ?options =
      (emptyOpts\<lparr>Targets := [org2_peer], Timeouts := Some [Query \<mapsto> 30]\<rparr>, None)"
    using example_options_prepared ctx by simp
  have cr: "createReqContext (chan_client (cl_context example_cc))
      (emptyOpts\<lparr>Targets := [org2_peer], Timeouts := Some [Query \<mapsto> 30]\<rparr>) [] =
      ((example_reqctx, example_opts), [NewRequest (ForDuration 30)])"
    using example_reqctx_created [of "[]"] ctx by simp
  have "Targets (emptyOpts\<lparr>Targets := [org2_peer], Timeouts := Some [Query \<mapsto> 30]\<rparr>) = [org2_peer]" by simp
  with retries_start_clean [OF d example_invoker prep cr p waits] show ?thesis by metis
qed

text \<open>
  A peer is offered to the selection service exactly when the greylist accepts it now and the
  caller's target filter, if any, accepts it; the other contents of the contexts a handler gets are the
  call's request and options, no response and no error, and the transactor of the channel service.
\<close>

lemma prepareHandlerContexts_result:
  assumes "prepareHandlerContexts E cc reqCtx request opts = Ok (rc, clientContext)"
  shows "(\<exists>accepts. SelectionFilter rc = Some accepts \<and>
       (\<forall>t p. accepts t p \<longleftrightarrow> env_GreylistAccept E t p \<and> (case TargetFilter opts of None \<Rightarrow> True | Some f \<Rightarrow> f p)))
    \<and> PeerSorter rc = TargetSorter opts
    \<and> rc_Opts rc = opts \<and> rc_Request rc = request \<and> rc_Response rc = emptyResponse \<and> rc_Error rc = None
    \<and> ChannelService_Transactor E (chan_service (cl_context cc)) reqCtx = Ok (cc_Transactor clientContext)
    \<and> ChaincodeID request \<noteq> [] \<and> Fcn request \<noteq> []"
  using assms
  by (auto simp: prepareHandlerContexts_def Let_def outcome_simps split: if_splits option.splits)

lemma prepareHandlerContexts_result_witness:
  "\<exists>rc :: RequestContext. (\<exists>accepts. SelectionFilter rc = Some accepts \<and> (\<forall>t p. accepts t p))
     \<and> rc_Opts rc = example_opts"
proof -
  obtain rc where p: "prepareHandlerContexts example_client_env example_cc example_reqctx (proposalRequest ''cc'') example_opts
      = Ok (rc, \<lparr>cc_Transactor = DelegateTransactor (example_transactor\<lparr>t_reqCtx := example_reqctx\<rparr>)\<rparr>)"
    using example_contexts_prepared by blast
  have "TargetFilter example_opts = None" by (simp add: example_opts_def emptyOpts_def)
  with prepareHandlerContexts_result [OF p] show ?thesis by (intro exI [of _ rc]) auto
qed

text \<open>
  C36: Input of the caller can crash the process: a nil signed proposal, or one whose header extension
  names no chaincode, makes both delegate calls panic before the handlers' own check for a missing
  proposal is reached; and so does an envelope whose payload has no header, when it is broadcast.
\<close>

theorem malformed_input_panics:
  assumes "sp = None \<or> (\<exists>sp0 proposal chh ext. sp = Some sp0
      \<and> Unmarshal_Proposal (env_client_proto E) (ProposalBytes sp0) = Ok proposal
      \<and> getChannelHeaderFromHeaderBytes (env_client_proto E) (prop_Header proposal) = Ok chh
      \<and> Unmarshal_ChaincodeHeaderExtension (env_client_proto E) (ch_Extension chh) = Ok ext
      \<and> che_ChaincodeId ext = None)"
    and "Unmarshal_Payload (env_client_proto E) (ce_Payload envelope) = Ok payload" and "pl_Header payload = None"
  shows "DelegateQuery E cc sp options t = Panic
    \<and> DelegateEndorseAndCreateTxnPayload E cc sp options t = Panic
    \<and> Client_BroadcastEnvelope E cc (Some envelope) options t = Panic"
proof -
  have "readSignedProposal (env_client_proto E) sp = Panic"
    using assms(1) by (auto simp: readSignedProposal_def getProposalFromProposalBytes_def getChaincodeIDFromExtension_def)
  moreover have "getTxnIDFromPayloadBytes (env_client_proto E) (ce_Payload envelope) = Panic"
    using assms(2,3) by (simp add: getTxnIDFromPayloadBytes_def)
  ultimately show ?thesis
    by (simp add: DelegateQuery_def DelegateEndorseAndCreateTxnPayload_def Client_BroadcastEnvelope_def)
qed

lemma malformed_input_panics_witness:
  "DelegateQuery example_client_env example_cc (Some \<lparr>ProposalBytes = [6], sp_Signature = []\<rparr>) [] [] = Panic"
  by (rule malformed_input_panics [where envelope = "\<lparr>ce_Payload = [8], ce_Signature = []\<rparr>", THEN conjunct1])
    (auto simp: example_client_proto_def getChannelHeaderFromHeaderBytes_def)

section \<open>Broadcasting\<close>

text \<open>
  The calls of a broadcast under its request context: the event is registered before anything is sent
  and unregistered at the end, whatever happened in between.
\<close>

definition event_bracket ::
  "'z client_env_scheme \<Rightarrow> trace \<Rightarrow> SignedEnvelope \<Rightarrow> string \<Rightarrow> trace \<Rightarrow> bool"
where
  "event_bracket E t senv txnID cs \<longleftrightarrow>
     (\<exists>reg bs. env_RegisterTxStatusEvent E t txnID = Inr reg
        \<and> cs = RegisterTxStatusEvent txnID # bs @ [UnregisterTxStatusEvent reg]
        \<and> list_all (broadcast_call senv) bs \<and> balanced bs)"

lemma broadcastRegistered_bracket:
  assumes "broadcastRegistered E cc d reqCtx txnID env t = Ok ((res, err), t')"
  shows "(t' = t \<and> err \<noteq> None) \<or>
    (\<exists>cs. t' = t @ cs \<and> event_bracket E t \<lparr>se_Payload = ce_Payload env, se_Signature = ce_Signature env\<rparr> txnID cs)"
proof (cases "env_RegisterTxStatusEvent E t txnID")
  case (Inl e)
  then show ?thesis using assms by (auto simp: broadcastRegistered_def split: if_splits)
next
  case (Inr reg)
  let ?env = "\<lparr>se_Payload = ce_Payload env, se_Signature = ce_Signature env\<rparr>"
  let ?t1 = "t @ [RegisterTxStatusEvent txnID]"
  obtain r e bs where b: "Transactor_BroadcastEnvelope E d ?env ?t1 = ((r, e), ?t1 @ bs)"
    "list_all (broadcast_call ?env) bs" "balanced bs"
    using sink.broadcastE [of E d ?env ?t1] by blast
  have "t' = t @ RegisterTxStatusEvent txnID # bs @ [UnregisterTxStatusEvent reg]"
    using assms Inr b(1)
    by (auto simp: broadcastRegistered_def outcome_simps split: if_splits option.splits)
  with b Inr show ?thesis unfolding event_bracket_def by blast
qed

text \<open>
  C11: Broadcasting never leaks: whatever its outcome, the calls are either none, or the request
  context of the call opened and cancelled with nothing in between, or between the two the registration of
  an event for exactly the envelope's transaction id, calls that only send exactly this envelope and open
  and cancel contexts, and the unregistration of the very registration the event service returned.
  Success is only possible in the last case.
\<close>

theorem BroadcastEnvelope_releases:
  assumes "Client_BroadcastEnvelope E cc (Some env) options t = Ok ((res, err), t')"
  shows "\<exists>cs. t' = t @ cs \<and>
    ((cs = [] \<or> (\<exists>life. cs = [NewRequest life, CancelRequest life])) \<and> err \<noteq> None
     \<or> (\<exists>life txnID bs. cs = NewRequest life # bs @ [CancelRequest life]
          \<and> getTxnIDFromPayloadBytes (env_client_proto E) (ce_Payload env) = Ok txnID
          \<and> event_bracket E (t @ [NewRequest life])
               \<lparr>se_Payload = ce_Payload env, se_Signature = ce_Signature env\<rparr> txnID bs))"
proof (cases "getTxnIDFromPayloadBytes (env_client_proto E) (ce_Payload env)")
  case (Ok txnID)
  let ?opts = "options @ [addDefaultTimeout Execute, addDefaultTargetFilter (env_NewEndpointFilter E) EndorsingPeer]"
  obtain txnOpts oerr where o: "prepareOptsFromOptions (chan_client (cl_context cc)) ?opts = (txnOpts, oerr)"
    by (metis surj_pair)
  obtain reqCtx opts t1 where c: "createReqContext (chan_client (cl_context cc)) txnOpts t = ((reqCtx, opts), t1)"
    by (metis surj_pair)
  let ?l = "ctx_lifetime reqCtx"
  have t1: "t1 = t @ [NewRequest ?l]" using c by (auto simp: createReqContext_def Let_def)
  show ?thesis
  proof (cases "oerr = None \<and> (\<exists>d. ChannelService_Transactor E (chan_service (cl_context cc)) reqCtx = Ok (DelegateTransactor d))")
    case False
    with assms Ok o c have "(t' = t \<or> t' = t1 @ [CancelRequest ?l]) \<and> err \<noteq> None"
      by (auto simp: Client_BroadcastEnvelope_def Let_def split: option.splits result.splits fab_Transactor.splits)
    then show ?thesis using t1 by auto
  next
    case True
    then obtain d where d: "ChannelService_Transactor E (chan_service (cl_context cc)) reqCtx = Ok (DelegateTransactor d)"
      by blast
    obtain t2 where r: "broadcastRegistered E cc d reqCtx txnID env t1 = Ok ((res, err), t2)"
      and t': "t' = t2 @ [CancelRequest ?l]"
      using assms Ok o c d True by (auto simp: Client_BroadcastEnvelope_def Let_def outcome_simps)
    from broadcastRegistered_bracket [OF r] show ?thesis
    proof
      assume "t2 = t1 \<and> err \<noteq> None"
      then show ?thesis using t' t1 by auto
    next
      assume "\<exists>cs. t2 = t1 @ cs \<and> event_bracket E t1 \<lparr>se_Payload = ce_Payload env, se_Signature = ce_Signature env\<rparr> txnID cs"
      then obtain bs where "t2 = t1 @ bs" "event_bracket E t1 \<lparr>se_Payload = ce_Payload env, se_Signature = ce_Signature env\<rparr> txnID bs"
        by blast
      moreover from this have "t' = t @ NewRequest ?l # bs @ [CancelRequest ?l]" using t' t1 by simp
      ultimately show ?thesis using Ok t1 by blast
    qed
  qed
qed (use assms in \<open>auto simp: Client_BroadcastEnvelope_def\<close>)

definition example_envelope_in :: common_Envelope where
  "example_envelope_in = \<lparr>ce_Payload = [7], ce_Signature = [1]\<rparr>"

lemma BroadcastEnvelope_status:
  assumes "getTxnIDFromPayloadBytes (env_client_proto E) (ce_Payload env) = Ok txnID"
    and "prepareOptsFromOptions (chan_client (cl_context cc))
           (options @ [addDefaultTimeout Execute, addDefaultTargetFilter (env_NewEndpointFilter E) EndorsingPeer]) = (opts, None)"
    and "createReqContext (chan_client (cl_context cc)) opts t = ((reqCtx, opts'), t1)"
    and "ChannelService_Transactor E (chan_service (cl_context cc)) reqCtx = Ok (DelegateTransactor d)"
    and "cl_eventService cc" and "env_RegisterTxStatusEvent E t1 txnID = Inr reg"
    and "Transactor_BroadcastEnvelope E d \<lparr>se_Payload = ce_Payload env, se_Signature = ce_Signature env\<rparr>
           (t1 @ [RegisterTxStatusEvent txnID]) = ((resp, berr), t2)"
  shows "Client_BroadcastEnvelope E cc (Some env) options t =
    (let t3 = t2 @ [UnregisterTxStatusEvent reg, CancelRequest (ctx_lifetime reqCtx)] in
     case berr of
       Some e \<Rightarrow> Ok ((emptyResponse, Some (Wrap ''failed to broadcast signed envelope'' e)), t3)
     | None \<Rightarrow>
         (case env_TxStatusEvent E t2 reqCtx reg of
            TxStatus code \<Rightarrow> Ok ((emptyResponse\<lparr>resp_TxValidationCode := code\<rparr>,
              if code = TxValidationCode_VALID then None
              else Some (StatusError EventServerStatus (ValidationCode code) ''received invalid transaction'')), t3)
          | ContextDone \<Rightarrow> Ok ((emptyResponse, Some (StatusError ClientStatus Timeout
              (''Execute didn'' @ CHR 0x27 # ''t receive block event''))), t3)
          | NotifierClosed \<Rightarrow> Panic))"
  using assms
  by (cases berr; cases "env_TxStatusEvent E t2 reqCtx reg")
    (simp_all add: Client_BroadcastEnvelope_def broadcastRegistered_def awaitTxStatus_def Let_def)

text \<open>
  C30: The outcome of a broadcast. When the envelope can be read, the transactor made and the event
  registered, an envelope that no orderer accepts is an error without waiting for a status; otherwise the
  event service decides: the status \<open>VALID\<close> is success, any other is returned together with an error
  that carries the code, a context that ends first is a timeout, and a notifier that the service closes
  makes the client panic. Unless it panics, the event is then unregistered and the context cancelled, in this order.
\<close>

theorem BroadcastEnvelope_outcomes:
  assumes "getTxnIDFromPayloadBytes (env_client_proto E) (ce_Payload env) = Ok txnID"
    and "prepareOptsFromOptions (chan_client (cl_context cc))
           (options @ [addDefaultTimeout Execute, addDefaultTargetFilter (env_NewEndpointFilter E) EndorsingPeer]) = (opts, None)"
    and "createReqContext (chan_client (cl_context cc)) opts t = ((reqCtx, opts'), t1)"
    and "ChannelService_Transactor E (chan_service (cl_context cc)) reqCtx = Ok (DelegateTransactor d)"
    and "cl_eventService cc" and "env_RegisterTxStatusEvent E t1 txnID = Inr reg"
    and "Transactor_BroadcastEnvelope E d \<lparr>se_Payload = ce_Payload env, se_Signature = ce_Signature env\<rparr>
           (t1 @ [RegisterTxStatusEvent txnID]) = ((resp, berr), t2)"
  shows "Client_BroadcastEnvelope E cc (Some env) options t =
    (let t3 = t2 @ [UnregisterTxStatusEvent reg, CancelRequest (ctx_lifetime reqCtx)] in
     case berr of
       Some e \<Rightarrow> Ok ((emptyResponse, Some (Wrap ''failed to broadcast signed envelope'' e)), t3)
     | None \<Rightarrow>
         (case env_TxStatusEvent E t2 reqCtx reg of
            TxStatus code \<Rightarrow> Ok ((emptyResponse\<lparr>resp_TxValidationCode := code\<rparr>,
              if code = TxValidationCode_VALID then None
              else Some (StatusError EventServerStatus (ValidationCode code) ''received invalid transaction'')), t3)
          | ContextDone \<Rightarrow> Ok ((emptyResponse, Some (StatusError ClientStatus Timeout
              (''Execute didn'' @ CHR 0x27 # ''t receive block event''))), t3)
          | NotifierClosed \<Rightarrow> Panic))"
  using assms by (rule BroadcastEnvelope_status)

lemma example_txid: "getTxnIDFromPayloadBytes example_client_proto [7] = Ok ''tx1''"
  by (simp add: getTxnIDFromPayloadBytes_def example_client_proto_def example_payload_def)

definition broadcast_reqctx :: reqctx where
  "broadcast_reqctx = RequestContextValue (Some orderer_client) (ForDuration 30) None (Some [Execute \<mapsto> 30])"

lemma broadcast_options:
  "prepareOptsFromOptions orderer_client ([WithTargets [Some org2_peer]] @ [addDefaultTimeout Execute, addDefaultTargetFilter f EndorsingPeer])
     = (emptyOpts\<lparr>Targets := [org2_peer], Timeouts := Some [Execute \<mapsto> 30]\<rparr>, None)"
  by (simp add: prepareOptsFromOptions_def WithTargets_def addDefaultTimeout_def
    addDefaultTargetFilter_def WithTimeout_def timeout_of_def emptyOpts_def)

lemma broadcast_reqctx_created:
  "createReqContext orderer_client (emptyOpts\<lparr>Targets := [org2_peer], Timeouts := Some [Execute \<mapsto> 30]\<rparr>) t =
     ((broadcast_reqctx, emptyOpts\<lparr>Targets := [org2_peer], Timeouts := Some [Execute \<mapsto> 30]\<rparr>), t @ [NewRequest (ForDuration 30)])"
  by (simp add: createReqContext_def Let_def timeout_of_def emptyOpts_def broadcast_reqctx_def)

lemma broadcast_transactor_made:
  "ChannelService_Transactor example_client_env (ChannelService example_service) broadcast_reqctx =
     Ok (DelegateTransactor (example_transactor\<lparr>t_reqCtx := broadcast_reqctx\<rparr>))"
proof -
  have "orderersFromChannelCfg example_client_env orderer_client example_cfg = Ok (t_orderers example_transactor)"
    by (simp add: orderersFromChannelCfg_def orderersFromChannel_def orderersByTarget_def example_cfg_def
      orderer_client_def createOrderer_def example_transactor_def)
  moreover have "cfg_ID example_cfg = t_ChannelID example_transactor" by (simp add: example_cfg_def example_transactor_def)
  ultimately show ?thesis
    by (simp add: ChannelService_Transactor_def NewTransactor_def example_service_def broadcast_reqctx_def
      RequestClientContext_def)
qed

lemma example_broadcasts:
  "\<exists>resp t2. Transactor_BroadcastEnvelope example_client_env (example_transactor\<lparr>t_reqCtx := broadcast_reqctx\<rparr>) envelope t =
     ((resp, None), t2)"
  by (simp add: Transactor_BroadcastEnvelope_def BroadcastEnvelope_def example_transactor_def sendBroadcast_def
    broadcast_reqctx_def RequestClientContext_def Let_def numeral_3_eq_3)

lemma BroadcastEnvelope_outcomes_witness:
  "\<exists>t'. Client_BroadcastEnvelope example_client_env example_cc (Some example_envelope_in) [WithTargets [Some org2_peer]] [] =
     Ok ((emptyResponse, None), t')"
proof -
  let ?d = "example_transactor\<lparr>t_reqCtx := broadcast_reqctx\<rparr>"
  let ?t1 = "[NewRequest (ForDuration 30)]"
  obtain resp t2 where b: "Transactor_BroadcastEnvelope example_client_env ?d
      \<lparr>se_Payload = ce_Payload example_envelope_in, se_Signature = ce_Signature example_envelope_in\<rparr>
      (?t1 @ [RegisterTxStatusEvent ''tx1'']) = ((resp, None), t2)"
    using example_broadcasts by blast
  have id: "getTxnIDFromPayloadBytes (env_client_proto example_client_env) (ce_Payload example_envelope_in) = Ok ''tx1''"
    by (simp add: example_envelope_in_def example_txid)
  have cc: "chan_client (cl_context example_cc) = orderer_client" "cl_eventService example_cc"
    "chan_service (cl_context example_cc) = ChannelService example_service"
    by (simp_all add: example_cc_def)
  have "emptyResponse\<lparr>resp_TxValidationCode := TxValidationCode_VALID\<rparr> = emptyResponse"
    by (simp add: emptyResponse_def)
  then show ?thesis
    using BroadcastEnvelope_outcomes [OF id, of example_cc "[WithTargets [Some org2_peer]]"
        "emptyOpts\<lparr>Targets := [org2_peer], Timeouts := Some [Execute \<mapsto> 30]\<rparr>" "[]" broadcast_reqctx _ ?t1 ?d 1 resp None t2]
      broadcast_options broadcast_reqctx_created [of "[]"] broadcast_transactor_made b cc
    by simp
qed

lemma example_broadcast_run:
  "\<exists>t'. Client_BroadcastEnvelope example_client_env example_cc (Some example_envelope_in) [WithTargets [Some org2_peer]] [] =
     Ok ((emptyResponse, None), t')"
proof -
  obtain resp t2 where b: "Transactor_BroadcastEnvelope example_client_env (example_transactor\<lparr>t_reqCtx := broadcast_reqctx\<rparr>)
      \<lparr>se_Payload = [7], se_Signature = [1]\<rparr>
      [NewRequest (ForDuration 30), RegisterTxStatusEvent ''tx1''] = ((resp, None), t2)"
    using example_broadcasts by blast
  show ?thesis
    using broadcast_options b
    by (simp add: Client_BroadcastEnvelope_def broadcastRegistered_def awaitTxStatus_def example_cc_def
      example_envelope_in_def example_txid broadcast_reqctx_created broadcast_transactor_made Let_def)
      (simp add: emptyResponse_def)
qed

lemma BroadcastEnvelope_releases_witness:
  "\<exists>life bs. event_bracket example_client_env [NewRequest life] \<lparr>se_Payload = [7], se_Signature = [1]\<rparr> ''tx1'' bs \<and>
     (\<exists>res. Client_BroadcastEnvelope example_client_env example_cc (Some example_envelope_in) [WithTargets [Some org2_peer]] [] =
        Ok ((res, None), NewRequest life # bs @ [CancelRequest life]))"
proof -
  obtain t' where r: "Client_BroadcastEnvelope example_client_env example_cc (Some example_envelope_in)
      [WithTargets [Some org2_peer]] [] = Ok ((emptyResponse, None), t')"
    using example_broadcast_run by blast
  show ?thesis
    using BroadcastEnvelope_releases [OF r] r by (auto simp: example_envelope_in_def example_txid)
qed

end
