(* ===== verification/Der.thy ===== *)
theory Der
  imports Prelude
begin

unbundle bit_operations_syntax

text \<open>
  What \<open>pkg/msp/user.go\<close> uses of Go's \<open>math/big\<close> and \<open>encoding/asn1\<close>: the big-endian bytes of an
  integer, and the DER encoding of integers and of a sequence. A reader for such encodings is defined
  beside them as the reference that the encoder is proved against.
\<close>

section \<open>Big-endian bytes\<close>

text \<open>\<open>big.Int.Bytes\<close>: minimal, empty for zero.\<close>

function nat_bytes :: "nat \<Rightarrow> bytes" where
  "nat_bytes n = (if n = 0 then [] else nat_bytes (n div 256) @ [word_of_nat (n mod 256)])"
  by pat_completeness auto
termination by (relation "measure (\<lambda>n. n)") auto

declare nat_bytes.simps [simp del]

definition bytes_nat :: "bytes \<Rightarrow> nat" where
  "bytes_nat bs = foldl (\<lambda>a b. 256 * a + unat b) 0 bs"

lemma bytes_nat_Nil [simp]: "bytes_nat [] = 0"
  by (simp add: bytes_nat_def)

lemma bytes_nat_snoc [simp]: "bytes_nat (bs @ [b]) = 256 * bytes_nat bs + unat b"
  by (simp add: bytes_nat_def)

lemma bytes_nat_Cons: "bytes_nat (b # bs) = unat b * 256 ^ length bs + bytes_nat bs"
  by (induction bs rule: rev_induct)
    (simp_all add: append_Cons [symmetric] algebra_simps del: append_Cons, simp add: bytes_nat_def)

lemma bytes_nat_zero [simp]: "bytes_nat (0 # bs) = bytes_nat bs"
  by (simp add: bytes_nat_Cons)

lemma unat_byte_less: "unat (b :: byte) < 256"
  using unsigned_less [of b] by simp

lemma bytes_nat_less: "bytes_nat bs < 256 ^ length bs"
proof (induction bs rule: rev_induct)
  case (snoc b bs)
  have "256 * bytes_nat bs + unat b < 256 * (bytes_nat bs + 1)" using unat_byte_less [of b] by simp
  also have "\<dots> \<le> 256 * 256 ^ length bs" using snoc by (intro mult_le_mono2) simp
  finally show ?case by simp
qed simp

lemma bytes_nat_of_nat_bytes [simp]: "bytes_nat (nat_bytes n) = n"
proof (induction n rule: nat_bytes.induct)
  case (1 n)
  have "unat (word_of_nat (n mod 256) :: byte) = n mod 256"
    by (simp add: unat_of_nat)
  with 1 show ?case by (subst nat_bytes.simps) auto
qed

lemma nat_bytes_Nil_iff [simp]: "nat_bytes n = [] \<longleftrightarrow> n = 0"
  by (subst nat_bytes.simps) simp

lemma length_nat_bytes: "n < 256 ^ k \<Longrightarrow> length (nat_bytes n) \<le> k"
proof (induction k arbitrary: n)
  case (Suc k)
  then have "n div 256 < 256 ^ k" by (simp add: less_mult_imp_div_less mult.commute)
  then have "length (nat_bytes (n div 256)) \<le> k" by (rule Suc.IH)
  then show ?case by (subst nat_bytes.simps) simp
qed simp

text \<open>Complementing every byte is subtraction from the largest number of that length.\<close>

lemma bytes_nat_NOT: "bytes_nat (map (NOT) bs) + bytes_nat bs + 1 = 256 ^ length bs"
proof (induction bs rule: rev_induct)
  case (snoc b bs)
  have "unat (NOT b) + unat b = 255"
  proof -
    have "NOT b = 255 - b" by (simp add: not_eq_complement)
    moreover have "b \<le> 255" using unat_byte_less [of b] by (simp add: word_le_nat_alt)
    ultimately show ?thesis by (simp add: unat_sub word_le_nat_alt)
  qed
  with snoc show ?case by simp
qed simp

section \<open>DER\<close>

text \<open>The top bit of the first byte is the sign of a two's complement integer.\<close>

definition top_bit :: "bytes \<Rightarrow> bool" where
  "top_bit bs \<longleftrightarrow> hd bs AND 0x80 \<noteq> 0"

definition der_integer_content :: "int \<Rightarrow> bytes" where
  "der_integer_content n =
     (if n < 0 then
        (let bs = map (NOT) (nat_bytes (nat (- n - 1)))
         in if bs = [] \<or> \<not> top_bit bs then 0xff # bs else bs)
      else if n = 0 then [0]
      else (let bs = nat_bytes (nat n) in if top_bit bs then 0 # bs else bs))"

definition der_length :: "nat \<Rightarrow> bytes" where
  "der_length n =
     (if n < 128 then [word_of_nat n]
      else (let bs = nat_bytes n in word_of_nat (128 + length bs) # bs))"

definition der_tlv :: "byte \<Rightarrow> bytes \<Rightarrow> bytes" where
  "der_tlv tag content = tag # der_length (length content) @ content"

definition der_integer :: "int \<Rightarrow> bytes" where
  "der_integer n = der_tlv 0x02 (der_integer_content n)"

definition der_sequence :: "bytes list \<Rightarrow> bytes" where
  "der_sequence elems = der_tlv 0x30 (concat elems)"

text \<open>The reader: a tag, a length, and as many bytes of content; the rest is left.\<close>

definition read_length :: "bytes \<Rightarrow> (nat \<times> bytes) option" where
  "read_length bs =
     (case bs of
        [] \<Rightarrow> None
      | b # rest \<Rightarrow>
          if unat b < 128 then Some (unat b, rest)
          else (let k = unat b - 128 in
                if length rest < k then None else Some (bytes_nat (take k rest), drop k rest)))"

definition read_tlv :: "byte \<Rightarrow> bytes \<Rightarrow> (bytes \<times> bytes) option" where
  "read_tlv tag bs =
     (case bs of
        [] \<Rightarrow> None
      | t # rest \<Rightarrow>
          if t \<noteq> tag then None
          else (case read_length rest of
              None \<Rightarrow> None
            | Some (n, rest') \<Rightarrow> if length rest' < n then None else Some (take n rest', drop n rest')))"

definition integer_value :: "bytes \<Rightarrow> int" where
  "integer_value bs = int (bytes_nat bs) - (if top_bit bs then 256 ^ length bs else 0)"

definition read_integer :: "bytes \<Rightarrow> (int \<times> bytes) option" where
  "read_integer bs = map_option (\<lambda>(content, rest). (integer_value content, rest)) (read_tlv 0x02 bs)"

definition read_two_integers :: "bytes \<Rightarrow> (int \<times> int) option" where
  "read_two_integers bs =
     (case read_tlv 0x30 bs of
        Some (content, []) \<Rightarrow>
          (case read_integer content of
             Some (r, rest) \<Rightarrow> (case read_integer rest of Some (s, []) \<Rightarrow> Some (r, s) | _ \<Rightarrow> None)
           | None \<Rightarrow> None)
      | _ \<Rightarrow> None)"

section \<open>Reading back\<close>

lemma integer_value_content: "integer_value (der_integer_content n) = n"
proof (cases "n < 0")
  case True
  define m where "m = nat (- n - 1)"
  define bs where "bs = map (NOT) (nat_bytes m)"
  have len: "length bs = length (nat_bytes m)" by (simp add: bs_def)
  have "bytes_nat bs + m + 1 = 256 ^ length bs"
    using bytes_nat_NOT [of "nat_bytes m"] by (simp add: bs_def)
  then have v: "int (bytes_nat bs) - 256 ^ length bs = n"
  proof -
    assume "bytes_nat bs + m + 1 = 256 ^ length bs"
    then have "int (bytes_nat bs) + int m + 1 = 256 ^ length bs"
      by (metis of_nat_1 of_nat_add of_nat_numeral of_nat_power)
    moreover have "int m = - n - 1" using True by (simp add: m_def)
    ultimately show ?thesis by linarith
  qed
  show ?thesis
  proof (cases "bs = [] \<or> \<not> top_bit bs")
    case pad: True
    then have "der_integer_content n = 0xff # bs"
      using True by (simp add: der_integer_content_def Let_def bs_def m_def)
    moreover have "top_bit (0xff # bs)" by (simp add: top_bit_def)
    moreover have "int (bytes_nat (0xff # bs)) - 256 ^ length (0xff # bs) = int (bytes_nat bs) - 256 ^ length bs"
      by (simp add: bytes_nat_Cons)
    ultimately show ?thesis using v by (simp add: integer_value_def)
  next
    case False
    then have "der_integer_content n = bs"
      using True by (simp add: der_integer_content_def Let_def bs_def m_def)
    then show ?thesis using v False by (simp add: integer_value_def)
  qed
next
  case False
  then show ?thesis
    by (auto simp: der_integer_content_def integer_value_def Let_def top_bit_def bytes_nat_Cons)
qed

lemma read_length_der:
  assumes "n < 256 ^ 127"
  shows "read_length (der_length n @ rest) = Some (n, rest)"
proof (cases "n < 128")
  case True
  then have "unat (word_of_nat n :: byte) = n" by (simp add: unat_of_nat)
  with True show ?thesis by (simp add: der_length_def read_length_def)
next
  case False
  let ?bs = "nat_bytes n"
  have "length ?bs \<le> 127" using assms by (rule length_nat_bytes)
  then have "unat (word_of_nat (128 + length ?bs) :: byte) = 128 + length ?bs"
    by (subst unat_of_nat) simp
  with False show ?thesis by (simp add: der_length_def read_length_def Let_def del: of_nat_add)
qed

lemma read_tlv_der:
  assumes "length content < 256 ^ 127"
  shows "read_tlv tag (der_tlv tag content @ rest) = Some (content, rest)"
  using read_length_der [OF assms] by (simp add: read_tlv_def der_tlv_def)

lemma read_integer_der:
  assumes "length (der_integer_content n) < 256 ^ 127"
  shows "read_integer (der_integer n @ rest) = Some (n, rest)"
  using read_tlv_der [OF assms] by (simp add: read_integer_def der_integer_def integer_value_content)

lemma length_integer_content:
  assumes "\<bar>n\<bar> < 256 ^ k"
  shows "length (der_integer_content n) \<le> Suc k"
proof -
  have "nat (- n - 1) < 256 ^ k" if "n < 0" using that assms by (simp add: nat_less_iff)
  moreover have "nat n < 256 ^ k" using assms by (simp add: nat_less_iff)
  ultimately show ?thesis
    using length_nat_bytes [of "nat (- n - 1)" k] length_nat_bytes [of "nat n" k]
    by (auto simp: der_integer_content_def Let_def)
qed

lemma read_two_integers_der:
  assumes "\<bar>r\<bar> < 256 ^ 1000" and "\<bar>s\<bar> < 256 ^ 1000"
  shows "read_two_integers (der_sequence [der_integer r, der_integer s]) = Some (r, s)"
proof -
  have big: "n < 256 ^ 127" if "n \<le> 10000" for n :: nat
  proof -
    have "(10000 :: nat) < 256 ^ 2" by simp
    also have "(256 :: nat) ^ 2 \<le> 256 ^ 127" by (rule power_increasing) simp_all
    finally show ?thesis using that by simp
  qed
  have content: "length (der_integer_content n) \<le> 1001" if "\<bar>n\<bar> < 256 ^ 1000" for n
    using length_integer_content [OF that] by simp
  have len: "length (der_integer n) \<le> 2000" if "\<bar>n\<bar> < 256 ^ 1000" for n
  proof -
    have "length (der_integer_content n) < 256 ^ 2" using content [OF that] by simp
    then have "length (nat_bytes (length (der_integer_content n))) \<le> 2" by (rule length_nat_bytes)
    then show ?thesis using content [OF that]
      by (simp add: der_integer_def der_tlv_def der_length_def Let_def)
  qed
  have seq: "read_tlv 0x30 (der_sequence [der_integer r, der_integer s]) =
      Some (der_integer r @ der_integer s, [])"
    using read_tlv_der [of "der_integer r @ der_integer s" "0x30" "[]"] len [OF assms(1)] len [OF assms(2)]
    by (simp add: der_sequence_def big)
  have "read_integer (der_integer r @ der_integer s) = Some (r, der_integer s)"
    using content [OF assms(1)] by (intro read_integer_der big) simp
  moreover have "read_integer (der_integer s @ []) = Some (s, [])"
    using content [OF assms(2)] by (intro read_integer_der big) simp
  ultimately show ?thesis using seq by (simp add: read_two_integers_def)
qed

end
