(* ===== verification/Msp.thy ===== *)
theory Msp
  imports Prelude Der
begin

text \<open>
  \<open>pkg/msp\<close>: the user identity (\<open>user.go\<close>) and its keys (\<open>ecdsa_key.go\<close>). A user signs with ECDSA,
  moves the signature's S into the lower half of the curve's group order, and encodes it in DER. The
  cryptographic primitives and the X.509, PEM and protobuf encodings are parameters; the curve orders, the
  low-S arithmetic and the DER encoding are modelled. A Go pointer that may be nil is an option; keys are
  values, so that \<open>ToLowS\<close> writing through its argument is the returned value.
\<close>

section \<open>Keys\<close>

text \<open>\<open>elliptic.Curve\<close> values: the four of Go's standard library, or another with its group order.\<close>

datatype curve = P224 | P256 | P384 | P521 | OtherCurve int

definition curve_order :: "curve \<Rightarrow> int" where
  "curve_order c =
     (case c of
        P224 \<Rightarrow> 26959946667150639794667015087019625940457807714424391721682722368061
      | P256 \<Rightarrow> 115792089210356248762697446949407573529996955224135760342422259061068512044369
      | P384 \<Rightarrow> 39402006196394479212279040100143613805079739270465446667946905279627659399113263569398956308152294913554433653942643
      | P521 \<Rightarrow> 6864797660130609714981900799081393217269435300143305409394463459185543183397655394245057746333217197532963996371363321113864768612440380340372808892707005449
      | OtherCurve n \<Rightarrow> n)"

record PublicKey =
  pk_Curve :: curve
  pk_X :: nat
  pk_Y :: nat

record PrivateKey = PublicKey +
  priv_D :: nat

record ecdsaPrivateKey =
  privKey :: "PrivateKey option"
  exportable :: bool

record ecdsaPublicKey =
  pubKey :: "PublicKey option"

text \<open>
  \<open>msp_Sign rnd key digest\<close> is \<open>ecdsa.Sign\<close> with the randomness \<open>rnd\<close> read from \<open>rand.Reader\<close>;
  \<open>msp_Verify\<close> is \<open>ecdsa.Verify\<close>, which the source does not call and the statements below speak of.
\<close>

record msp_env =
  msp_sha256 :: "bytes \<Rightarrow> bytes"
  msp_ellipticMarshal :: "curve \<Rightarrow> nat \<Rightarrow> nat \<Rightarrow> bytes"
  msp_MarshalECPrivateKey :: "PrivateKey option \<Rightarrow> bytes result"
  msp_MarshalPKIXPublicKey :: "PublicKey option \<Rightarrow> bytes result"
  msp_EncodeToMemory :: "string \<Rightarrow> bytes \<Rightarrow> bytes"
  msp_Sign :: "nat \<Rightarrow> PrivateKey \<Rightarrow> bytes \<Rightarrow> error + int \<times> int"
  msp_Verify :: "PublicKey \<Rightarrow> bytes \<Rightarrow> int \<Rightarrow> int \<Rightarrow> bool"
  msp_MarshalSerializedIdentity :: "string \<Rightarrow> bytes \<Rightarrow> error + bytes"

definition ecdsaPrivateKey_Bytes :: "msp_env \<Rightarrow> ecdsaPrivateKey \<Rightarrow> bytes result" where
  "ecdsaPrivateKey_Bytes M k =
     (if \<not> exportable k then Err (Errorf ''not supported'')
      else bindR (msp_MarshalECPrivateKey M (privKey k)) (\<lambda>x509Encoded.
             Ok (msp_EncodeToMemory M ''PRIVATE KEY'' x509Encoded)))"

text \<open>\<open>SKI\<close> of both keys: nil for a missing key, else the hash of the marshalled point.\<close>

definition ecdsaPrivateKey_SKI :: "msp_env \<Rightarrow> ecdsaPrivateKey \<Rightarrow> bytes option" where
  "ecdsaPrivateKey_SKI M k =
     (case privKey k of
        None \<Rightarrow> None
      | Some key \<Rightarrow> Some (msp_sha256 M (msp_ellipticMarshal M (pk_Curve key) (pk_X key) (pk_Y key))))"

definition ecdsaPrivateKey_Symmetric :: "ecdsaPrivateKey \<Rightarrow> bool" where
  "ecdsaPrivateKey_Symmetric k = False"

definition ecdsaPrivateKey_Private :: "ecdsaPrivateKey \<Rightarrow> bool" where
  "ecdsaPrivateKey_Private k = True"

text \<open>The address of the embedded public key of a nil private key is a nil dereference.\<close>

definition ecdsaPrivateKey_PublicKey :: "ecdsaPrivateKey \<Rightarrow> ecdsaPublicKey result" where
  "ecdsaPrivateKey_PublicKey k =
     bindR (deref (privKey k)) (\<lambda>key. Ok \<lparr>pubKey = Some (PublicKey.truncate key)\<rparr>)"

definition ecdsaPublicKey_Bytes :: "msp_env \<Rightarrow> ecdsaPublicKey \<Rightarrow> bytes result" where
  "ecdsaPublicKey_Bytes M k = wrapR ''Failed marshalling key'' (msp_MarshalPKIXPublicKey M (pubKey k))"

definition ecdsaPublicKey_SKI :: "msp_env \<Rightarrow> ecdsaPublicKey \<Rightarrow> bytes option" where
  "ecdsaPublicKey_SKI M k =
     (case pubKey k of
        None \<Rightarrow> None
      | Some key \<Rightarrow> Some (msp_sha256 M (msp_ellipticMarshal M (pk_Curve key) (pk_X key) (pk_Y key))))"

definition ecdsaPublicKey_Symmetric :: "ecdsaPublicKey \<Rightarrow> bool" where
  "ecdsaPublicKey_Symmetric k = False"

definition ecdsaPublicKey_Private :: "ecdsaPublicKey \<Rightarrow> bool" where
  "ecdsaPublicKey_Private k = False"

definition ecdsaPublicKey_PublicKey :: "ecdsaPublicKey \<Rightarrow> ecdsaPublicKey" where
  "ecdsaPublicKey_PublicKey k = k"

section \<open>Low-S signatures\<close>

text \<open>\<open>new(big.Int).Rsh(N, 1)\<close> for the four curves; other curves are not in the map.\<close>

definition curveHalfOrders :: "curve \<rightharpoonup> int" where
  "curveHalfOrders =
     [P224 \<mapsto> drop_bit 1 (curve_order P224), P256 \<mapsto> drop_bit 1 (curve_order P256),
      P384 \<mapsto> drop_bit 1 (curve_order P384), P521 \<mapsto> drop_bit 1 (curve_order P521)]"

definition IsLowS :: "PublicKey \<Rightarrow> int \<Rightarrow> error + bool" where
  "IsLowS k s =
     (case curveHalfOrders (pk_Curve k) of
        None \<Rightarrow> Inl (Errorf ''curve not recognized'')
      | Some halfOrder \<Rightarrow> Inr (\<not> halfOrder < s))"

definition ToLowS :: "PublicKey \<Rightarrow> int \<Rightarrow> error + int" where
  "ToLowS k s =
     (case IsLowS k s of
        Inl err \<Rightarrow> Inl err
      | Inr lowS \<Rightarrow> if \<not> lowS then Inr (curve_order (pk_Curve k) - s) else Inr s)"

text \<open>\<open>asn1.Marshal\<close> of \<open>ECDSASignature{r, s}\<close>; a nil integer is an error.\<close>

record ECDSASignature =
  sig_R :: "int option"
  sig_S :: "int option"

definition MarshalECDSASignature :: "int option \<Rightarrow> int option \<Rightarrow> bytes result" where
  "MarshalECDSASignature r s =
     (let v = \<lparr>sig_R = r, sig_S = s\<rparr> in
      case (sig_R v, sig_S v) of
        (Some r', Some s') \<Rightarrow> Ok (der_sequence [der_integer r', der_integer s'])
      | _ \<Rightarrow> Err (Errorf ''asn1: structure error: empty integer''))"

section \<open>The user\<close>

record User =
  user_id :: string
  user_mspID :: string
  enrollmentCertificate :: bytes
  privateKey :: "ecdsaPrivateKey option"

definition CreateSigningIdentity :: "string \<Rightarrow> bytes \<Rightarrow> PrivateKey option \<Rightarrow> User" where
  "CreateSigningIdentity mspID cert key =
     \<lparr>user_id = [], user_mspID = mspID, enrollmentCertificate = cert,
      privateKey = Some \<lparr>privKey = key, exportable = True\<rparr>\<rparr>"

record IdentityIdentifier =
  ident_MSPID :: string
  ident_ID :: string

definition User_Identifier :: "User \<Rightarrow> IdentityIdentifier" where
  "User_Identifier u = \<lparr>ident_MSPID = user_mspID u, ident_ID = user_id u\<rparr>"

definition User_Verify :: "User \<Rightarrow> bytes \<Rightarrow> bytes \<Rightarrow> error option" where
  "User_Verify u msg sig = Some (Errorf ''not implemented'')"

definition User_Serialize :: "msp_env \<Rightarrow> User \<Rightarrow> error + bytes" where
  "User_Serialize M u =
     (case msp_MarshalSerializedIdentity M (user_mspID u) (enrollmentCertificate u) of
        Inl err \<Rightarrow> Inl (Wrap ''marshal serializedIdentity failed'' err)
      | Inr identity \<Rightarrow> Inr identity)"

definition User_EnrollmentCertificate :: "User \<Rightarrow> bytes" where
  "User_EnrollmentCertificate u = enrollmentCertificate u"

definition User_PrivateKey :: "User \<Rightarrow> ecdsaPrivateKey option" where
  "User_PrivateKey u = privateKey u"

definition User_PublicVersion :: "User \<Rightarrow> User" where
  "User_PublicVersion u = u"

definition User_Sign :: "msp_env \<Rightarrow> nat \<Rightarrow> User \<Rightarrow> bytes \<Rightarrow> bytes result" where
  "User_Sign M rnd u msg =
     (let digest = msp_sha256 M msg in
      bindR (deref (privateKey u)) (\<lambda>k.
      bindR (deref (privKey k)) (\<lambda>key.
        case msp_Sign M rnd key digest of
          Inl err \<Rightarrow> Err err
        | Inr (r, s) \<Rightarrow>
            (case ToLowS (PublicKey.truncate key) s of
               Inl err \<Rightarrow> Err err
             | Inr s' \<Rightarrow> MarshalECDSASignature (Some r) (Some s')))))"

section \<open>Lemmas\<close>

definition standard_curve :: "curve \<Rightarrow> bool" where
  "standard_curve c = (case c of OtherCurve n \<Rightarrow> False | _ \<Rightarrow> True)"

lemma curveHalfOrders_standard: "standard_curve c \<Longrightarrow> curveHalfOrders c = Some (curve_order c div 2)"
  by (cases c) (simp_all add: standard_curve_def curveHalfOrders_def drop_bit_eq_div)

lemma curveHalfOrders_other [simp]: "curveHalfOrders (OtherCurve n) = None"
  by (simp add: curveHalfOrders_def)

lemma curve_order_odd: "standard_curve c \<Longrightarrow> odd (curve_order c)"
  by (cases c) (simp_all add: standard_curve_def curve_order_def)

lemma curve_order_bound: "standard_curve c \<Longrightarrow> 0 < curve_order c \<and> curve_order c < 256 ^ 66"
  by (cases c) (simp_all add: standard_curve_def curve_order_def)

lemma ToLowS_standard:
  "standard_curve (pk_Curve k) \<Longrightarrow>
     ToLowS k s = Inr (if curve_order (pk_Curve k) div 2 < s then curve_order (pk_Curve k) - s else s)"
  by (simp add: ToLowS_def IsLowS_def curveHalfOrders_standard)

interpretation sig_codec: element_codec "\<lambda>(r, s). MarshalECDSASignature (Some r) (Some s)"
  "\<lambda>b. case read_two_integers b of None \<Rightarrow> Err (External 0) | Some p \<Rightarrow> Ok p"
  "\<lambda>(r, s). \<bar>r\<bar> < 256 ^ 1000 \<and> \<bar>s\<bar> < 256 ^ 1000"
  by unfold_locales (auto simp: MarshalECDSASignature_def read_two_integers_der split: prod.splits)

section \<open>Properties\<close>

text \<open>
  C17: Lowering S. On the four curves a valid S stays valid (between 1 and the order), ends in the
  lower half, is the old one or its complement to the order, and lowering it again changes nothing; \<open>IsLowS\<close>
  accepts the result. On any other curve lowering is an error.
\<close>

theorem ToLowS_result:
  assumes "0 < s" and "s < curve_order (pk_Curve k)"
  shows "(standard_curve (pk_Curve k) \<longrightarrow>
      (\<exists>s'. ToLowS k s = Inr s' \<and> 0 < s' \<and> 2 * s' < curve_order (pk_Curve k)
         \<and> (s' = s \<or> s' = curve_order (pk_Curve k) - s)
         \<and> IsLowS k s' = Inr True \<and> ToLowS k s' = Inr s'))
    \<and> (\<not> standard_curve (pk_Curve k) \<longrightarrow> ToLowS k s = Inl (Errorf ''curve not recognized''))"
proof (cases "standard_curve (pk_Curve k)")
  case True
  let ?N = "curve_order (pk_Curve k)"
  obtain h where h: "?N = 2 * h + 1" using curve_order_odd [OF True] by (elim oddE)
  then have half: "?N div 2 = h" by simp
  let ?s = "if h < s then ?N - s else s"
  have "ToLowS k s = Inr ?s" "IsLowS k ?s = Inr True" "ToLowS k ?s = Inr ?s"
    using True assms h by (auto simp: ToLowS_standard IsLowS_def curveHalfOrders_standard half)
  moreover have "0 < ?s" "2 * ?s < ?N" using assms h by auto
  ultimately show ?thesis using True by auto
next
  case False
  then show ?thesis
    by (cases "pk_Curve k") (simp_all add: standard_curve_def ToLowS_def IsLowS_def)
qed

lemma ToLowS_result_witness:
  "\<exists>s'. ToLowS \<lparr>pk_Curve = P256, pk_X = 1, pk_Y = 2\<rparr> (curve_order P256 - 1) = Inr s' \<and> 2 * s' < curve_order P256"
  using ToLowS_result [of "curve_order P256 - 1" "\<lparr>pk_Curve = P256, pk_X = 1, pk_Y = 2\<rparr>"]
  by (simp add: standard_curve_def curve_order_def) blast

text \<open>
  C18: Any reader of DER gets the two integers of a signature back: encoding \<open>(r, s)\<close>, of either
  sign and up to 1000 bytes each, and reading a sequence of two integers gives \<open>(r, s)\<close> with nothing left.
\<close>

theorem MarshalECDSASignature_roundtrip:
  assumes "\<bar>r\<bar> < 256 ^ 1000" and "\<bar>s\<bar> < 256 ^ 1000"
  shows "\<exists>b. MarshalECDSASignature (Some r) (Some s) = Ok b \<and> read_two_integers b = Some (r, s)"
  using read_two_integers_der [OF assms] by (simp add: MarshalECDSASignature_def)

lemma MarshalECDSASignature_roundtrip_witness:
  "read_two_integers [0x30, 7, 2, 2, 0, 128, 2, 1, 255] = Some (128, -1)"
proof -
  have "MarshalECDSASignature (Some 128) (Some (-1)) = Ok [0x30, 7, 2, 2, 0, 128, 2, 1, 255]"
    by code_simp
  then show ?thesis using MarshalECDSASignature_roundtrip [of 128 "-1"] by simp
qed

definition ecdsa_documented :: "msp_env \<Rightarrow> bool" where
  "ecdsa_documented M \<longleftrightarrow>
     (\<forall>rnd key d r s. msp_Sign M rnd key d = Inr (r, s) \<longrightarrow>
        0 < r \<and> r < curve_order (pk_Curve key) \<and> 0 < s \<and> s < curve_order (pk_Curve key) \<and>
        msp_Verify M (PublicKey.truncate key) d r s) \<and>
     (\<forall>pk d r s. msp_Verify M pk d r s \<longrightarrow> msp_Verify M pk d r (curve_order (pk_Curve pk) - s))"

lemma User_Sign_verifies:
  assumes "ecdsa_documented M" and "privateKey u = Some k" and "privKey k = Some key"
    and "standard_curve (pk_Curve key)" and "msp_Sign M rnd key (msp_sha256 M msg) = Inr (r, s0)"
  shows "\<exists>b s. User_Sign M rnd u msg = Ok b \<and> read_two_integers b = Some (r, s)
    \<and> 0 < s \<and> 2 * s < curve_order (pk_Curve key)
    \<and> msp_Verify M (PublicKey.truncate key) (msp_sha256 M msg) r s"
proof -
  let ?N = "curve_order (pk_Curve key)" and ?pk = "PublicKey.truncate key"
  have pk: "pk_Curve ?pk = pk_Curve key" by (simp add: PublicKey.defs)
  have rs: "0 < r" "r < ?N" "0 < s0" "s0 < ?N" "msp_Verify M ?pk (msp_sha256 M msg) r s0"
    using assms(1,5) unfolding ecdsa_documented_def by blast+
  have other: "msp_Verify M ?pk (msp_sha256 M msg) r (?N - s0)"
    using assms(1) rs(5) pk unfolding ecdsa_documented_def by metis
  define s where "s = (if ?N div 2 < s0 then ?N - s0 else s0)"
  have low: "ToLowS ?pk s0 = Inr s" using ToLowS_standard [of ?pk s0] assms(4) pk by (simp add: s_def)
  have "odd ?N" using assms(4) by (rule curve_order_odd)
  then have "0 < s" "2 * s < ?N" using rs by (auto simp: s_def elim!: oddE)
  moreover have "?N < 256 ^ 1000"
  proof -
    have "?N < 256 ^ 66" using curve_order_bound [OF assms(4)] by simp
    also have "(256 :: int) ^ 66 \<le> 256 ^ 1000" by (rule power_increasing) simp_all
    finally show ?thesis .
  qed
  ultimately have "\<bar>r\<bar> < 256 ^ 1000" "\<bar>s\<bar> < 256 ^ 1000" using rs by linarith+
  then have "read_two_integers (der_sequence [der_integer r, der_integer s]) = Some (r, s)"
    by (rule read_two_integers_der)
  moreover have "User_Sign M rnd u msg = Ok (der_sequence [der_integer r, der_integer s])"
    using assms low by (simp add: User_Sign_def MarshalECDSASignature_def Let_def)
  moreover have "msp_Verify M ?pk (msp_sha256 M msg) r s" using rs(5) other by (simp add: s_def)
  ultimately show ?thesis using \<open>0 < s\<close> \<open>2 * s < ?N\<close> by blast
qed

text \<open>
  C16: A user's signature is a DER pair whose S is in the lower half of the group order and which
  verifies for the message under the user's public key, given that ECDSA signs correctly and that with
  \<open>(r, s)\<close> also \<open>(r, N - s)\<close> verifies. Signing succeeds for every key on one of the four curves.
\<close>

theorem User_Sign_low_and_valid:
  assumes "ecdsa_documented M" and "privateKey u = Some k" and "privKey k = Some key"
    and "standard_curve (pk_Curve key)" and "msp_Sign M rnd key (msp_sha256 M msg) = Inr (r, s0)"
  shows "\<exists>b s. User_Sign M rnd u msg = Ok b \<and> read_two_integers b = Some (r, s)
    \<and> 0 < s \<and> 2 * s < curve_order (pk_Curve key)
    \<and> msp_Verify M (PublicKey.truncate key) (msp_sha256 M msg) r s"
  using assms by (rule User_Sign_verifies)

definition example_msp :: msp_env where
  "example_msp = \<lparr>msp_sha256 = (\<lambda>b. b), msp_ellipticMarshal = (\<lambda>c x y. nat_bytes x @ nat_bytes y),
     msp_MarshalECPrivateKey = (\<lambda>k. Ok [1]), msp_MarshalPKIXPublicKey = (\<lambda>k. Ok [2]),
     msp_EncodeToMemory = (\<lambda>t b. b),
     msp_Sign = (\<lambda>rnd key d. if 3 < curve_order (pk_Curve key) then Inr (1, curve_order (pk_Curve key) - 1)
        else Inl (External 1)),
     msp_Verify = (\<lambda>pk d r s. r = 1 \<and> (s = 1 \<or> s = curve_order (pk_Curve pk) - 1)),
     msp_MarshalSerializedIdentity = (\<lambda>m c. Inr (1 # c))\<rparr>"

definition example_key :: PrivateKey where
  "example_key = \<lparr>pk_Curve = P256, pk_X = 3, pk_Y = 4, priv_D = 5\<rparr>"

lemma example_msp_documented: "ecdsa_documented example_msp"
  by (auto simp: ecdsa_documented_def example_msp_def PublicKey.defs split: if_splits)

lemma User_Sign_low_and_valid_witness:
  "\<exists>b s. User_Sign example_msp 0 (CreateSigningIdentity ''Org1'' [9] (Some example_key)) [1, 2] = Ok b
     \<and> read_two_integers b = Some (1, s) \<and> 2 * s < curve_order P256"
proof -
  have "msp_Sign example_msp 0 example_key (msp_sha256 example_msp [1, 2]) = Inr (1, curve_order P256 - 1)"
    by (simp add: example_msp_def example_key_def curve_order_def)
  from User_Sign_low_and_valid [OF example_msp_documented _ _ _ this, of "CreateSigningIdentity ''Org1'' [9] (Some example_key)"
      "\<lparr>privKey = Some example_key, exportable = True\<rparr>"]
  show ?thesis by (auto simp: CreateSigningIdentity_def example_key_def standard_curve_def)
qed

text \<open>
  The key pair is consistent: the public key that a private key hands out has the same subject
  key identifier, is neither private nor symmetric, and is its own public key; a private key without key
  material has no identifier and panics when asked for its public part.
\<close>

lemma key_pair_SKI:
  "(case privKey k of
      Some key \<Rightarrow> (\<exists>pub. ecdsaPrivateKey_PublicKey k = Ok pub
        \<and> ecdsaPublicKey_SKI M pub = ecdsaPrivateKey_SKI M k \<and> ecdsaPrivateKey_SKI M k \<noteq> None
        \<and> \<not> ecdsaPublicKey_Private pub \<and> \<not> ecdsaPublicKey_Symmetric pub \<and> ecdsaPublicKey_PublicKey pub = pub
        \<and> ecdsaPrivateKey_Private k \<and> \<not> ecdsaPrivateKey_Symmetric k)
    | None \<Rightarrow> ecdsaPrivateKey_SKI M k = None \<and> ecdsaPrivateKey_PublicKey k = Panic)"
  by (auto simp: ecdsaPrivateKey_PublicKey_def ecdsaPublicKey_SKI_def ecdsaPrivateKey_SKI_def PublicKey.defs
    ecdsaPublicKey_Private_def ecdsaPublicKey_Symmetric_def ecdsaPublicKey_PublicKey_def
    ecdsaPrivateKey_Private_def ecdsaPrivateKey_Symmetric_def split: option.splits)

end
