(* ===== verification/Fabsdk.thy ===== *)
theory Fabsdk
  imports Prelude Fabric_Types Transactor Channel_Client
begin

text \<open>
  The package \<open>pkg/fabsdk\<close>: the SDK wrapper (\<open>fabsdk.go\<close>), its context options (\<open>context.go\<close>) and
  the provider factory (\<open>factory/dlgsvc/factory.go\<close>), which put the delegate channel provider of
  \<open>chprovider.go\<close> in the place of the SDK's. What the SDK makes of options and providers is a parameter.
\<close>

section \<open>Factories and options\<close>

text \<open>
  Values the repository only passes on are identities: an endpoint configuration, an option of a
  provider, a discovery provider. A channel provider of the SDK is what its method \<open>ChannelService\<close> answers;
  a \<open>fab.ChannelProvider\<close> likewise, with the type of service made explicit; a service provider factory is
  the record of its two methods.
\<close>

type_synonym endpointConfig = nat
type_synonym provider_opt = nat
type_synonym localDiscoveryProvider = nat
type_synonym sdk_ChannelProvider = "clientCtx \<Rightarrow> string \<Rightarrow> error + sdk_ChannelService"
type_synonym fab_ChannelProvider = "clientCtx \<Rightarrow> string \<Rightarrow> fab_ChannelService result"

record ServiceProviderFactory =
  spf_CreateLocalDiscoveryProvider :: "endpointConfig \<Rightarrow> error + localDiscoveryProvider"
  spf_CreateChannelProvider :: "endpointConfig \<Rightarrow> provider_opt list \<Rightarrow> error + fab_ChannelProvider"

text \<open>\<open>fabsdk.Option\<close>s of the SDK; only \<open>WithServicePkg\<close> is inspected here.\<close>

datatype sdk_option = WithServicePkg ServiceProviderFactory | OtherSdkOption nat

datatype sdk_ContextOption = SdkWithUser string | SdkWithIdentity nat | SdkWithOrg string

text \<open>\<open>type ContextOption func() fabsdk.ContextOption\<close>: a thunk.\<close>

type_synonym ContextOption = "unit \<Rightarrow> sdk_ContextOption"

definition WithUser :: "string \<Rightarrow> ContextOption" where
  "WithUser username = (\<lambda>_. SdkWithUser username)"

definition WithIdentity :: "nat \<Rightarrow> ContextOption" where
  "WithIdentity signingIdentity = (\<lambda>_. SdkWithIdentity signingIdentity)"

definition WithOrg :: "string \<Rightarrow> ContextOption" where
  "WithOrg org = (\<lambda>_. SdkWithOrg org)"

text \<open>
  The SDK, over the types of its \<open>FabricSDK\<close> values and of its client providers: \<open>fabsdk.New\<close>, the method
  \<open>Context\<close> of a \<open>FabricSDK\<close>, the \<open>k\<close>-th call of \<open>context.NewChannel\<close> on a client provider and a channel, and
  the constructors of its own providers.
\<close>

record ('sdk, 'client) sdk_env =
  sdk_New :: "nat \<Rightarrow> sdk_option list \<Rightarrow> error + 'sdk"
  sdk_Context :: "'sdk \<Rightarrow> sdk_ContextOption list \<Rightarrow> 'client"
  sdk_NewChannel :: "nat \<Rightarrow> 'client \<Rightarrow> string \<Rightarrow> channelContext option \<times> error option"
  sdk_NewLocalProvider :: "endpointConfig \<Rightarrow> error + localDiscoveryProvider"
  sdk_chpvdr_New :: "endpointConfig \<Rightarrow> provider_opt list \<Rightarrow> sdk_ChannelProvider"

section \<open>The delegate factory and the SDK wrapper\<close>

text \<open>
  \<open>chpvdr.New\<close> drops the error of the SDK's constructor, which never fails; the result embeds the SDK's
  provider and overrides \<open>ChannelService\<close>.
\<close>

definition chpvdr_New ::
  "('sdk, 'client) sdk_env \<Rightarrow> endpointConfig \<Rightarrow> provider_opt list \<Rightarrow> error + fab_ChannelProvider"
where
  "chpvdr_New S config opts =
     (let cp = sdk_chpvdr_New S config opts in Inr (ChannelProvider_ChannelService cp))"

definition CreateChannelProvider ::
  "('sdk, 'client) sdk_env \<Rightarrow> endpointConfig \<Rightarrow> provider_opt list \<Rightarrow> error + fab_ChannelProvider"
where
  "CreateChannelProvider S config opts = chpvdr_New S config opts"

definition CreateLocalDiscoveryProvider ::
  "('sdk, 'client) sdk_env \<Rightarrow> endpointConfig \<Rightarrow> error + localDiscoveryProvider"
where
  "CreateLocalDiscoveryProvider S config = sdk_NewLocalProvider S config"

definition NewProviderFactory :: "('sdk, 'client) sdk_env \<Rightarrow> ServiceProviderFactory" where
  "NewProviderFactory S =
     \<lparr>spf_CreateLocalDiscoveryProvider = CreateLocalDiscoveryProvider S,
      spf_CreateChannelProvider = CreateChannelProvider S\<rparr>"

record 'sdk FabricSDK =
  embedded_FabricSDK :: 'sdk

definition New_FabricSDK :: "('sdk, 'client) sdk_env \<Rightarrow> nat \<Rightarrow> sdk_option list \<Rightarrow> error + 'sdk FabricSDK" where
  "New_FabricSDK S configProvider opts =
     (let opts' = opts @ [WithServicePkg (NewProviderFactory S)] in
      case sdk_New S configProvider opts' of
        Inl err \<Rightarrow> Inl err
      | Inr sdk \<Rightarrow> Inr \<lparr>embedded_FabricSDK = sdk\<rparr>)"

definition FabricSDK_ChannelContext ::
  "('sdk, 'client) sdk_env \<Rightarrow> 'sdk FabricSDK \<Rightarrow> string \<Rightarrow> ContextOption list \<Rightarrow> nat \<Rightarrow> channelContext option \<times> error option"
where
  "FabricSDK_ChannelContext S sdk channelID options =
     (let opts = map (\<lambda>opt. opt ()) options
      in (\<lambda>k. let clientCtxProvider = sdk_Context S (embedded_FabricSDK sdk) opts
              in sdk_NewChannel S k clientCtxProvider channelID))"

section \<open>Properties\<close>

text \<open>
  Documented behaviour of the SDK. Options are applied in order, so the last service package decides; a
  channel context of an SDK is for the channel it was asked for, and its channel service is what the
  channel provider, created by the factory of that service package, gave for this channel.
\<close>

definition last_service_pkg :: "sdk_option list \<Rightarrow> ServiceProviderFactory option" where
  "last_service_pkg opts = fold (\<lambda>opt found. case opt of WithServicePkg f \<Rightarrow> Some f | _ \<Rightarrow> found) opts None"

definition service_of_factory :: "ServiceProviderFactory \<Rightarrow> string \<Rightarrow> fab_ChannelService \<Rightarrow> bool" where
  "service_of_factory f channelID svc \<longleftrightarrow>
     (\<exists>config opts provider client. spf_CreateChannelProvider f config opts = Inr provider
        \<and> provider client channelID = Ok svc)"

definition sdk_documented :: "('sdk, 'client) sdk_env \<Rightarrow> bool" where
  "sdk_documented S \<longleftrightarrow>
     (\<forall>cfg opts sdk f copts k ch ctx err.
        sdk_New S cfg opts = Inr sdk \<longrightarrow> last_service_pkg opts = Some f \<longrightarrow>
        sdk_NewChannel S k (sdk_Context S sdk copts) ch = (Some ctx, err) \<longrightarrow>
        chan_ChannelID ctx = ch \<and> service_of_factory f ch (chan_service ctx))"

lemma sdk_documentedD:
  "sdk_documented S \<Longrightarrow> sdk_New S cfg opts = Inr sdk \<Longrightarrow> last_service_pkg opts = Some f \<Longrightarrow>
     sdk_NewChannel S k (sdk_Context S sdk copts) ch = (Some ctx, err) \<Longrightarrow>
     chan_ChannelID ctx = ch \<and> service_of_factory f ch (chan_service ctx)"
  unfolding sdk_documented_def by blast

text \<open>The provider of the delegate factory wraps every service in the delegate's.\<close>

lemma ChannelProvider_ChannelService_Ok:
  "ChannelProvider_ChannelService provider ctx channelID = Ok svc \<Longrightarrow> \<exists>cs. svc = ChannelService cs"
  by (cases "provider ctx channelID") (auto simp: ChannelProvider_ChannelService_def)

lemma delegate_factory_service:
  "service_of_factory (NewProviderFactory S) channelID svc \<Longrightarrow> \<exists>cs. svc = ChannelService cs"
  by (auto simp: service_of_factory_def NewProviderFactory_def CreateChannelProvider_def chpvdr_New_def
    Let_def dest: ChannelProvider_ChannelService_Ok)

lemma last_service_pkg_append [simp]: "last_service_pkg (opts @ [WithServicePkg f]) = Some f"
  by (simp add: last_service_pkg_def)

text \<open>
  C27: The wiring. Whatever other options the SDK was made with, even another service package, every
  client made from one of its channel contexts gets delegate transactors from its channel service, for the
  channel it was made for.
\<close>

theorem fabsdk_clients_delegate:
  assumes "sdk_documented S" and "New_FabricSDK S cfg opts = Inr sdk"
    and "Channel_Client.New E (FabricSDK_ChannelContext S sdk channelID options) = Ok cc"
    and "ChannelService_Transactor E' (chan_service (cl_context cc)) reqCtx = Ok t"
  shows "chan_ChannelID (cl_context cc) = channelID
    \<and> (\<exists>d chCfg. t = DelegateTransactor d \<and> t_ChannelID d = cfg_ID chCfg \<and> t_reqCtx d = reqCtx
        \<and> svc_ChannelConfig (sdk_service (chan_service (cl_context cc))) = Inr chCfg)"
proof -
  let ?opts = "opts @ [WithServicePkg (NewProviderFactory S)]"
  obtain s where new: "sdk_New S cfg ?opts = Inr s" "sdk = \<lparr>embedded_FabricSDK = s\<rparr>"
    using assms(2) by (auto simp: New_FabricSDK_def split: sum.splits)
  obtain ctx where ctx: "fst (FabricSDK_ChannelContext S sdk channelID options 1) = Some ctx" "cl_context cc = ctx"
    using assms(3) by (auto simp: New_def outcome_simps split: option.splits)
  obtain err where "sdk_NewChannel S 1 (sdk_Context S s (map (\<lambda>opt. opt ()) options)) channelID = (Some ctx, err)"
    using ctx(1) new(2) by (auto simp: FabricSDK_ChannelContext_def prod_eq_iff)
  from sdk_documentedD [OF assms(1) new(1) last_service_pkg_append this]
  have id: "chan_ChannelID ctx = channelID" and "service_of_factory (NewProviderFactory S) channelID (chan_service ctx)"
    by simp_all
  then obtain cs where "chan_service ctx = ChannelService cs"
    using delegate_factory_service by blast
  with assms(4) ctx(2) id show ?thesis
    by (auto simp: ChannelService_Transactor_def NewTransactor_def sdk_service_def outcome_simps
      split: sum.splits option.splits)
qed

text \<open>
  An example SDK, whose \<open>FabricSDK\<close> values and client providers are the service package they were made
  with.
\<close>

definition example_sdk :: "(ServiceProviderFactory, ServiceProviderFactory) sdk_env" where
  "example_sdk = \<lparr>
     sdk_New = (\<lambda>cfg opts. case last_service_pkg opts of None \<Rightarrow> Inl (External 1) | Some f \<Rightarrow> Inr f),
     sdk_Context = (\<lambda>f copts. f),
     sdk_NewChannel = (\<lambda>k f ch. case spf_CreateChannelProvider f 0 [] of
        Inl e \<Rightarrow> (None, Some e)
      | Inr provider \<Rightarrow> (case provider orderer_client ch of
          Ok svc \<Rightarrow> (Some \<lparr>chan_client = orderer_client, chan_ChannelID = ch, chan_service = svc,
            chan_SigningManager_Sign = (\<lambda>t b k. Inr [of_nat k]), chan_PrivateKey = 1\<rparr>, None)
        | Err e \<Rightarrow> (None, Some e)
        | Panic \<Rightarrow> (None, Some (External 2)))),
     sdk_NewLocalProvider = Inr,
     sdk_chpvdr_New = (\<lambda>config opts client ch. Inr example_service)\<rparr>"

lemma example_sdk_documented: "sdk_documented example_sdk"
  unfolding sdk_documented_def service_of_factory_def
  by (auto simp: example_sdk_def split: result.splits option.splits sum.splits)

definition other_factory :: ServiceProviderFactory where
  "other_factory = \<lparr>spf_CreateLocalDiscoveryProvider = Inr,
     spf_CreateChannelProvider = (\<lambda>config opts. Inr (\<lambda>client ch. Ok (SdkChannelService example_service)))\<rparr>"

lemma fabsdk_clients_delegate_witness:
  "\<exists>sdk cc. New_FabricSDK example_sdk 0 [WithServicePkg other_factory] = Inr sdk
     \<and> Channel_Client.New example_client_env (FabricSDK_ChannelContext example_sdk sdk ''ch'' [WithUser ''User1'']) = Ok cc
     \<and> chan_ChannelID (cl_context cc) = ''ch''"
proof -
  have snd_env: "env_NewChannelClient example_client_env = snd" by (simp add: example_client_env_def invoke_env.defs)
  let ?sdk = "\<lparr>embedded_FabricSDK = NewProviderFactory example_sdk\<rparr>"
  have last: "last_service_pkg [WithServicePkg other_factory, WithServicePkg f] = Some f" for f
    using last_service_pkg_append [of "[WithServicePkg other_factory]" f] by simp
  have n: "New_FabricSDK example_sdk 0 [WithServicePkg other_factory] = Inr ?sdk"
    by (simp add: New_FabricSDK_def) (simp add: example_sdk_def last)
  have svc: "spf_CreateChannelProvider (NewProviderFactory example_sdk) c os =
      Inr (\<lambda>client ch. Ok (ChannelService example_service))" for c os
    by (simp add: NewProviderFactory_def CreateChannelProvider_def chpvdr_New_def Let_def fun_eq_iff
      ChannelProvider_ChannelService_def example_sdk_def)
  have "FabricSDK_ChannelContext example_sdk ?sdk ''ch'' [WithUser ''User1''] k = (Some (cl_context example_cc), None)" for k
    by (simp add: FabricSDK_ChannelContext_def)
      (simp add: example_sdk_def [THEN arg_cong [of _ _ sdk_Context]] example_sdk_def [THEN arg_cong [of _ _ sdk_NewChannel]]
        svc example_cc_def)
  then have c: "Channel_Client.New example_client_env (FabricSDK_ChannelContext example_sdk ?sdk ''ch'' [WithUser ''User1'']) =
      Ok example_cc"
    by (simp add: New_def snd_env) (simp add: example_cc_def sdk_service_def example_service_def)
  have "ChannelService_Transactor example_client_env (chan_service (cl_context example_cc)) example_reqctx =
      Ok (DelegateTransactor (example_transactor\<lparr>t_reqCtx := example_reqctx\<rparr>))"
    using example_transactor_made by (simp add: example_cc_def)
  then show ?thesis
    using fabsdk_clients_delegate [OF example_sdk_documented n c] n c by blast
qed

end
