(* ===== verification/Spec2Isabelle.thy ===== *)
theory Spec2Isabelle
  imports Prelude Rwset_Util Fabric_Types Invocation_Chain Txn Transactor Handlers Options Channel_Client
    Der Msp Fabsdk
begin

text \<open>
  A model of fabric-delegate, a Go library on top of the Hyperledger Fabric SDK in which one party signs a
  proposal or an envelope and another party (the delegate) sends it: the delegate queries or endorses with
  the signed proposal, the signer signs the resulting payload, the delegate broadcasts the envelope. All
  paths are below \<open>src/pkg\<close>.

  The parts and how they interact.
  \<^item> \<open>Prelude\<close>: bytes, Go's errors, the result of a call (value, error or panic), the accumulating loop of
    the source and the interfaces \<open>element_codec\<close>, \<open>key_search\<close> and \<open>key_lookup\<close>.
  \<^item> \<open>Rwset_Util\<close> (\<open>client/channel/invoke/rwsetutil\<close>): read-write sets and their conversions to and from
    protobuf messages and bytes. Lemmas: both directions are inverse, parsing is all or nothing.
  \<^item> \<open>Fabric_Types\<close>: the carriers of the SDK's values, the trace of effects, and the parameter records.
  \<^item> \<open>Invocation_Chain\<close> (\<open>newInvocationChain\<close> of \<open>txnhandler.go\<close>, most of \<open>selectendorsehandler.go\<close>): which
    chaincodes and collections a request and a response touch, and how the two are merged.
  \<^item> \<open>Txn\<close> (\<open>fab/txn/proposal.go\<close>, \<open>txn.go\<close>): sending a proposal to all targets at once and an envelope to
    the orderers one by one. The goroutines are the step relation \<open>send_step\<close> with an invariant, progress
    and a measure; the function \<open>SendSignedProposal\<close> is proved to be exactly what they can produce.
  \<^item> \<open>Transactor\<close> (\<open>fab/channel/transactor.go\<close>, \<open>fabsdk/provider/chpvdr/chprovider.go\<close>): the delegate
    transactor, its orderers, the channel provider and service. The interfaces \<open>proposal_sender\<close> and
    \<open>envelope_sender\<close> say what handlers and client rely on and are interpreted on the transactor.
  \<^item> \<open>Handlers\<close> (\<open>txnhandler.go\<close>, the rest of \<open>selectendorsehandler.go\<close>): the two handlers, which transform
    the request context. The interface \<open>request_handler\<close> is what the client relies on.
  \<^item> \<open>Options\<close> (\<open>client/channel/api.go\<close> and the option functions of \<open>chclient.go\<close>): request options, defaults
    and the request context; the interface \<open>field_option\<close> with one interpretation per option.
  \<^item> \<open>Channel_Client\<close> (\<open>client/channel/chclient.go\<close>): the client's operations, composed of all of the above.
  \<^item> \<open>Der\<close> and \<open>Msp\<close> (\<open>msp/user.go\<close>, \<open>msp/ecdsa_key.go\<close>): big-endian bytes and DER, keys, low-S signatures.
  \<^item> \<open>Fabsdk\<close> (\<open>fabsdk\<close>, \<open>fabsdk/factory/dlgsvc\<close>): the SDK wrapper and the wiring of the delegate provider.
  \<^item> This theory: statements about several parts at once, from the signer's key to the status of the
    transaction.

  How Go is modelled. A struct is a record with the source's fields, a pointer or interface that may be nil
  is an option, a dynamic type that the source asserts is a constructor. A function that mutates through a
  pointer returns the new value: handlers return the request context, \<open>FromProtoBytes\<close> the receiver, options
  the options. Calls that leave the repository with an effect are appended to a trace, and what the outside
  answers is a function of the trace so far, so it may change from call to call. A nil dereference is the
  outcome \<open>Panic\<close>; deferred calls are made in Go's order. Error texts leave out the formatted arguments.
  Loops are structural recursion over the list that the source ranges over; there is no fuel. Bytes are
  8-bit words, a chaincode status a 32-bit word, durations 64-bit words; \<open>big.Int\<close> values are unbounded.

  Parameters. The records \<open>rwset_proto\<close>, \<open>chain_proto\<close>, \<open>client_proto\<close> (protobuf), \<open>txn_env\<close>,
  \<open>transactor_env\<close>, \<open>invoke_env\<close>, \<open>handler_env\<close>, \<open>client_env\<close> (SDK, peers, orderers, scheduler), \<open>msp_env\<close>
  (cryptography) and \<open>sdk_env\<close> (SDK construction) hold the code that is not in the repository. Hypotheses on
  them are the definitions named \<open>..._documented\<close>, \<open>schedule_complete\<close>, \<open>sdk_handlers_framed\<close>, \<open>codec_at\<close>,
  \<open>decoder_safe\<close> and \<open>found_configs_present\<close>; the witnesses instantiate them. In particular the retry invoker
  is the parameter \<open>env_Invoke\<close>, given the two callbacks of the source, and \<open>Invoker_documented\<close> says that its
  result is the outcome of one of the attempts these allow; \<open>txn.NewHeader\<close>, which draws a nonce, and the
  signing manager may answer differently at every call; \<open>txn.New\<close> accepts the answers of endorsers exactly
  when they are successful and agree (\<open>NewTransaction_documented\<close>); the SDK takes the channel service from
  the factory of its last service package (\<open>sdk_documented\<close>); and \<open>strings.ToLower\<close> is computed on ASCII and a
  parameter elsewhere.

  What calls may do is stated by the only calls they make: \<open>send_call\<close>, \<open>broadcast_call\<close> and \<open>handler_call\<close> in
  \<open>Fabric_Types\<close> list them, and everything else is excluded.

  Bounds. DER integers are read back for values below 256 to the power 1000; the largest group order is
  below 256 to the power 66.

  Not modelled. Logging; the three aliases of \<open>core/config\<close>; the membership service, which the client only
  stores; the spare capacity that \<open>append\<close> in \<open>merge\<close> may share between two slices with one backing array;
  what the goroutine of a call that timed out does after the call returned; a processor that answers with
  neither a response nor an error, where the source would collect a nil response; the integration tests.
\<close>

section \<open>Signing with a user of this library\<close>

text \<open>
  A \<open>User\<close> as the signing identity of the SDK's interface; the \<open>n\<close>-th signature of a process draws the
  randomness \<open>rnd t\<close> at trace \<open>t\<close>.
\<close>

definition User_SigningIdentity :: "msp_env \<Rightarrow> (trace \<Rightarrow> nat) \<Rightarrow> User \<Rightarrow> SigningIdentity" where
  "User_SigningIdentity M rnd u =
     \<lparr>si_Serialize = User_Serialize M u, si_Sign = (\<lambda>t data. User_Sign M (rnd t) u data)\<rparr>"

text \<open>
  C13: A proposal that a user of this library creates and signs verifies: the signature over its bytes
  is a DER pair with S in the lower half of the order which verifies under the user's public key, and the
  bytes are those of a proposal whose header was made for the given channel with the user's own serialised
  identity.
\<close>

theorem user_proposal_verifies:
  assumes "ecdsa_documented M" and "standard_curve (pk_Curve key)"
    and "CreateSignedProposal E (User_SigningIdentity M rnd (CreateSigningIdentity mspID cert (Some key))) channelID request t
           = (Ok sp, t')"
  shows "(\<exists>r s. read_two_integers (sp_Signature sp) = Some (r, s) \<and> 2 * s < curve_order (pk_Curve key)
       \<and> msp_Verify M (PublicKey.truncate key) (msp_sha256 M (ProposalBytes sp)) r s)
    \<and> fst (createProposal E \<lparr>ctx_Serialize = User_Serialize M (CreateSigningIdentity mspID cert (Some key)),
        ctx_GetHash = env_sha256 E\<rparr> channelID request t) = Ok (ProposalBytes sp)"
proof -
  let ?u = "CreateSigningIdentity mspID cert (Some key)"
  let ?h = "\<lparr>ctx_Serialize = User_Serialize M ?u, ctx_GetHash = env_sha256 E\<rparr>"
  obtain b t1 where b: "createProposal E ?h channelID request t = (Ok b, t1)"
    using assms(3) by (auto simp: CreateSignedProposal_def User_SigningIdentity_def dummyCtx_Serialize_def
      dummyCtx_ChannelID_def cryptoSuite_GetHash_def Let_def split: prod.splits result.splits)
  have sign: "User_Sign M (rnd t1) ?u b = Ok (sp_Signature sp)" "ProposalBytes sp = b"
    using assms(3) b by (auto simp: CreateSignedProposal_def User_SigningIdentity_def dummyCtx_Serialize_def
      dummyCtx_ChannelID_def cryptoSuite_GetHash_def Let_def split: result.splits)
  have u: "privateKey ?u = Some \<lparr>privKey = Some key, exportable = True\<rparr>" by (simp add: CreateSigningIdentity_def)
  obtain r s0 where "msp_Sign M (rnd t1) key (msp_sha256 M b) = Inr (r, s0)"
    using sign(1) u by (auto simp: User_Sign_def Let_def split: sum.splits)
  from User_Sign_verifies [OF assms(1) u _ assms(2) this] sign b show ?thesis by auto
qed

lemma user_proposal_verifies_witness:
  "\<exists>sp s. fst (CreateSignedProposal example_client_env
       (User_SigningIdentity example_msp (\<lambda>t. 0) (CreateSigningIdentity ''Org1'' [9] (Some example_key)))
       ''ch'' (proposalRequest ''cc'') []) = Ok sp
     \<and> read_two_integers (sp_Signature sp) = Some (1, s) \<and> 2 * s < curve_order P256"
proof -
  let ?u = "CreateSigningIdentity ''Org1'' [9] (Some example_key)"
  let ?si = "User_SigningIdentity example_msp (\<lambda>t. 0) ?u"
  have c: "createProposal example_client_env hctx ''ch'' (proposalRequest ''cc'') [] = (Ok [5], [NewTransactionHeader ''ch''])" for hctx
    by (simp add: createProposal_def proposalRequest_def)
      (simp add: example_client_env_def invoke_env.defs selecting_env_def answering_env_def example_env_def
        example_client_proto_def)
  have sign: "User_Sign example_msp 0 ?u [5] = Ok (der_sequence [der_integer 1, der_integer 1])"
    by (simp add: User_Sign_def CreateSigningIdentity_def example_msp_def example_key_def curve_order_def
      ToLowS_def IsLowS_def curveHalfOrders_def drop_bit_eq_div PublicKey.defs MarshalECDSASignature_def)
  let ?sp = "\<lparr>ProposalBytes = [5], sp_Signature = der_sequence [der_integer 1, der_integer 1]\<rparr>"
  have run: "CreateSignedProposal example_client_env ?si ''ch'' (proposalRequest ''cc'') [] =
      (Ok ?sp, [NewTransactionHeader ''ch'', SignWithKey [5]])"
    by (simp add: CreateSignedProposal_def Let_def dummyCtx_ChannelID_def c)
      (simp add: User_SigningIdentity_def sign)
  have "standard_curve (pk_Curve example_key)" by (simp add: standard_curve_def example_key_def)
  from user_proposal_verifies [OF example_msp_documented this run]
  obtain r s where rs: "read_two_integers (sp_Signature ?sp) = Some (r, s)" "2 * s < curve_order (pk_Curve example_key)"
    by blast
  moreover have "read_two_integers (sp_Signature ?sp) = Some (1, 1)"
    using read_two_integers_der [of 1 1] by simp
  ultimately show ?thesis using run by (auto simp: example_key_def)
qed

section \<open>Endorsing succeeds when the endorsers do\<close>

lemma invoker_success:
  assumes "Invoker_documented E" and "handle rc cc t = Ok (rc', t')" and "rc_Error rc' = None"
  shows "env_Invoke E r before (invocation handle cc) (rc, t) = Ok (rc', t')"
  using assms(2,3) by (intro Invoker_success [OF assms(1)]) (simp add: invocation_Ok)

text \<open>
  Assembling the payload: \<open>txn.New\<close> decides, for the header was readable when the proposal was read and a
  transaction can always be marshalled.
\<close>

lemma createTxnPayload_agree:
  assumes "readSignedProposal (env_client_proto E) sp = Ok (proposal, chh, cid)"
    and "NewTransaction_documented E proposal" and "\<And>m. \<exists>b. Marshal_Transaction (env_client_proto E) m = Ok b"
    and "rs \<noteq> []" and "\<forall>r \<in> set rs. wellformed_response r"
  shows "if endorsements_agree rs then \<exists>payload. createTxnPayload E txid proposal rs = Ok payload
    else \<exists>e. createTxnPayload E txid proposal rs = Err e"
proof -
  let ?req = "\<lparr>treq_Proposal = \<lparr>tp_TxnID = txid, tp_Proposal = Some proposal\<rparr>, treq_ProposalResponses = rs\<rparr>"
  have tx: "(\<exists>tx. env_NewTransaction E ?req = Inr tx) \<longleftrightarrow> endorsements_agree rs"
    using assms(2,4,5) unfolding NewTransaction_documented_def by blast
  obtain hdr where hdr: "Unmarshal_Header (env_client_proto E) (prop_Header proposal) = Ok hdr"
    using assms(1) by (auto simp: readSignedProposal_def getChannelHeaderFromHeaderBytes_def outcome_simps)
  show ?thesis
  proof (cases "env_NewTransaction E ?req")
    case (Inl e)
    then show ?thesis using tx by (simp add: createTxnPayload_def)
  next
    case (Inr x)
    obtain b where "Marshal_Transaction (env_client_proto E) (tx_Transaction x) = Ok b"
      using assms(3) by blast
    then show ?thesis using tx Inr hdr by (simp add: createTxnPayload_def)
  qed
qed

lemma prepareHandlerContexts_ok:
  assumes "ChannelService_Transactor E (chan_service (cl_context cc)) reqCtx = Ok d"
    and "svc_Selection (sdk_service (chan_service (cl_context cc))) = None"
    and "svc_Discovery (sdk_service (chan_service (cl_context cc))) = None"
    and "ChaincodeID request \<noteq> []" and "Fcn request \<noteq> []"
  shows "\<exists>rc. prepareHandlerContexts E cc reqCtx request opts = Ok (rc, \<lparr>cc_Transactor = d\<rparr>)"
  using assms by (simp add: prepareHandlerContexts_def Let_def)

text \<open>
  C1: Delegated endorsement is live. For a readable proposal and targets of the caller's choosing, let
  the client's services and transactor be makeable, the call not time out, and every distinct target answer
  with a response. Then the response lists exactly these answers in some order. When they all report
  success and agree on what to write to the ledger, the call returns without an error a payload, the one
  assembled from them under the proposal's own transaction id; when they do not, it returns no payload
  and the error that none could be created.
\<close>

theorem endorse_succeeds:
  assumes "readSignedProposal (env_client_proto E) (Some sp) = Ok (proposal, chh, cid)" and "cid \<noteq> []"
    and "prepareOptsFromOptions (chan_client (cl_context cc))
       (options @ [addDefaultTimeout Query, addDefaultTargetFilter (env_NewEndpointFilter E) EndorsingPeer]) = (opts, None)"
    and "Targets opts = ps" and "ps \<noteq> []"
    and "createReqContext (chan_client (cl_context cc)) opts t = ((reqCtx, txnOpts), t1)"
    and "ChannelService_Transactor E (chan_service (cl_context cc)) reqCtx = Ok (DelegateTransactor d)"
    and "RequestClientContext (t_reqCtx d) = Some client"
    and "svc_Selection (sdk_service (chan_service (cl_context cc))) = None"
    and "svc_Discovery (sdk_service (chan_service (cl_context cc))) = None"
    and "PeersToTxnProcessors_documented E" and "schedule_complete E" and "ToError_documented E"
    and "env_Done E t1 reqCtx = None"
    and "\<forall>i < length (uniq_by URL ps). env_Process E (t1 @ [NewRequest (ForTimeoutType PeerResponse)])
       (batch_ctx d client) i (PeerProcessor (uniq_by URL ps ! i)) sp = Inr (resp i) \<and> wellformed_response (resp i)"
    and "Invoker_documented E" and "NewTransaction_documented E proposal"
    and "\<And>m. \<exists>b. Marshal_Transaction (env_client_proto E) m = Ok b"
  shows "\<exists>res t'. mset (Responses res) = mset (map resp [0..<length (uniq_by URL ps)])
     \<and> resp_Payload res = response_payload (hd (Responses res))
     \<and> (if endorsements_agree (map resp [0..<length (uniq_by URL ps)])
        then \<exists>payload. DelegateEndorseAndCreateTxnPayload E cc (Some sp) options t = Ok ((Some payload, res, None), t')
           \<and> createTxnPayload E (ch_TxId chh) proposal (Responses res) = Ok payload
        else \<exists>e. DelegateEndorseAndCreateTxnPayload E cc (Some sp) options t =
           Ok ((None, res, Some (Wrap ''failed to create txn payload with endorsement results'' e)), t'))"
proof -
  let ?e = "NewDelegateSelectAndEndorseHandler (Some sp) []"
  let ?h = "DelegateSelectAndEndorseHandler_Handle E ?e"
  let ?cc = "\<lparr>cc_Transactor = DelegateTransactor d\<rparr>"
  have req: "ChaincodeID (proposalRequest cid) \<noteq> []" "Fcn (proposalRequest cid) \<noteq> []"
    using assms(2) by (simp_all add: proposalRequest_def)
  obtain rc where rc: "prepareHandlerContexts E cc reqCtx (proposalRequest cid) txnOpts = Ok (rc, ?cc)"
    using prepareHandlerContexts_ok [OF assms(7,9,10) req] by blast
  have rcf: "rc_Opts rc = txnOpts" "rc_Error rc = None" using prepareHandlerContexts_no_calls [OF rc] by simp_all
  have "Targets txnOpts = Targets opts" using assms(6) by (auto simp: createReqContext_def Let_def)
  then have T: "Targets (rc_Opts rc) = ps" using assms(4) rcf by simp
  let ?en = "NewDelegateEndorsementHandler (Some sp) []"
  have en: "deh_signedProposal ?en = Some sp" "deh_next ?en = None" "cc_Transactor ?cc = DelegateTransactor d"
    by (simp_all add: NewDelegateEndorsementHandler_def getNext_def)
  obtain rs where rs: "mset rs = mset (map resp [0..<length (uniq_by URL ps)])"
    and run: "DelegateEndorsementHandler_Handle E ?en rc ?cc t1 = call_next (deh_next ?en)
         (rc\<lparr>rc_Response := (rc_Response rc)\<lparr>Responses := rs, resp_Payload := response_payload (hd rs),
              resp_ChaincodeStatus := tpr_ChaincodeStatus (hd rs)\<rparr>\<rparr>) ?cc (batch_trace t1 ps sp)"
    using endorsement_handler_endorses [OF assms(11-13) T assms(5) en(1,3) assms(8,15)] by blast
  let ?rc' = "rc\<lparr>rc_Response := (rc_Response rc)\<lparr>Responses := rs, resp_Payload := response_payload (hd rs),
              resp_ChaincodeStatus := tpr_ChaincodeStatus (hd rs)\<rparr>\<rparr>"
  have "?h rc ?cc t1 = Ok (?rc', batch_trace t1 ps sp)"
    using run select_user_targets [of rc E "Some sp" "[]" ?cc t1] T assms(5) by (simp add: en(2) call_next_def)
  then have run: "env_Invoke E r before (invocation ?h ?cc) (rc, t1) = Ok (?rc', batch_trace t1 ps sp)" for r before
    by (rule invoker_success [OF assms(16)]) (simp add: rcf)
  have call: "DelegateInvokeHandler E cc ?h (proposalRequest cid)
      (options @ [addDefaultTimeout Query, addDefaultTargetFilter (env_NewEndpointFilter E) EndorsingPeer]) t =
      Ok ((rc_Response ?rc', None), batch_trace t1 ps sp @ [CancelRequest (ctx_lifetime reqCtx)])"
    using assms(3,6,14) rc rcf by (simp add: DelegateInvokeHandler_def Let_def run)
  have "length rs = length (uniq_by URL ps)" using mset_eq_length [OF rs] by simp
  then have ne: "rs \<noteq> []" using assms(5) by (cases rs) auto
  have wf: "\<forall>r \<in> set rs. wellformed_response r"
    using mset_eq_setD [OF rs] assms(15) by auto
  note payload = createTxnPayload_agree [OF assms(1,17,18) ne wf, of "ch_TxId chh"]
  show ?thesis
  proof (intro exI conjI)
    show "mset (Responses (rc_Response ?rc')) = mset (map resp [0..<length (uniq_by URL ps)])" using rs by simp
    show "resp_Payload (rc_Response ?rc') = response_payload (hd (Responses (rc_Response ?rc')))" by simp
    show "if endorsements_agree (map resp [0..<length (uniq_by URL ps)])
        then \<exists>payload. DelegateEndorseAndCreateTxnPayload E cc (Some sp) options t =
             Ok ((Some payload, rc_Response ?rc', None), batch_trace t1 ps sp @ [CancelRequest (ctx_lifetime reqCtx)])
           \<and> createTxnPayload E (ch_TxId chh) proposal (Responses (rc_Response ?rc')) = Ok payload
        else \<exists>e. DelegateEndorseAndCreateTxnPayload E cc (Some sp) options t =
           Ok ((None, rc_Response ?rc', Some (Wrap ''failed to create txn payload with endorsement results'' e)),
             batch_trace t1 ps sp @ [CancelRequest (ctx_lifetime reqCtx)])"
      using payload assms(1) endorsements_agree_mset [OF rs] call
      by (auto simp: DelegateEndorseAndCreateTxnPayload_def split: if_splits)
  qed
qed

lemma endorse_succeeds_witness:
  "\<exists>payload res t'. DelegateEndorseAndCreateTxnPayload example_client_env example_cc (Some example_signed) example_options [] =
       Ok ((Some payload, res, None), t')
     \<and> mset (Responses res) = {#example_response#}"
proof -
  let ?d = "example_transactor\<lparr>t_reqCtx := example_reqctx\<rparr>"
  let ?p = "\<lparr>prop_Header = [5], prop_Payload = [], prop_Extension = []\<rparr>"
  have read: "readSignedProposal (env_client_proto example_client_env) (Some example_signed) =
      Ok (?p, \<lparr>ch_ChannelId = ''ch'', ch_TxId = ''tx1'', ch_Extension = [5]\<rparr>, ''cc'')"
    by (simp add: readSignedProposal_def getProposalFromProposalBytes_def getChannelHeaderFromHeaderBytes_def
      getChaincodeIDFromExtension_def example_client_proto_def example_signed_def)
  have ctx: "chan_client (cl_context example_cc) = orderer_client"
    "chan_service (cl_context example_cc) = ChannelService example_service"
    by (simp_all add: example_cc_def)
  have svc: "svc_Selection (sdk_service (ChannelService example_service)) = None"
    "svc_Discovery (sdk_service (ChannelService example_service)) = None"
    by (simp_all add: sdk_service_def example_service_def)
  have env: "PeersToTxnProcessors_documented example_client_env" "schedule_complete example_client_env"
    "ToError_documented example_client_env"
    using example_env_documented
    by (simp_all add: PeersToTxnProcessors_documented_def schedule_complete_def ToError_documented_def)
  have wf: "wellformed_response example_response" by (simp add: wellformed_response_def example_response_def)
  have tx: "NewTransaction_documented example_client_env ?p"
    by (simp add: NewTransaction_documented_def)
  have marshal: "\<exists>b. Marshal_Transaction (env_client_proto example_client_env) m = Ok b" for m
    by (simp add: example_client_proto_def)
  have T: "Targets (emptyOpts\<lparr>Targets := [org2_peer], Timeouts := Some [Query \<mapsto> 30]\<rparr>) = [org2_peer]" by simp
  have c: "RequestClientContext (t_reqCtx ?d) = Some orderer_client"
    by (simp add: example_reqctx_def RequestClientContext_def)
  show ?thesis
    using endorse_succeeds [OF read, of example_cc example_options, unfolded ctx, OF _ _ T _
        example_reqctx_created example_transactor_made c svc env, of "[]" "\<lambda>_. example_response",
        OF _ _ _ _ _ example_invoker tx marshal]
      example_options_prepared wf example_response_agrees by fastforce
qed

section \<open>Broadcasting succeeds when one orderer does\<close>

text \<open>
  C2: Broadcasting is live. When the envelope can be read, the transactor made, the event registered
  and the event service reports the transaction valid, one configured orderer that accepts the envelope is
  enough for success, whatever the other orderers do and in whatever order they are tried.
\<close>

theorem broadcast_succeeds:
  assumes "getTxnIDFromPayloadBytes (env_client_proto E) (ce_Payload env) = Ok txnID"
    and "prepareOptsFromOptions (chan_client (cl_context cc))
           (options @ [addDefaultTimeout Execute, addDefaultTargetFilter (env_NewEndpointFilter E) EndorsingPeer]) = (opts, None)"
    and "createReqContext (chan_client (cl_context cc)) opts t = ((reqCtx, opts'), t1)"
    and "ChannelService_Transactor E (chan_service (cl_context cc)) reqCtx = Ok (DelegateTransactor d)"
    and "RequestClientContext (t_reqCtx d) = Some client" and "cl_eventService cc"
    and "env_RegisterTxStatusEvent E t1 txnID = Inr reg"
    and "Perm_documented E" and "good \<in> set (t_orderers d)"
    and "\<And>t c. env_SendBroadcast E t c good \<lparr>se_Payload = ce_Payload env, se_Signature = ce_Signature env\<rparr> = None"
    and "\<And>t. env_TxStatusEvent E t reqCtx reg = TxStatus TxValidationCode_VALID"
  shows "\<exists>t'. Client_BroadcastEnvelope E cc (Some env) options t =
     Ok ((emptyResponse\<lparr>resp_TxValidationCode := TxValidationCode_VALID\<rparr>, None), t')"
proof -
  let ?env = "\<lparr>se_Payload = ce_Payload env, se_Signature = ce_Signature env\<rparr>"
  obtain ord :: orderer and t2 where b: "Transactor_BroadcastEnvelope E d ?env (t1 @ [RegisterTxStatusEvent txnID]) =
      ((Some \<lparr>tr_Orderer = orderer_URL ord\<rparr>, None), t2)"
    using one_orderer_suffices [OF assms(8,5,9,10), of "t1 @ [RegisterTxStatusEvent txnID]"]
    unfolding Transactor_BroadcastEnvelope_def by blast
  from BroadcastEnvelope_status [OF assms(1-4,6,7) b] show ?thesis using assms(11) by (simp add: Let_def)
qed

lemma broadcast_succeeds_witness:
  "\<exists>t'. Client_BroadcastEnvelope example_client_env example_cc (Some example_envelope_in) [WithTargets [Some org2_peer]] [] =
     Ok ((emptyResponse\<lparr>resp_TxValidationCode := TxValidationCode_VALID\<rparr>, None), t')"
proof -
  let ?d = "example_transactor\<lparr>t_reqCtx := broadcast_reqctx\<rparr>"
  have id: "getTxnIDFromPayloadBytes (env_client_proto example_client_env) (ce_Payload example_envelope_in) = Ok ''tx1''"
    by (simp add: example_envelope_in_def example_txid)
  have cc: "chan_client (cl_context example_cc) = orderer_client" "cl_eventService example_cc"
    "chan_service (cl_context example_cc) = ChannelService example_service"
    by (simp_all add: example_cc_def)
  have perm: "Perm_documented example_client_env" by (simp add: Perm_documented_def)
  show ?thesis
    using broadcast_succeeds [OF id, of example_cc "[WithTargets [Some org2_peer]]"
        "emptyOpts\<lparr>Targets := [org2_peer], Timeouts := Some [Execute \<mapsto> 30]\<rparr>" "[]" broadcast_reqctx _
        "[NewRequest (ForDuration 30)]" ?d orderer_client 1 "\<lparr>orderer_id = 0, orderer_URL = ''other''\<rparr>", OF _ _ _ _ _ _ perm]
      broadcast_options broadcast_reqctx_created [of "[]"] broadcast_transactor_made cc
    by (simp add: broadcast_reqctx_def RequestClientContext_def example_transactor_def)
qed

end
